(* ===== verification/Usim_Prelude.thy ===== *)
theory Usim_Prelude
  imports Main "HOL-Library.Word" "HOL-Library.Monad_Syntax"
begin

section \<open>Prelude: C values, bounds-checked arrays, word lemmas\<close>

text \<open>
  Conventions shared by every theory of the development.

  \<^item> A C \<open>int\<close> or \<open>unsigned int\<close> is a \<open>32 word\<close> (two's complement, wrap-around);
    a signed comparison goes through \<open>sint\<close>, an unsigned one through the order of words.
    \<open>unsigned short\<close>, \<open>unsigned char\<close> and \<open>uint64_t\<close> are words of 16, 8 and 64 bits.
  \<^item> A C array is a total function on indices together with the length the C declaration
    gives it; every access goes through \<open>ld\<close> or \<open>st\<close>, whose result is \<open>None\<close> when the
    index is outside the array.
  \<^item> \<open>None\<close> always means "the C program has undefined behaviour here" (an access outside
    an array, a null dereference). A theorem that an operation returns \<open>Some\<close> is therefore
    a memory-safety statement.
\<close>

type_synonym u8 = "8 word"
type_synonym u16 = "16 word"
type_synonym u32 = "32 word"
type_synonym u64 = "64 word"
type_synonym 'a arr = "nat \<Rightarrow> 'a"

unbundle bit_operations_syntax

named_theorems state_simps \<open>record projections and frame facts of the component states\<close>
named_theorems safe \<open>operations whose result is defined under the component invariants\<close>

subsection \<open>Bounds-checked array access\<close>

definition ld :: "nat \<Rightarrow> 'a arr \<Rightarrow> nat \<Rightarrow> 'a option" where
  "ld n a i = (if i < n then Some (a i) else None)"

definition st :: "nat \<Rightarrow> 'a arr \<Rightarrow> nat \<Rightarrow> 'a \<Rightarrow> 'a arr option" where
  "st n a i v = (if i < n then Some (a(i := v)) else None)"

lemma ld_in [simp]: "i < n \<Longrightarrow> ld n a i = Some (a i)"
  by (simp add: ld_def)

lemma ld_out [simp]: "n \<le> i \<Longrightarrow> ld n a i = None"
  by (simp add: ld_def)

lemma st_in [simp]: "i < n \<Longrightarrow> st n a i v = Some (a(i := v))"
  by (simp add: st_def)

lemma st_out [simp]: "n \<le> i \<Longrightarrow> st n a i v = None"
  by (simp add: st_def)

lemma ld_eq_Some [simp]: "ld n a i = Some v \<longleftrightarrow> i < n \<and> a i = v"
  by (auto simp: ld_def)

lemma ld_eq_None [simp]: "ld n a i = None \<longleftrightarrow> n \<le> i"
  by (auto simp: ld_def)

lemma st_eq_Some [simp]: "st n a i v = Some b \<longleftrightarrow> i < n \<and> b = a(i := v)"
  by (auto simp: st_def)

lemma st_eq_None [simp]: "st n a i v = None \<longleftrightarrow> n \<le> i"
  by (auto simp: st_def)

subsection \<open>Words under masks\<close>

lemma unat_and_le_mask: "unat (w AND c :: 'a::len word) \<le> unat c"
  by (metis word_and_le1 word_le_nat_alt)

lemma unat_and_less [simp]: "unat c < n \<Longrightarrow> unat (w AND c :: 'a::len word) < n"
  using unat_and_le_mask [of w c] by linarith

lemma and_less_eq [simp]: "c \<le> d \<Longrightarrow> (w AND c :: 'a::len word) \<le> d"
  using word_and_le1 [of w c] by (meson order_trans)

text \<open>A mask of the C code, as an octal literal, is \<open>mask n\<close>.\<close>

lemma mask_num:
  "(0x1F :: 'a::len word) = mask 5" "(0xFF :: 'a word) = mask 8"
  "(0x3FF :: 'a word) = mask 10" "(0x7FF :: 'a word) = mask 11" "(0xFFFF :: 'a word) = mask 16"
  "(0x3FFF :: 'a word) = mask 14" "(0xFFFFFF :: 'a word) = mask 24" "(0x3FFFFFF :: 'a word) = mask 26"
  by (simp_all add: mask_eq_exp_minus_1)

lemma unat_less_uint: "unat (a :: 'a::len word) < 2 ^ n \<longleftrightarrow> uint a < 2 ^ n"
  by (simp only: uint_nat of_nat_less_numeral_power_cancel_iff)

lemma unat_or_less:
  assumes "unat (a :: 'a::len word) < 2 ^ n" and "unat b < 2 ^ n"
  shows "unat (a OR b) < 2 ^ n"
proof -
  have "uint (a OR b) = uint a OR uint b" by (rule unsigned_or_eq)
  with assms show ?thesis by (simp only: unat_less_uint) (rule OR_upper, simp_all)
qed

lemma unat_push_bit_le: "unat (push_bit k a :: 'a::len word) \<le> unat a * 2 ^ k"
proof -
  have "unat (push_bit k a) = take_bit LENGTH('a) (push_bit k (unat a))"
    by (rule unsigned_push_bit_eq)
  also have "\<dots> \<le> push_bit k (unat a)" by (rule take_bit_nat_less_eq_self)
  finally show ?thesis by (simp only: push_bit_eq_mult)
qed

text \<open>The index made of two fields side by side, as in \<open>(l1 << 5) | offset\<close>.\<close>

lemma unat_concat_less:
  assumes "unat a < 2 ^ j" and "unat b < 2 ^ k"
  shows "unat (push_bit k a OR b :: u32) < 2 ^ (j + k)"
proof (rule unat_or_less)
  have "unat a * 2 ^ k < 2 ^ j * 2 ^ k"
    using assms(1) by simp
  then show "unat (push_bit k a) < 2 ^ (j + k)"
    unfolding power_add using unat_push_bit_le [of k a] by (rule le_less_trans [rotated])
  have "(2::nat) ^ k \<le> 2 ^ (j + k)" by simp
  with assms(2) show "unat b < 2 ^ (j + k)" by (rule less_le_trans)
qed

lemma sint_not: "sint (NOT a :: u32) = - sint a - 1"
proof -
  have "sint (NOT a) = signed_take_bit 31 (NOT (sint a))"
    by transfer (simp add: bit_eq_iff bit_simps)
  moreover have "- (2 ^ 31) \<le> NOT (sint a)" "NOT (sint a) < 2 ^ 31"
    using sint_ge [of a] sint_lt [of a] by (simp_all add: not_eq_complement)
  ultimately show ?thesis
    by (simp add: signed_take_bit_int_eq_self not_eq_complement)
qed


subsection \<open>Shifts and fields read as numbers\<close>

lemma not_bit_small: "unat (w :: 'a::len word) < 2 ^ k \<Longrightarrow> k \<le> n \<Longrightarrow> \<not> bit w n"
proof
  assume small: "unat w < 2 ^ k" "k \<le> n" and "bit w n"
  then have "bit (unat w) n" by (simp add: bit_unsigned_iff)
  then have "odd (unat w div 2 ^ n)" by (simp add: bit_iff_odd)
  then have "unat w div 2 ^ n \<noteq> 0" by (metis even_zero)
  moreover have "unat w < 2 ^ n"
    using small by (meson less_le_trans one_le_numeral power_increasing)
  ultimately show False by simp
qed

lemma signed_drop_bit_small:
  "unat (w :: u32) < 2 ^ 31 \<Longrightarrow> signed_drop_bit n w = drop_bit n w"
  using not_bit_small [of w 31 31]
  by (intro bit_word_eqI) (auto simp: bit_simps dest: bit_imp_le_length)

lemma unat_drop_bit: "unat (drop_bit n w :: 'a::len word) = unat w div 2 ^ n"
  by (metis unat_drop_bit_eq drop_bit_eq_div)

lemma unat_and_mask: "unat (w AND mask n :: 'a::len word) = unat w mod 2 ^ n"
  by (simp add: unsigned_and_eq flip: take_bit_eq_mask take_bit_eq_mod)
     (simp add: unsigned_take_bit_eq flip: take_bit_eq_mask)

lemma unat_and_0xFF [simp]: "unat (w AND 0xFF :: 'a::len word) = unat w mod 256"
  using unat_and_mask [of w 8] by (simp add: mask_eq_exp_minus_1)

lemma sint_eq_unat: "unat (w :: u32) < 2 ^ 31 \<Longrightarrow> sint w = int (unat w)"
proof -
  assume small: "unat w < 2 ^ 31"
  then have "uint w < 2 ^ 31" by (simp only: unat_less_uint)
  moreover have "- (2 ^ 31) \<le> uint w"
    by (rule order_trans [OF _ uint_ge_0]) simp
  ultimately have "sint w = uint w"
    using signed_take_bit_int_eq_self [of 31 "uint w"] by (simp add: sint_uint)
  then show ?thesis by (simp only: uint_nat)
qed


lemma sint_less_iff_unat:
  assumes "unat (v :: u32) < 2 ^ 31" and "unat (w :: u32) < 2 ^ 31"
  shows "sint v < sint w \<longleftrightarrow> unat v < unat w"
  by (simp only: sint_eq_unat [OF assms(1)] sint_eq_unat [OF assms(2)] of_nat_less_iff)

lemma sint_word_of_int: "- (2 ^ 31) \<le> x \<Longrightarrow> x < 2 ^ 31 \<Longrightarrow> sint (word_of_int x :: u32) = x"
  using signed_take_bit_int_eq_self [of 31 x] by (simp add: signed_of_int)

lemma sint_nonneg_small: "0 \<le> sint (w :: u32) \<Longrightarrow> unat w < 2 ^ 31"
proof -
  assume "0 \<le> sint w"
  then have "\<not> bit w 31" using bit_last_iff [of w] by simp
  then have "w = take_bit 31 w"
    by (intro bit_word_eqI) (auto simp: bit_simps less_Suc_eq numeral_eq_Suc)
  then show ?thesis by (metis unsigned_take_bit_eq take_bit_nat_less_exp)
qed

lemma of_nat_word_neq_0: "0 < n \<Longrightarrow> n < 2 ^ 32 \<Longrightarrow> (of_nat n :: u32) \<noteq> 0"
  by (simp add: word_of_nat_eq_0_iff) (meson linorder_not_less nat_dvd_not_less)


subsection \<open>Lists of chunks\<close>

lemma chunk_concat:
  assumes "\<forall>x \<in> set xs. length x = k" and "i < length xs"
  shows "take k (drop (k * i) (concat xs @ rest)) = xs ! i"
  using assms
proof (induction xs arbitrary: i)
  case Nil
  then show ?case by simp
next
  case (Cons x xs)
  then show ?case by (cases i) simp_all
qed

lemma length_concat_chunks:
  "\<forall>x \<in> set xs. length x = k \<Longrightarrow> length (concat xs) = k * length xs"
  by (induction xs) auto


subsection \<open>Signed arithmetic that must not overflow\<close>

text \<open>
  Sizes and block numbers are computed with C \<open>int\<close> arithmetic; an overflow there is
  undefined behaviour, so these operations return \<open>None\<close>.
\<close>

definition c_int :: "int \<Rightarrow> u32 option" where
  "c_int x = (if - (2 ^ 31) \<le> x \<and> x < 2 ^ 31 then Some (word_of_int x) else None)"

definition c_add :: "u32 \<Rightarrow> u32 \<Rightarrow> u32 option" where
  "c_add a b = c_int (sint a + sint b)"

definition c_mul :: "u32 \<Rightarrow> u32 \<Rightarrow> u32 option" where
  "c_mul a b = c_int (sint a * sint b)"

lemma c_int_nat: "n < 2 ^ 31 \<Longrightarrow> c_int (int n) = Some (of_nat n)"
proof -
  assume "n < 2 ^ 31"
  then have "int n < int (2 ^ 31)" by (simp only: of_nat_less_iff)
  then show ?thesis by (simp add: c_int_def)
qed

lemma unat_of_nat_small: "n < 2 ^ 31 \<Longrightarrow> unat (of_nat n :: u32) = n"
  by (simp add: unsigned_of_nat take_bit_nat_eq_self)

lemma c_mul_nat:
  assumes "unat a < 2 ^ 31" and "unat b < 2 ^ 31" and "unat a * unat b < 2 ^ 31"
  shows "c_mul a b = Some (of_nat (unat a * unat b))"
  unfolding c_mul_def sint_eq_unat [OF assms(1)] sint_eq_unat [OF assms(2)] of_nat_mult [symmetric]
  by (rule c_int_nat [OF assms(3)])

lemma c_add_nat:
  assumes "unat a < 2 ^ 31" and "unat b < 2 ^ 31" and "unat a + unat b < 2 ^ 31"
  shows "c_add a b = Some (of_nat (unat a + unat b))"
  unfolding c_add_def sint_eq_unat [OF assms(1)] sint_eq_unat [OF assms(2)] of_nat_add [symmetric]
  by (rule c_int_nat [OF assms(3)])

subsection \<open>The interface of a bounded queue\<close>

text \<open>
  A queue that drops what does not fit: \<open>items\<close> is what it holds, oldest first, \<open>enc\<close> what
  is stored for an element. The reference implementation of a sequence of operations is
  \<open>list_ops\<close>.
\<close>

datatype 'e queue_op = Put 'e | Get

fun queue_ops :: "('e \<Rightarrow> 's \<Rightarrow> 's) \<Rightarrow> ('s \<Rightarrow> 's) \<Rightarrow> 'e queue_op list \<Rightarrow> 's \<Rightarrow> 's" where
  "queue_ops put get [] s = s"
| "queue_ops put get (Put e # ops) s = queue_ops put get ops (put e s)"
| "queue_ops put get (Get # ops) s = queue_ops put get ops (get s)"

fun list_ops :: "('e \<Rightarrow> 'i) \<Rightarrow> nat \<Rightarrow> 'e queue_op list \<Rightarrow> 'i list \<Rightarrow> 'i list" where
  "list_ops enc cap [] xs = xs"
| "list_ops enc cap (Put e # ops) xs = list_ops enc cap ops (take cap (xs @ [enc e]))"
| "list_ops enc cap (Get # ops) xs = list_ops enc cap ops (tl xs)"

locale bounded_queue =
  fixes put :: "'e \<Rightarrow> 's \<Rightarrow> 's" and get :: "'s \<Rightarrow> 's"
    and items :: "'s \<Rightarrow> 'i list" and enc :: "'e \<Rightarrow> 'i" and cap :: nat and ok :: "'s \<Rightarrow> bool"
  assumes put_items: "ok s \<Longrightarrow> items (put e s) = take cap (items s @ [enc e])"
    and get_items: "ok s \<Longrightarrow> items (get s) = tl (items s)"
    and ok_put: "ok s \<Longrightarrow> ok (put e s)"
    and ok_get: "ok s \<Longrightarrow> ok (get s)"
begin

lemma ops_refine:
  "ok s \<Longrightarrow> items (queue_ops put get ops s) = list_ops enc cap ops (items s) \<and> ok (queue_ops put get ops s)"
proof (induction ops arbitrary: s)
  case Nil
  then show ?case by simp
next
  case (Cons x ops)
  then show ?case by (cases x) (simp_all add: put_items get_items ok_put ok_get)
qed

lemma puts_items:
  "ok s \<Longrightarrow> length (items s) \<le> cap \<Longrightarrow> items (fold put es s) = take cap (items s @ map enc es) \<and> ok (fold put es s)"
proof (induction es arbitrary: s)
  case Nil
  then show ?case by simp
next
  case (Cons e es)
  have "items (fold put es (put e s)) = take cap (take cap (items s @ [enc e]) @ map enc es)"
    using Cons.IH [of "put e s"] Cons.prems by (simp add: put_items ok_put)
  also have "\<dots> = take cap (items s @ map enc (e # es))"
    by (cases "length (items s) < cap") (use Cons.prems in simp_all)
  finally show ?case using Cons by (simp add: ok_put put_items)
qed

lemma gets_items: "ok s \<Longrightarrow> items ((get ^^ n) s) = drop n (items s) \<and> ok ((get ^^ n) s)"
  by (induction n) (simp_all add: get_items ok_get drop_Suc tl_drop)

lemma delivered_in_order:
  assumes "ok s" and "items s = []" and "n < length es" and "n < cap"
  shows "hd (items ((get ^^ n) (fold put es s))) = enc (es ! n)"
proof -
  have "items (fold put es s) = take cap (map enc es)" "ok (fold put es s)"
    using puts_items [of s es] assms(1,2) by simp_all
  then have "items ((get ^^ n) (fold put es s)) = drop n (take cap (map enc es))"
    using gets_items by simp
  then show ?thesis using assms(3,4) by (simp add: hd_drop_conv_nth)
qed

end

subsection \<open>The interface of a circular stack\<close>

text \<open>
  A stack in a ring of \<open>cap\<close> cells, where a push beyond the capacity overwrites the oldest
  element: \<open>nth_top s k\<close> is the element \<open>k\<close> places below the top.
\<close>

primrec push_all :: "('v \<Rightarrow> 's \<Rightarrow> 's option) \<Rightarrow> 'v list \<Rightarrow> 's \<Rightarrow> 's option" where
  "push_all push [] s = Some s"
| "push_all push (v # vs) s = do { s1 \<leftarrow> push v s; push_all push vs s1 }"

primrec pop_all :: "('s \<Rightarrow> ('s \<times> 'v) option) \<Rightarrow> nat \<Rightarrow> 's \<Rightarrow> ('s \<times> 'v list) option" where
  "pop_all pop 0 s = Some (s, [])"
| "pop_all pop (Suc n) s = do { (s1, v) \<leftarrow> pop s; (s2, vs) \<leftarrow> pop_all pop n s1; Some (s2, v # vs) }"

locale circular_stack =
  fixes push :: "'v \<Rightarrow> 's \<Rightarrow> 's option" and pop :: "'s \<Rightarrow> ('s \<times> 'v) option"
    and nth_top :: "'s \<Rightarrow> nat \<Rightarrow> 'v" and cap :: nat and ok :: "'s \<Rightarrow> bool"
  assumes push_ok: "ok s \<Longrightarrow> \<exists>s'. push v s = Some s' \<and> ok s' \<and> nth_top s' 0 = v \<and>
      (\<forall>k. Suc k < cap \<longrightarrow> nth_top s' (Suc k) = nth_top s k)"
    and pop_ok: "ok s \<Longrightarrow> \<exists>s'. pop s = Some (s', nth_top s 0) \<and> ok s' \<and>
      (\<forall>k. Suc k < cap \<longrightarrow> nth_top s' k = nth_top s (Suc k))"
begin

lemma push_all_ok:
  "ok s \<Longrightarrow> \<exists>s'. push_all push vs s = Some s' \<and> ok s' \<and>
     (\<forall>k < length vs. k < cap \<longrightarrow> nth_top s' k = rev vs ! k) \<and>
     (\<forall>k. length vs + k < cap \<longrightarrow> nth_top s' (length vs + k) = nth_top s k)"
proof (induction vs arbitrary: s)
  case Nil
  then show ?case by simp
next
  case (Cons v vs)
  obtain s1 where s1: "push v s = Some s1" "ok s1" "nth_top s1 0 = v"
      "\<And>k. Suc k < cap \<Longrightarrow> nth_top s1 (Suc k) = nth_top s k"
    using push_ok [OF Cons.prems] by blast
  obtain s2 where s2: "push_all push vs s1 = Some s2" "ok s2"
      "\<And>k. k < length vs \<Longrightarrow> k < cap \<Longrightarrow> nth_top s2 k = rev vs ! k"
      "\<And>k. length vs + k < cap \<Longrightarrow> nth_top s2 (length vs + k) = nth_top s1 k"
    using Cons.IH [OF s1(2)] by blast
  have "nth_top s2 k = rev (v # vs) ! k" if "k < length (v # vs)" "k < cap" for k
    using that s2(3) [of k] s2(4) [of 0] s1(3)
    by (cases "k < length vs") (auto simp: nth_append less_Suc_eq)
  moreover have "nth_top s2 (length (v # vs) + k) = nth_top s k" if "length (v # vs) + k < cap" for k
    using that s2(4) [of "Suc k"] s1(4) [of k] by simp
  ultimately show ?case using s1(1) s2(1,2) by auto
qed

lemma pop_all_ok:
  "ok s \<Longrightarrow> n \<le> cap \<Longrightarrow> \<exists>s'. pop_all pop n s = Some (s', map (nth_top s) [0..<n]) \<and> ok s'"
proof (induction n arbitrary: s)
  case 0
  then show ?case by simp
next
  case (Suc n)
  obtain s1 where s1: "pop s = Some (s1, nth_top s 0)" "ok s1"
      "\<And>k. Suc k < cap \<Longrightarrow> nth_top s1 k = nth_top s (Suc k)"
    using pop_ok [OF Suc.prems(1)] by blast
  obtain s2 where "pop_all pop n s1 = Some (s2, map (nth_top s1) [0..<n])" "ok s2"
    using Suc.IH [OF s1(2)] Suc.prems(2) by auto
  moreover have "map (nth_top s1) [0..<n] = map (nth_top s \<circ> Suc) [0..<n]"
    using s1(3) Suc.prems(2) by auto
  ultimately show ?case using s1(1)
    by (simp add: map_upt_Suc del: upt_Suc)
qed

lemma last_in_first_out:
  assumes "ok s" and "length vs \<le> cap"
  shows "\<exists>s1 s2. push_all push vs s = Some s1 \<and> pop_all pop (length vs) s1 = Some (s2, rev vs)"
proof -
  obtain s1 where s1: "push_all push vs s = Some s1" "ok s1"
      "\<And>k. k < length vs \<Longrightarrow> nth_top s1 k = rev vs ! k"
    using push_all_ok [OF assms(1), of vs] assms(2) by fastforce
  obtain s2 where "pop_all pop (length vs) s1 = Some (s2, map (nth_top s1) [0..<length vs])"
    using pop_all_ok [OF s1(2) assms(2)] by blast
  moreover have "map (nth_top s1) [0..<length vs] = rev vs"
    using s1(3) by (intro nth_equalityI) auto
  ultimately show ?thesis using s1(1) by auto
qed

end

text \<open>A pointer that moves by one in a ring of \<open>2 ^ n\<close> cells.\<close>

lemma ring_up: "unat (p :: u32) < 2 ^ n \<Longrightarrow> n < 32 \<Longrightarrow> unat ((p + 1) AND mask n) = (unat p + 1) mod 2 ^ n"
proof -
  assume p: "unat p < 2 ^ n" "n < 32"
  then have "(2::nat) ^ n \<le> 2 ^ 31" by (intro power_increasing) auto
  with p have "unat (p + 1) = unat p + 1" by (subst unat_plus_simple [THEN iffD1]) (auto simp: no_olen_add_nat)
  then show ?thesis by (simp add: unat_and_mask)
qed

lemma ring_down: "unat (p :: u32) < 2 ^ n \<Longrightarrow> n < 32 \<Longrightarrow> unat ((p - 1) AND mask n) = (unat p + (2 ^ n - 1)) mod 2 ^ n"
proof (cases "p = 0")
  case True
  assume "n < 32"
  then have "uint (mask n :: u32) = mask n"
    by (simp only: uint_mask_eq min_def) simp
  then have "int (unat (mask n :: u32)) = int (2 ^ n - 1)"
    by (simp add: mask_eq_exp_minus_1 of_nat_diff)
  then have "unat (mask n :: u32) = 2 ^ n - 1" by (simp only: of_nat_eq_iff)
  then show ?thesis using True by simp
next
  case False
  assume p: "unat p < 2 ^ n"
  then have "unat p + (2 ^ n - 1) = (unat p - 1) + 2 ^ n"
    using False by (simp add: Suc_le_eq unat_gt_0)
  moreover have "unat (p - 1) = unat p - 1" using False by (simp add: unat_minus_one)
  ultimately show ?thesis by (simp add: unat_and_mask)
qed

text \<open>Going around a ring of n cells: the k-th cell below the pointer.\<close>

lemma ring_cells:
  fixes p n k :: nat
  assumes "p < n" and "Suc k < n"
  shows "((p + 1) mod n + n - Suc k) mod n = (p + n - k) mod n"
    "((p + (n - 1)) mod n + n - k) mod n = (p + n - Suc k) mod n"
    "(p + n - k) mod n \<noteq> (p + 1) mod n"
proof -
  show "((p + 1) mod n + n - Suc k) mod n = (p + n - k) mod n"
    using assms by (cases "p + 1 < n") (auto simp: mod_if)
  show "((p + (n - 1)) mod n + n - k) mod n = (p + n - Suc k) mod n"
    using assms by (cases "p = 0") (auto simp: mod_if)
  show "(p + n - k) mod n \<noteq> (p + 1) mod n"
    using assms by (auto simp: mod_if)
qed

end
