(* ===== verification/Usim_Interrupt.thy ===== *)
theory Usim_Interrupt
  imports Usim_Prelude
begin

section \<open>Interrupt status register (ucode.c)\<close>

text \<open>
  The globals \<open>interrupt_status_reg\<close> and \<open>interrupt_pending_flag\<close> of \<open>ucode.c\<close> and the
  five functions that change them. Devices raise interrupts on two lines, the Unibus (a
  vector and bit 15, honoured only when bit 10 enables it) and the Xbus (bit 14).
\<close>

record intr =
  interrupt_status_reg :: u32
  interrupt_pending_flag :: u32

definition set_interrupt_status_reg :: "u32 \<Rightarrow> intr \<Rightarrow> intr" where
  "set_interrupt_status_reg new s =
     s\<lparr>interrupt_status_reg := new,
       interrupt_pending_flag := (if new AND 0xC000 \<noteq> 0 then 1 else 0)\<rparr>"

definition assert_unibus_interrupt :: "u32 \<Rightarrow> intr \<Rightarrow> intr" where
  "assert_unibus_interrupt vector s =
     (if interrupt_status_reg s AND 0x400 \<noteq> 0
      then set_interrupt_status_reg
             ((interrupt_status_reg s AND NOT 0x3FC) OR 0x8000 OR (vector AND 0x3FC)) s
      else s)"

definition deassert_unibus_interrupt :: "intr \<Rightarrow> intr" where
  "deassert_unibus_interrupt s =
     (if interrupt_status_reg s AND 0x8000 \<noteq> 0
      then set_interrupt_status_reg (interrupt_status_reg s AND NOT (0x3FC OR 0x8000)) s
      else s)"

definition assert_xbus_interrupt :: "intr \<Rightarrow> intr" where
  "assert_xbus_interrupt s = set_interrupt_status_reg (interrupt_status_reg s OR 0x4000) s"

definition deassert_xbus_interrupt :: "intr \<Rightarrow> intr" where
  "deassert_xbus_interrupt s =
     (if interrupt_status_reg s AND 0x4000 \<noteq> 0
      then set_interrupt_status_reg (interrupt_status_reg s AND NOT 0x4000) s
      else s)"

subsection \<open>The flag follows the register\<close>

definition unibus_line :: "intr \<Rightarrow> bool" where
  "unibus_line s \<longleftrightarrow> bit (interrupt_status_reg s) 15"

definition xbus_line :: "intr \<Rightarrow> bool" where
  "xbus_line s \<longleftrightarrow> bit (interrupt_status_reg s) 14"

definition unibus_enabled :: "intr \<Rightarrow> bool" where
  "unibus_enabled s \<longleftrightarrow> bit (interrupt_status_reg s) 10"

definition intr_inv :: "intr \<Rightarrow> bool" where
  "intr_inv s \<longleftrightarrow> interrupt_pending_flag s = (if unibus_line s \<or> xbus_line s then 1 else 0)"

lemma line_masks:
  "(w :: u32) AND 0x8000 = 0 \<longleftrightarrow> \<not> bit w 15" "(w :: u32) AND 0x4000 = 0 \<longleftrightarrow> \<not> bit w 14"
  "(w :: u32) AND 0x400 = 0 \<longleftrightarrow> \<not> bit w 10"
  using and_exp_eq_0_iff_not_bit [of w 15] and_exp_eq_0_iff_not_bit [of w 14]
    and_exp_eq_0_iff_not_bit [of w 10] by simp_all

lemma pending_mask: "(w :: u32) AND 0xC000 = 0 \<longleftrightarrow> \<not> bit w 15 \<and> \<not> bit w 14"
proof -
  have "w AND 0xC000 = (w AND 0x8000) OR (w AND 0x4000)"
    by (simp flip: bit.conj_disj_distrib)
  then show ?thesis by (simp add: or_eq_0_iff line_masks)
qed

lemmas intr_defs = assert_unibus_interrupt_def deassert_unibus_interrupt_def
  assert_xbus_interrupt_def deassert_xbus_interrupt_def set_interrupt_status_reg_def
  unibus_line_def xbus_line_def unibus_enabled_def line_masks pending_mask

lemma set_interrupt_status_reg_inv [safe]: "intr_inv (set_interrupt_status_reg new s)"
  by (simp add: intr_inv_def intr_defs)

lemma intr_ops_inv [safe]:
  assumes "intr_inv s"
  shows "intr_inv (assert_unibus_interrupt v s)" "intr_inv (deassert_unibus_interrupt s)"
    "intr_inv (assert_xbus_interrupt s)" "intr_inv (deassert_xbus_interrupt s)"
  using assms by (auto simp: assert_unibus_interrupt_def deassert_unibus_interrupt_def
      assert_xbus_interrupt_def deassert_xbus_interrupt_def safe)

lemma unibus_ops_xbus_line [simp]:
  "xbus_line (assert_unibus_interrupt v s) = xbus_line s"
  "xbus_line (deassert_unibus_interrupt s) = xbus_line s"
  by (simp_all add: intr_defs bit_simps)

lemma xbus_ops_unibus_line [simp]:
  "unibus_line (assert_xbus_interrupt s) = unibus_line s"
  "unibus_line (deassert_xbus_interrupt s) = unibus_line s"
  by (simp_all add: intr_defs bit_simps)

lemma intr_ops_enabled [simp]:
  "unibus_enabled (assert_unibus_interrupt v s) = unibus_enabled s"
  "unibus_enabled (deassert_unibus_interrupt s) = unibus_enabled s"
  "unibus_enabled (assert_xbus_interrupt s) = unibus_enabled s"
  "unibus_enabled (deassert_xbus_interrupt s) = unibus_enabled s"
  by (simp_all add: intr_defs bit_simps)

lemma own_line [simp]:
  "unibus_line (assert_unibus_interrupt v s) \<longleftrightarrow> unibus_enabled s \<or> unibus_line s"
  "\<not> unibus_line (deassert_unibus_interrupt s)"
  "xbus_line (assert_xbus_interrupt s)" "\<not> xbus_line (deassert_xbus_interrupt s)"
  by (simp_all add: intr_defs bit_simps)

subsection \<open>The interface a device sees: one interrupt line\<close>

text \<open>
  A device knows one line: it raises and drops it, and the processor sees "pending" when
  this line or any other is up. The two interpretations below say that the Unibus and the
  Xbus functions both keep that contract on the shared register.
\<close>

locale interrupt_line =
  fixes raise :: "'s \<Rightarrow> 's" and lower :: "'s \<Rightarrow> 's"
    and enabled :: "'s \<Rightarrow> bool" and line :: "'s \<Rightarrow> bool" and others :: "'s \<Rightarrow> bool"
    and pending :: "'s \<Rightarrow> bool" and inv :: "'s \<Rightarrow> bool"
  assumes raise_line: "line (raise s) \<longleftrightarrow> enabled s \<or> line s"
    and raise_others: "others (raise s) = others s"
    and lower_line: "\<not> line (lower s)"
    and lower_others: "others (lower s) = others s"
    and pending_iff: "inv s \<Longrightarrow> pending s \<longleftrightarrow> line s \<or> others s"
    and inv_raise: "inv s \<Longrightarrow> inv (raise s)"
    and inv_lower: "inv s \<Longrightarrow> inv (lower s)"
begin

lemma raised_is_pending: "inv s \<Longrightarrow> enabled s \<Longrightarrow> pending (raise s)"
  by (simp add: pending_iff inv_raise raise_line)

lemma disabled_raise: "inv s \<Longrightarrow> \<not> enabled s \<Longrightarrow> pending (raise s) = pending s"
  by (simp add: pending_iff inv_raise raise_line raise_others)

lemma lowered_leaves_others: "inv s \<Longrightarrow> pending (lower s) = others s"
  by (simp add: pending_iff inv_lower lower_line lower_others)

lemma lower_after_raise: "inv s \<Longrightarrow> pending (lower (raise s)) = others s"
  by (simp add: lowered_leaves_others inv_raise raise_others)

end

interpretation unibus: interrupt_line
    "assert_unibus_interrupt v" deassert_unibus_interrupt unibus_enabled unibus_line xbus_line
    "\<lambda>s. interrupt_pending_flag s = 1" intr_inv for v
  by unfold_locales (auto simp: safe, auto simp: intr_inv_def split: if_splits)

interpretation xbus: interrupt_line
    assert_xbus_interrupt deassert_xbus_interrupt "\<lambda>s. True" xbus_line unibus_line
    "\<lambda>s. interrupt_pending_flag s = 1" intr_inv
  by unfold_locales (auto simp: safe, auto simp: intr_inv_def split: if_splits)

text \<open>The vector a Unibus interrupt leaves in the register is the one the device passed.\<close>

lemma assert_unibus_vector:
  "unibus_enabled s \<Longrightarrow>
   interrupt_status_reg (assert_unibus_interrupt v s) AND 0x3FC = v AND 0x3FC"
  by (simp add: intr_defs bit.conj_disj_distrib2 and.assoc)

text \<open>
  The interrupt a Unibus device raises (when the processor has enabled them) is pending
  with the device's vector in the register; dropping it leaves an interrupt pending exactly
  when the Xbus line is up.
\<close>

theorem unibus_raise_lower:
  assumes "intr_inv s" and "unibus_enabled s"
  shows "interrupt_pending_flag (assert_unibus_interrupt v s) = 1 \<and>
    interrupt_status_reg (assert_unibus_interrupt v s) AND 0x3FC = v AND 0x3FC \<and>
    (interrupt_pending_flag (deassert_unibus_interrupt (assert_unibus_interrupt v s)) = 1 \<longleftrightarrow> xbus_line s)"
  using unibus.raised_is_pending [OF assms, of v] assert_unibus_vector [OF assms(2), of v]
    unibus.lower_after_raise [OF assms(1), of v] by simp

lemma unibus_raise_lower_witness:
  "interrupt_pending_flag (assert_unibus_interrupt 0xB0 \<lparr>interrupt_status_reg = 0x400, interrupt_pending_flag = 0\<rparr>) = 1"
  using unibus_raise_lower [of "\<lparr>interrupt_status_reg = 0x400, interrupt_pending_flag = 0\<rparr>" "0xB0"]
  by (simp add: intr_inv_def intr_defs)

text \<open>
  On the Xbus, which cannot be disabled: a raised line is pending, and dropping it leaves
  an interrupt pending exactly when a Unibus interrupt is.
\<close>

theorem xbus_raise_lower:
  assumes "intr_inv s"
  shows "interrupt_pending_flag (assert_xbus_interrupt s) = 1 \<and>
    (interrupt_pending_flag (deassert_xbus_interrupt s) = 1 \<longleftrightarrow> unibus_line s)"
  using xbus.raised_is_pending [OF assms] xbus.lowered_leaves_others [OF assms] by simp

lemma xbus_raise_lower_witness:
  "interrupt_pending_flag (assert_xbus_interrupt \<lparr>interrupt_status_reg = 0, interrupt_pending_flag = 0\<rparr>) = 1"
  using xbus_raise_lower [of "\<lparr>interrupt_status_reg = 0, interrupt_pending_flag = 0\<rparr>"]
  by (simp add: intr_inv_def intr_defs)

end
