(* ===== verification/Usim_Memory.thy ===== *)
theory Usim_Memory
  imports Usim_Prelude
begin

section \<open>Physical memory and the two-level map (mem.c)\<close>

text \<open>
  The globals of \<open>mem.c\<close>. A page pointer of the C program is an address in units of pages
  into an explicit store \<open>heap\<close>; \<open>phy_pages\<close> holds a pointer or NULL (\<open>None\<close>) for each of the
  16384 physical page numbers. \<open>malloc\<close> hands out 1024 pages at a time by moving
  \<open>heap_brk\<close>; what a fresh page contains is whatever the store held (it is not cleared).
  \<open>last_virt\<close>, \<open>last_l1\<close>, \<open>last_l2\<close> are the remains of a translation cache that is written
  and never read.
\<close>

record mem =
  phy_pages :: "nat option arr"
  heap :: "nat \<Rightarrow> u32 arr"
  heap_brk :: nat
  page_block :: "nat option"
  page_block_count :: nat
  l1_map :: "u32 arr"
  l2_map :: "u32 arr"
  last_virt :: u32
  last_l1 :: u32
  last_l2 :: u32
  restored :: bool

definition phys_ram_pages :: u32 where
  "phys_ram_pages = 8192"

text \<open>The globals at program start; \<open>h\<close> is what the allocator's pages will hold.\<close>

definition mem_start :: "(nat \<Rightarrow> u32 arr) \<Rightarrow> mem" where
  "mem_start h =
    \<lparr>phy_pages = (\<lambda>i. None), heap = h, heap_brk = 0, page_block = None, page_block_count = 0,
     l1_map = (\<lambda>i. 0), l2_map = (\<lambda>i. 0), last_virt = 0xFFFFFF00, last_l1 = 0, last_l2 = 0,
     restored = False\<rparr>"

definition invalidate_vtop_cache :: "mem \<Rightarrow> mem" where
  "invalidate_vtop_cache m = m\<lparr>last_virt := 0xFFFFFF00\<rparr>"

text \<open>
  \<open>map_vtop virt m = Some (m', l2, l1, offset)\<close>: the value returned, what is stored through
  \<open>pl1_map\<close> (\<open>None\<close> if nothing is) and what is stored through \<open>poffset\<close>.
\<close>

definition map_vtop :: "u32 \<Rightarrow> mem \<Rightarrow> (mem \<times> u32 \<times> u32 option \<times> u32) option" where
  "map_vtop virt0 m =
    (let virt = virt0 AND 0xFFFFFF; offset = virt AND 0xFF in
     if virt AND 0xFF8000 = 0xFC0000 then Some (m, 0x400000 OR 0x800000 OR 0x3C00, None, offset)
     else if virt AND 0xFF8000 = 0xFD0000 then Some (m, 0x400000 OR 0x800000 OR 0x3C00, None, offset)
     else if virt AND 0xFFFF00 = 0xFDFF00 then Some (m, 0x400000 OR 0x800000 OR 0x3DFF, None, offset)
     else do {
       let l1_index = drop_bit 13 virt AND 0x7FF;
       e1 \<leftarrow> ld 2048 (l1_map m) (unat l1_index);
       let l1 = e1 AND 0x1F;
       let l2_index = push_bit 5 l1 OR (drop_bit 8 virt AND 0x1F);
       l2 \<leftarrow> ld 1024 (l2_map m) (unat l2_index);
       Some (m\<lparr>last_virt := virt AND 0xFFFFFF00, last_l1 := l1, last_l2 := l2\<rparr>, l2, Some l1, offset)
     })"

definition new_page :: "mem \<Rightarrow> mem \<times> nat" where
  "new_page m0 =
    (let m = (case page_block m0 of
                None \<Rightarrow> m0\<lparr>page_block := Some (heap_brk m0), page_block_count := 1024,
                           heap_brk := heap_brk m0 + 1024\<rparr>
              | Some _ \<Rightarrow> m0);
         page = the (page_block m);
         count = page_block_count m - 1
     in (m\<lparr>page_block := (if count = 0 then None else Some (page + 1)),
           page_block_count := count\<rparr>, page))"

definition add_new_page_no :: "u32 \<Rightarrow> mem \<Rightarrow> (mem \<times> int) option" where
  "add_new_page_no pn m = do {
     page \<leftarrow> ld 16384 (phy_pages m) (unat pn);
     case page of
       None \<Rightarrow> (let (m1, a) = new_page m in
                Some (m1\<lparr>phy_pages := (phy_pages m1)(unat pn := Some a)\<rparr>, 0))
     | Some _ \<Rightarrow> Some (m, -1)
   }"

text \<open>The word at \<open>offset\<close> of the page a non-NULL pointer refers to.\<close>

definition page_ld :: "mem \<Rightarrow> nat \<Rightarrow> u32 \<Rightarrow> u32 option" where
  "page_ld m a offset = ld 256 (heap m a) (unat offset)"

definition page_st :: "mem \<Rightarrow> nat \<Rightarrow> u32 \<Rightarrow> u32 \<Rightarrow> mem option" where
  "page_st m a offset v = do {
     w \<leftarrow> st 256 (heap m a) (unat offset) v;
     Some (m\<lparr>heap := (heap m)(a := w)\<rparr>)
   }"

text \<open>
  \<open>read_phy_mem paddr m = Some (m', r)\<close>: \<open>r = Some v\<close> when the C function stores \<open>v\<close> and
  returns 0, \<open>r = None\<close> when it returns -1. The page number is computed with the
  arithmetic shift of a signed \<open>int\<close> and indexes \<open>phy_pages\<close> before any check.
\<close>

definition phys_page :: "u32 \<Rightarrow> mem \<Rightarrow> (mem \<times> nat option) option" where
  "phys_page paddr m = do {
     let pn = signed_drop_bit 8 paddr;
     page \<leftarrow> ld 16384 (phy_pages m) (unat pn);
     case page of
       Some a \<Rightarrow> Some (m, Some a)
     | None \<Rightarrow>
        if sint pn < sint phys_ram_pages
        then do {
          (m1, _) \<leftarrow> add_new_page_no pn m;
          Some (m1, phy_pages m1 (unat pn))
        }
        else Some (m, None)
   }"

definition read_phy_mem :: "u32 \<Rightarrow> mem \<Rightarrow> (mem \<times> u32 option) option" where
  "read_phy_mem paddr m = do {
     (m1, page) \<leftarrow> phys_page paddr m;
     case page of
       None \<Rightarrow> Some (m1, None)
     | Some a \<Rightarrow> do { v \<leftarrow> page_ld m1 a (paddr AND 0xFF); Some (m1, Some v) }
   }"

definition write_phy_mem :: "u32 \<Rightarrow> u32 \<Rightarrow> mem \<Rightarrow> (mem \<times> int) option" where
  "write_phy_mem paddr v m = do {
     (m1, page) \<leftarrow> phys_page paddr m;
     case page of
       None \<Rightarrow> Some (m1, -1)
     | Some a \<Rightarrow> do { m2 \<leftarrow> page_st m1 a (paddr AND 0xFF) v; Some (m2, 0) }
   }"


subsection \<open>The allocator never hands out a page twice\<close>

text \<open>
  \<open>next_free\<close> is the pointer the next allocation returns. The invariant: every page in use
  lies below it, no two page numbers share a page, the rest of the current block ends at
  the top of the heap, and level-1 map entries are 5 bits wide (so that a level-2 index
  stays below 1024).
\<close>

definition next_free :: "mem \<Rightarrow> nat" where
  "next_free m = (case page_block m of Some b \<Rightarrow> b | None \<Rightarrow> heap_brk m)"

definition block_ok :: "mem \<Rightarrow> bool" where
  "block_ok m \<longleftrightarrow> (\<forall>b. page_block m = Some b \<longrightarrow>
     b + page_block_count m = heap_brk m \<and> 0 < page_block_count m)"

definition pages_distinct :: "mem \<Rightarrow> bool" where
  "pages_distinct m \<longleftrightarrow> (\<forall>p q a. phy_pages m p = Some a \<longrightarrow> phy_pages m q = Some a \<longrightarrow> p = q)"

definition pages_below :: "mem \<Rightarrow> bool" where
  "pages_below m \<longleftrightarrow> (\<forall>p a. phy_pages m p = Some a \<longrightarrow> a < next_free m)"

definition l1_ok :: "mem \<Rightarrow> bool" where
  "l1_ok m \<longleftrightarrow> (\<forall>i. unat (l1_map m i) < 32)"

definition mem_inv :: "mem \<Rightarrow> bool" where
  "mem_inv m \<longleftrightarrow> block_ok m \<and> pages_distinct m \<and> pages_below m \<and> l1_ok m"

lemma new_page_frame:
  "new_page m = (m1, a) \<Longrightarrow>
   phy_pages m1 = phy_pages m \<and> heap m1 = heap m \<and> l1_map m1 = l1_map m \<and> l2_map m1 = l2_map m"
  by (auto simp: new_page_def Let_def split: option.splits)

lemma new_page_next:
  assumes "block_ok m" and "new_page m = (m1, a)"
  shows "a = next_free m" "next_free m1 = Suc a" "block_ok m1"
  using assms
  by (auto simp: new_page_def next_free_def block_ok_def Let_def split: option.splits if_splits)

lemma new_page_inv:
  assumes "mem_inv m" and "new_page m = (m1, a)"
  shows "mem_inv (m1\<lparr>phy_pages := (phy_pages m1)(p := Some a)\<rparr>)"
proof -
  from assms(1) have "block_ok m" by (simp add: mem_inv_def)
  note next_facts = new_page_next [OF this assms(2)]
  note frame = new_page_frame [OF assms(2)]
  have nf: "next_free (m1\<lparr>phy_pages := q\<rparr>) = Suc (next_free m)" for q
    using next_facts by (simp add: next_free_def split: option.splits)
  have "a \<noteq> b" if "phy_pages m q = Some b" for q b
    using assms(1) next_facts that by (auto simp: mem_inv_def pages_below_def)
  then show ?thesis
    using assms(1) next_facts frame nf
    by (fastforce simp: mem_inv_def pages_distinct_def pages_below_def l1_ok_def block_ok_def
        intro: less_SucI)
qed

lemma add_new_page_no_safe [safe]:
  "unat pn < 16384 \<Longrightarrow> \<exists>m' r. add_new_page_no pn m = Some (m', r)"
  by (auto simp: add_new_page_no_def split: option.splits prod.splits)

lemma add_new_page_no_inv:
  "mem_inv m \<Longrightarrow> add_new_page_no pn m = Some (m', r) \<Longrightarrow> mem_inv m'"
  by (auto simp: add_new_page_no_def new_page_inv split: option.splits prod.splits if_splits
      bind_splits)

lemma add_new_page_no_present:
  "add_new_page_no pn m = Some (m', r) \<Longrightarrow> phy_pages m' (unat pn) \<noteq> None"
  by (auto simp: add_new_page_no_def split: option.splits prod.splits bind_splits)

lemma add_new_page_no_frame:
  "add_new_page_no pn m = Some (m', r) \<Longrightarrow> heap m' = heap m \<and> l1_map m' = l1_map m \<and>
     l2_map m' = l2_map m \<and> (\<forall>q. q \<noteq> unat pn \<or> phy_pages m q \<noteq> None \<longrightarrow> phy_pages m' q = phy_pages m q)"
  by (auto simp: add_new_page_no_def dest!: new_page_frame split: option.splits prod.splits bind_splits)


subsection \<open>Physical reads and writes as a map of words\<close>

text \<open>
  The abstract memory: the word at a physical address, if its page exists. RAM is the
  first 8192 pages; an address of 22 bits or more is outside \<open>phy_pages\<close>.
\<close>

definition phys_word :: "mem \<Rightarrow> u32 \<Rightarrow> u32 option" where
  "phys_word m p = map_option (\<lambda>a. heap m a (unat p mod 256)) (phy_pages m (unat p div 256))"

definition ram_addr :: "u32 \<Rightarrow> bool" where
  "ram_addr p \<longleftrightarrow> unat p < 2 ^ 21"

lemma unat_pn_small: "unat p < 2 ^ 31 \<Longrightarrow> unat (signed_drop_bit 8 p :: u32) = unat p div 256"
  by (simp add: signed_drop_bit_small unat_drop_bit)

lemma unat_pn_large: "2 ^ 31 \<le> unat p \<Longrightarrow> 2 ^ 31 \<le> unat (signed_drop_bit 8 p :: u32)"
proof (rule ccontr)
  assume p: "2 ^ 31 \<le> unat p" and "\<not> 2 ^ 31 \<le> unat (signed_drop_bit 8 p :: u32)"
  then have "\<not> bit (signed_drop_bit 8 p :: u32) 31"
    using not_bit_small [of "signed_drop_bit 8 p :: u32" 31 31] by simp
  then have "\<not> bit p 31" by (simp add: bit_simps)
  then have "p = take_bit 31 p"
    by (intro bit_word_eqI) (auto simp: bit_simps less_Suc_eq numeral_eq_Suc)
  then have "unat p < 2 ^ 31"
    by (metis unsigned_take_bit_eq take_bit_nat_less_exp)
  with p show False by simp
qed

lemma pn_out_of_range: "16384 \<le> unat (signed_drop_bit 8 p :: u32) \<longleftrightarrow> 2 ^ 22 \<le> unat p"
proof (cases "unat p < 2 ^ 31")
  case True
  then show ?thesis by (simp add: unat_pn_small) linarith
next
  case False
  with unat_pn_large [of p] show ?thesis by simp
qed

lemma phys_page_ub_iff: "phys_page p m = None \<longleftrightarrow> 2 ^ 22 \<le> unat p"
proof (cases "2 ^ 22 \<le> unat p")
  case True
  then show ?thesis using pn_out_of_range [of p] by (simp add: phys_page_def Let_def)
next
  case False
  then have pn: "unat (signed_drop_bit 8 p :: u32) < 16384"
    using pn_out_of_range [of p] by simp
  then obtain m' r where "add_new_page_no (signed_drop_bit 8 p) m = Some (m', r)"
    using add_new_page_no_safe by blast
  with False pn show ?thesis by (auto simp: phys_page_def Let_def split: option.splits)
qed

lemma phys_page_inv:
  "mem_inv m \<Longrightarrow> phys_page p m = Some (m', r) \<Longrightarrow> mem_inv m'"
  by (auto simp: phys_page_def Let_def add_new_page_no_inv split: option.splits if_splits bind_splits)

lemma phys_page_result:
  "phys_page p m = Some (m', Some a) \<Longrightarrow> phy_pages m' (unat p div 256) = Some a"
  using pn_out_of_range [of p] add_new_page_no_present [of "signed_drop_bit 8 p" m]
  by (auto simp: phys_page_def Let_def unat_pn_small split: option.splits if_splits bind_splits)

lemma phys_page_frame:
  assumes "phys_page p m = Some (m', r)"
  shows "heap m' = heap m" "l1_map m' = l1_map m" "l2_map m' = l2_map m"
    "phy_pages m q = Some b \<Longrightarrow> phy_pages m' q = Some b"
  using assms
  by (auto simp: phys_page_def Let_def dest!: add_new_page_no_frame
      split: option.splits if_splits bind_splits)


lemma phys_page_present:
  "phy_pages m (unat p div 256) = Some a \<Longrightarrow> unat p < 2 ^ 22 \<Longrightarrow> phys_page p m = Some (m, Some a)"
  using pn_out_of_range [of p] by (simp add: phys_page_def Let_def unat_pn_small)

lemma phys_page_ram:
  assumes "ram_addr p"
  shows "\<exists>m' a. phys_page p m = Some (m', Some a)"
proof -
  from assms have p: "unat p < 2 ^ 21" by (simp add: ram_addr_def)
  then have pn: "unat (signed_drop_bit 8 p :: u32) = unat p div 256"
    by (simp add: unat_pn_small)
  then have small: "unat (signed_drop_bit 8 p :: u32) < 8192" using p by simp
  then have "sint (signed_drop_bit 8 p :: u32) < sint phys_ram_pages"
    using sint_less_iff_unat [of "signed_drop_bit 8 p" phys_ram_pages]
    by (simp add: phys_ram_pages_def)
  moreover from small obtain m' r where "add_new_page_no (signed_drop_bit 8 p) m = Some (m', r)"
    using add_new_page_no_safe [of "signed_drop_bit 8 p" m] by auto
  moreover note add_new_page_no_present [OF this]
  ultimately show ?thesis
    using small by (auto simp: phys_page_def Let_def split: option.splits)
qed

lemma read_phy_mem_present:
  "phys_word m p = Some v \<Longrightarrow> unat p < 2 ^ 22 \<Longrightarrow> read_phy_mem p m = Some (m, Some v)"
  by (auto simp: phys_word_def read_phy_mem_def page_ld_def phys_page_present)

lemma write_phy_mem_ram:
  assumes "mem_inv m" and "ram_addr p"
  shows "\<exists>m'. write_phy_mem p v m = Some (m', 0) \<and> mem_inv m' \<and> phys_word m' p = Some v \<and>
    (\<forall>q x. q \<noteq> p \<longrightarrow> phys_word m q = Some x \<longrightarrow> phys_word m' q = Some x)"
proof -
  obtain m1 a where pp: "phys_page p m = Some (m1, Some a)"
    using phys_page_ram [OF assms(2)] by blast
  note at = phys_page_result [OF pp] and inv1 = phys_page_inv [OF assms(1) pp]
    and frame = phys_page_frame [OF pp]
  define m2 where "m2 = m1\<lparr>heap := (heap m1)(a := (heap m1 a)(unat p mod 256 := v))\<rparr>"
  have wr: "write_phy_mem p v m = Some (m2, 0)"
    by (simp add: write_phy_mem_def pp page_st_def m2_def)
  have inv2: "mem_inv m2"
    using inv1 by (simp add: m2_def mem_inv_def block_ok_def pages_distinct_def pages_below_def
        next_free_def l1_ok_def split: option.splits)
  have other: "phys_word m2 q = Some x" if q: "q \<noteq> p" and x: "phys_word m q = Some x" for q x
  proof -
    from x obtain b where b: "phy_pages m (unat q div 256) = Some b"
      and xb: "x = heap m b (unat q mod 256)"
      by (auto simp: phys_word_def)
    then have b1: "phy_pages m1 (unat q div 256) = Some b" using frame(4) by blast
    have "b \<noteq> a \<or> unat q mod 256 \<noteq> unat p mod 256"
    proof (rule ccontr)
      assume "\<not> (b \<noteq> a \<or> unat q mod 256 \<noteq> unat p mod 256)"
      then have "unat q div 256 = unat p div 256" "unat q mod 256 = unat p mod 256"
        using b1 at inv1 by (auto simp: mem_inv_def pages_distinct_def)
      then have "unat q = unat p" by (metis div_mult_mod_eq)
      with q show False by (simp add: word_unat_eq_iff)
    qed
    with b1 xb frame(1) show ?thesis by (auto simp: phys_word_def m2_def)
  qed
  have "phys_word m2 p = Some v"
    using at by (simp add: phys_word_def m2_def)
  with wr inv2 other show ?thesis by blast
qed

subsection \<open>The interface a bus master sees: a store of words\<close>

text \<open>
  The disk controller and the Ethernet board move blocks of words with loops of
  single-word reads and writes whose return codes they ignore. The loops are defined over
  any pair of word operations; the locale says what the client relies on.
\<close>

primrec write_words ::
  "(u32 \<Rightarrow> 'v \<Rightarrow> 's \<Rightarrow> ('s \<times> int) option) \<Rightarrow> u32 \<Rightarrow> 'v list \<Rightarrow> 's \<Rightarrow> 's option" where
  "write_words wr base [] s = Some s"
| "write_words wr base (v # vs) s = do {
     (s1, _) \<leftarrow> wr base v s;
     write_words wr (base + 1) vs s1
   }"

primrec read_words ::
  "(u32 \<Rightarrow> 's \<Rightarrow> ('s \<times> 'v option) option) \<Rightarrow> u32 \<Rightarrow> nat \<Rightarrow> 's \<Rightarrow> ('s \<times> 'v list) option" where
  "read_words rd base 0 s = Some (s, [])"
| "read_words rd base (Suc n) s = do {
     (s1, r) \<leftarrow> rd base s;
     v \<leftarrow> r;
     (s2, vs) \<leftarrow> read_words rd (base + 1) n s1;
     Some (s2, v # vs)
   }"

locale word_store =
  fixes wr :: "u32 \<Rightarrow> 'v \<Rightarrow> 's \<Rightarrow> ('s \<times> int) option"
    and rd :: "u32 \<Rightarrow> 's \<Rightarrow> ('s \<times> 'v option) option"
    and look :: "'s \<Rightarrow> u32 \<Rightarrow> 'v option"
    and ok :: "u32 \<Rightarrow> bool" and inv :: "'s \<Rightarrow> bool"
  assumes wr_ok: "inv s \<Longrightarrow> ok p \<Longrightarrow> \<exists>s'. wr p v s = Some (s', 0) \<and> inv s' \<and> look s' p = Some v \<and>
      (\<forall>q x. q \<noteq> p \<longrightarrow> look s q = Some x \<longrightarrow> look s' q = Some x)"
    and rd_ok: "ok p \<Longrightarrow> look s p = Some v \<Longrightarrow> rd p s = Some (s, Some v)"
begin

lemma rd_after_wr:
  assumes "inv s" and "ok p"
  shows "\<exists>s'. wr p v s = Some (s', 0) \<and> rd p s' = Some (s', Some v)"
  using wr_ok [OF assms] rd_ok [OF assms(2)] by blast

lemma write_words_ok:
  assumes "inv s" and "\<And>i. i < length vs \<Longrightarrow> ok (base + of_nat i)" and "length vs \<le> 2 ^ 31"
  shows "\<exists>s'. write_words wr base vs s = Some s' \<and> inv s' \<and>
    (\<forall>i < length vs. look s' (base + of_nat i) = Some (vs ! i)) \<and>
    (\<forall>q x. (\<forall>i < length vs. q \<noteq> base + of_nat i) \<longrightarrow> look s q = Some x \<longrightarrow> look s' q = Some x)"
  using assms
proof (induction vs arbitrary: s base)
  case Nil
  then show ?case by simp
next
  case (Cons v vs)
  from Cons.prems(2) [of 0] have "ok base" by simp
  with Cons.prems(1) obtain s1 where s1: "wr base v s = Some (s1, 0)" "inv s1"
      "look s1 base = Some v" "\<And>q x. q \<noteq> base \<Longrightarrow> look s q = Some x \<Longrightarrow> look s1 q = Some x"
    using wr_ok by blast
  have ok1: "ok (base + 1 + of_nat i)" if "i < length vs" for i
    using Cons.prems(2) [of "Suc i"] that by (simp add: add.assoc)
  obtain s2 where s2: "write_words wr (base + 1) vs s1 = Some s2" "inv s2"
      "\<And>i. i < length vs \<Longrightarrow> look s2 (base + 1 + of_nat i) = Some (vs ! i)"
      "\<And>q x. \<forall>i < length vs. q \<noteq> base + 1 + of_nat i \<Longrightarrow> look s1 q = Some x \<Longrightarrow> look s2 q = Some x"
    using Cons.IH [OF s1(2) ok1] Cons.prems(3) by auto
  have ne: "base \<noteq> base + 1 + of_nat i" if "i < length vs" for i
    using of_nat_word_neq_0 [of "Suc i"] that Cons.prems(3) by (simp add: add.assoc)
  have "look s2 base = Some v" using s2(4) s1(3) ne by blast
  then have vals: "look s2 (base + of_nat i) = Some ((v # vs) ! i)" if "i < length (v # vs)" for i
    using that s2(3) by (cases i) (auto simp: add.assoc)
  have "look s2 q = Some x"
    if q: "\<forall>i < length (v # vs). q \<noteq> base + of_nat i" and x: "look s q = Some x" for q x
  proof -
    have "q \<noteq> base" using q by force
    moreover have "\<forall>i < length vs. q \<noteq> base + 1 + of_nat i"
      using q by (fastforce simp: add.assoc dest: spec [where x = "Suc _"])
    ultimately show ?thesis using s1(4) s2(4) x by blast
  qed
  with vals s1(1) s2(1,2) show ?case by auto
qed

lemma read_words_ok:
  assumes "\<And>i. i < length vs \<Longrightarrow> ok (base + of_nat i)"
    and "\<And>i. i < length vs \<Longrightarrow> look s (base + of_nat i) = Some (vs ! i)"
  shows "read_words rd base (length vs) s = Some (s, vs)"
  using assms
proof (induction vs arbitrary: base)
  case Nil
  then show ?case by simp
next
  case (Cons v vs)
  have "rd base s = Some (s, Some v)"
    using Cons.prems(1) [of 0] Cons.prems(2) [of 0] rd_ok by simp
  moreover have "read_words rd (base + 1) (length vs) s = Some (s, vs)"
    using Cons.prems(1) [of "Suc _"] Cons.prems(2) [of "Suc _"]
    by (intro Cons.IH) (simp_all add: add.assoc)
  ultimately show ?case by simp
qed

end

interpretation ram: word_store write_phy_mem read_phy_mem phys_word ram_addr mem_inv
  by unfold_locales (rule write_phy_mem_ram, simp_all add: read_phy_mem_present ram_addr_def)


subsection \<open>Translation is total, and changes nothing but the dead cache\<close>

lemma l2_index_less: "unat (push_bit 5 (a AND 0x1F) OR (b AND 0x1F) :: u32) < 1024"
  using unat_concat_less [of "a AND 0x1F" 5 "b AND 0x1F" 5] by simp

lemma l2_index_less' [simp]: "unat (push_bit 5 a AND 0x3E0 OR (b AND 0x1F) :: u32) < 1024"
  using l2_index_less [of a b] by simp

lemma map_vtop_total [safe]: "\<exists>m' l2 l1 off. map_vtop virt m = Some (m', l2, l1, off)"
  by (simp add: map_vtop_def Let_def)

lemma map_vtop_offset: "map_vtop virt m = Some (m', l2, l1, off) \<Longrightarrow> unat off < 256"
  by (auto simp: map_vtop_def Let_def split: if_splits bind_splits)

lemma map_vtop_frame:
  assumes "map_vtop virt m = Some (m', l2, l1, off)"
  shows "phy_pages m' = phy_pages m" "heap m' = heap m" "l1_map m' = l1_map m"
    "l2_map m' = l2_map m" "page_block m' = page_block m" "heap_brk m' = heap_brk m"
    "page_block_count m' = page_block_count m" "restored m' = restored m"
  using assms by (auto simp: map_vtop_def Let_def split: if_splits bind_splits)

lemma mem_inv_cong:
  assumes "phy_pages m' = phy_pages m" "l1_map m' = l1_map m" "page_block m' = page_block m"
    "heap_brk m' = heap_brk m" "page_block_count m' = page_block_count m"
  shows "mem_inv m' = mem_inv m"
  using assms by (simp add: mem_inv_def block_ok_def pages_distinct_def pages_below_def
      next_free_def l1_ok_def split: option.splits)

lemma map_vtop_inv: "map_vtop virt m = Some (m', l2, l1, off) \<Longrightarrow> mem_inv m' = mem_inv m"
  by (rule mem_inv_cong) (auto dest: map_vtop_frame)

lemma map_vtop_phys_word:
  "map_vtop virt m = Some (m', l2, l1, off) \<Longrightarrow> phys_word m' = phys_word m"
  by (simp add: phys_word_def fun_eq_iff map_vtop_frame)

subsection \<open>Saved memory images (save_state, restore_state)\<close>

text \<open>
  The state file is a list of bytes: two version bytes, then 8192 pages of 1024 bytes in
  the host's little-endian order. \<open>write\<close> with a NULL buffer fails (it does not crash),
  so saving stops at the first page that does not exist; the file is opened without
  truncation, so what an older, longer file held beyond the bytes written stays. A
  \<open>read\<close> at the end of the file returns what is left, possibly nothing, and is taken as
  success.
\<close>

definition word_bytes :: "u32 \<Rightarrow> u8 list" where
  "word_bytes w = [ucast w, ucast (drop_bit 8 w), ucast (drop_bit 16 w), ucast (drop_bit 24 w)]"

definition bytes_word :: "u8 list \<Rightarrow> u32" where
  "bytes_word bs = ucast (bs ! 0) OR push_bit 8 (ucast (bs ! 1))
     OR push_bit 16 (ucast (bs ! 2)) OR push_bit 24 (ucast (bs ! 3))"

definition page_bytes :: "u32 arr \<Rightarrow> u8 list" where
  "page_bytes w = concat (map (\<lambda>i. word_bytes (w i)) [0..<256])"

text \<open>\<open>overlay bs w\<close>: the page \<open>w\<close> after its first \<open>length bs\<close> bytes are replaced by \<open>bs\<close>.\<close>

definition overlay :: "u8 list \<Rightarrow> u32 arr \<Rightarrow> u32 arr" where
  "overlay bs w i =
     (if 256 \<le> i then w i
      else bytes_word (take 4 (drop (4 * i) bs @ drop (length (drop (4 * i) bs)) (word_bytes (w i)))))"

primrec save_pages :: "mem \<Rightarrow> nat list \<Rightarrow> u8 list \<times> int" where
  "save_pages m [] = ([], 0)"
| "save_pages m (i # is) =
     (case phy_pages m i of
        None \<Rightarrow> ([], -1)
      | Some a \<Rightarrow> (let (bs, r) = save_pages m is in (page_bytes (heap m a) @ bs, r)))"

definition PAGES_TO_SAVE :: nat where
  "PAGES_TO_SAVE = 8192"

definition save_state :: "u8 list option \<Rightarrow> mem \<Rightarrow> u8 list \<times> int" where
  "save_state old m =
    (let (bs, r) = save_pages m [0..<PAGES_TO_SAVE];
         written = [0, 1] @ bs;
         before = (case old of None \<Rightarrow> [] | Some f \<Rightarrow> f)
     in (written @ drop (length written) before, r))"

primrec restore_pages :: "nat list \<Rightarrow> u8 list \<Rightarrow> mem \<Rightarrow> mem option" where
  "restore_pages [] f m = Some m"
| "restore_pages (i # is) f m = do {
     (m1, _) \<leftarrow> add_new_page_no (of_nat i) m;
     a \<leftarrow> phy_pages m1 i;
     restore_pages is (drop 1024 f)
       (m1\<lparr>heap := (heap m1)(a := overlay (take 1024 f) (heap m1 a))\<rparr>)
   }"

definition restore_state :: "u8 list option \<Rightarrow> mem \<Rightarrow> (mem \<times> int) option" where
  "restore_state file m =
    (if restored m then Some (m, 0)
     else let m = m\<lparr>restored := True\<rparr> in
       case file of
         None \<Rightarrow> Some (m, -1)
       | Some f \<Rightarrow>
          (if length f < 2 then None
           else if f ! 0 \<noteq> 0 \<or> f ! 1 \<noteq> 1 then Some (m, -1)
           else do {
             m1 \<leftarrow> restore_pages [0..<PAGES_TO_SAVE] (drop 2 f) m;
             Some (m1, 0)
           }))"


subsection \<open>Restoring what was saved\<close>

lemma length_word_bytes [simp]: "length (word_bytes w) = 4"
  by (simp add: word_bytes_def)

lemma bytes_word_word_bytes [simp]: "bytes_word (word_bytes w) = w"
proof (rule bit_word_eqI)
  fix n :: nat
  assume "n < LENGTH(32)"
  then consider "n < 8" | "8 \<le> n" "n < 16" | "16 \<le> n" "n < 24" | "24 \<le> n" "n < 32"
    by fastforce
  then show "bit (bytes_word (word_bytes w)) n = bit w n"
    by cases (auto simp: bytes_word_def word_bytes_def bit_simps)
qed

lemma length_page_bytes [simp]: "length (page_bytes w) = 1024"
  using length_concat_chunks [of "map (\<lambda>i. word_bytes (w i)) [0..<256]" 4]
  by (auto simp: page_bytes_def)

lemma overlay_page_bytes: "i < 256 \<Longrightarrow> overlay (page_bytes w) v i = w i"
proof -
  assume i: "i < 256"
  have "take 4 (drop (4 * i) (page_bytes w)) = word_bytes (w i)"
    using chunk_concat [of "map (\<lambda>i. word_bytes (w i)) [0..<256]" 4 i "[]"] i
    by (auto simp: page_bytes_def)
  with i show ?thesis by (simp add: overlay_def)
qed

lemma save_pages_all:
  "\<forall>i \<in> set is. phy_pages m i \<noteq> None \<Longrightarrow>
   save_pages m is = (concat (map (\<lambda>i. page_bytes (heap m (the (phy_pages m i)))) is), 0)"
  by (induction "is") (auto split: option.splits)

lemma save_pages_missing:
  "j \<in> set is \<Longrightarrow> phy_pages m j = None \<Longrightarrow> snd (save_pages m is) = -1"
  by (induction "is") (auto split: option.splits prod.splits)

lemma restore_pages_ok:
  assumes "mem_inv m" and "\<And>i. i \<in> set is \<Longrightarrow> i < 16384" and "distinct is"
  shows "\<exists>m'. restore_pages is (concat (map (\<lambda>i. page_bytes (ws i)) is) @ rest) m = Some m' \<and>
    mem_inv m' \<and>
    (\<forall>i \<in> set is. \<exists>a. phy_pages m' i = Some a \<and> (\<forall>k < 256. heap m' a k = ws i k)) \<and>
    (\<forall>j b. j \<notin> set is \<longrightarrow> phy_pages m j = Some b \<longrightarrow>
       phy_pages m' j = Some b \<and> heap m' b = heap m b)"
  using assms
proof (induction "is" arbitrary: m)
  case Nil
  then show ?case by simp
next
  case (Cons i "is")
  have i: "i < 16384" using Cons.prems(2) by simp
  then have ui: "unat (of_nat i :: u32) = i" by (simp add: unat_of_nat)
  with i obtain m1 r where an: "add_new_page_no (of_nat i) m = Some (m1, r)"
    using add_new_page_no_safe [of "of_nat i" m] by auto
  obtain a where a: "phy_pages m1 i = Some a"
    using add_new_page_no_present [OF an] ui by auto
  note inv1 = add_new_page_no_inv [OF Cons.prems(1) an] and fr1 = add_new_page_no_frame [OF an]
  define m2 where "m2 = m1\<lparr>heap := (heap m1)(a := overlay (page_bytes (ws i)) (heap m1 a))\<rparr>"
  have inv2: "mem_inv m2"
    using inv1 mem_inv_cong [of m2 m1] by (simp add: m2_def)
  from Cons.IH [OF inv2] Cons.prems(2,3) obtain m3 where m3:
    "restore_pages is (concat (map (\<lambda>i. page_bytes (ws i)) is) @ rest) m2 = Some m3" "mem_inv m3"
    "\<forall>i \<in> set is. \<exists>a. phy_pages m3 i = Some a \<and> (\<forall>k < 256. heap m3 a k = ws i k)"
    "\<And>j b. j \<notin> set is \<Longrightarrow> phy_pages m2 j = Some b \<Longrightarrow>
       phy_pages m3 j = Some b \<and> heap m3 b = heap m2 b"
    by auto
  have "phy_pages m3 i = Some a \<and> heap m3 a = heap m2 a"
    using m3(4) [of i a] a Cons.prems(3) by (simp add: m2_def)
  then have "\<exists>a. phy_pages m3 i = Some a \<and> (\<forall>k < 256. heap m3 a k = ws i k)"
    by (simp add: m2_def overlay_page_bytes)
  moreover have "phy_pages m3 j = Some b \<and> heap m3 b = heap m b"
    if j: "j \<notin> set (i # is)" and b: "phy_pages m j = Some b" for j b
  proof -
    have "phy_pages m1 j = Some b" using fr1 ui j b by auto
    moreover have "b \<noteq> a" using inv1 a calculation j by (auto simp: mem_inv_def pages_distinct_def)
    ultimately show ?thesis using m3(4) [of j b] j fr1 by (simp add: m2_def)
  qed
  ultimately show ?case
    using m3(1-3) an a by (auto simp: m2_def)
qed

text \<open>
  C33. Restoring a saved state into a machine that has not restored one before brings back
  every word of RAM, if all 8192 pages of the saved machine exist.
\<close>

theorem restore_after_save:
  assumes "mem_inv m0" and "\<not> restored m0" and "\<And>i. i < PAGES_TO_SAVE \<Longrightarrow> phy_pages m i \<noteq> None"
  shows "\<exists>m'. restore_state (Some (fst (save_state old m))) m0 = Some (m', 0) \<and> mem_inv m' \<and>
    (\<forall>p. ram_addr p \<longrightarrow> phys_word m' p = phys_word m p)"
proof -
  let ?ws = "\<lambda>i. heap m (the (phy_pages m i))"
  let ?is = "[0..<PAGES_TO_SAVE]"
  obtain rest where f: "fst (save_state old m) =
      [0, 1] @ (concat (map (\<lambda>i. page_bytes (?ws i)) ?is) @ rest)"
    using save_pages_all [of ?is m] assms(3) by (simp add: save_state_def Let_def)
  have "mem_inv (m0\<lparr>restored := True\<rparr>)"
    using assms(1) mem_inv_cong [of "m0\<lparr>restored := True\<rparr>" m0] by simp
  then obtain m' where m': "restore_pages ?is (concat (map (\<lambda>i. page_bytes (?ws i)) ?is) @ rest)
      (m0\<lparr>restored := True\<rparr>) = Some m'" "mem_inv m'"
    "\<forall>i \<in> set ?is. \<exists>a. phy_pages m' i = Some a \<and> (\<forall>k < 256. heap m' a k = ?ws i k)"
    using restore_pages_ok [of "m0\<lparr>restored := True\<rparr>" ?is ?ws rest]
    by (auto simp: PAGES_TO_SAVE_def)
  have "phys_word m' p = phys_word m p" if "ram_addr p" for p
  proof -
    have i: "unat p div 256 < PAGES_TO_SAVE"
      using that by (simp add: ram_addr_def PAGES_TO_SAVE_def)
    then obtain a b where "phy_pages m' (unat p div 256) = Some a"
      "phy_pages m (unat p div 256) = Some b" "\<forall>k < 256. heap m' a k = heap m b k"
      using m'(3) assms(3) [OF i] by fastforce
    then show ?thesis by (simp add: phys_word_def)
  qed
  with m' show ?thesis
    using assms(2) by (auto simp: restore_state_def Let_def f)
qed

lemma mem_start_inv [safe]: "mem_inv (mem_start h)"
  by (simp add: mem_start_def mem_inv_def block_ok_def pages_distinct_def pages_below_def l1_ok_def)

lemma restore_after_save_witness:
  "\<exists>m'. restore_state (Some (fst (save_state None ((mem_start (\<lambda>a i. 7))\<lparr>phy_pages := Some\<rparr>))))
      (mem_start (\<lambda>a i. 0)) = Some (m', 0) \<and> mem_inv m' \<and>
    (\<forall>p. ram_addr p \<longrightarrow> phys_word m' p = phys_word ((mem_start (\<lambda>a i. 7))\<lparr>phy_pages := Some\<rparr>) p)"
  by (rule restore_after_save [OF mem_start_inv]) (simp_all add: mem_start_def)

text \<open>
  A page that does not exist makes saving stop with -1: \<open>write\<close> is given a null pointer.
\<close>

theorem save_state_missing_page:
  "i < PAGES_TO_SAVE \<Longrightarrow> phy_pages m i = None \<Longrightarrow> snd (save_state old m) = -1"
  using save_pages_missing [of i "[0..<PAGES_TO_SAVE]" m]
  by (auto simp: save_state_def Let_def split: prod.splits)

lemma save_state_missing_page_witness: "snd (save_state None (mem_start (\<lambda>a i. 0))) = -1"
  by (rule save_state_missing_page [of 0]) (simp_all add: PAGES_TO_SAVE_def mem_start_def)

subsection \<open>Physical memory, summed up\<close>

text \<open>
  The memory functions index \<open>phy_pages\<close> with the page number before any check: they are
  defined exactly for physical addresses below \<open>2^22\<close>.
\<close>

theorem phys_access_defined:
  "(read_phy_mem p m \<noteq> None \<longleftrightarrow> unat p < 2 ^ 22) \<and> (write_phy_mem p v m \<noteq> None \<longleftrightarrow> unat p < 2 ^ 22)"
proof (cases "phys_page p m")
  case None
  then show ?thesis
    using phys_page_ub_iff [of p m] by (simp add: read_phy_mem_def write_phy_mem_def)
next
  case (Some r)
  then have "unat p < 2 ^ 22" using phys_page_ub_iff [of p m] by simp
  then show ?thesis
    using Some by (auto simp: read_phy_mem_def write_phy_mem_def page_ld_def page_st_def
        split: option.splits prod.splits)
qed

text \<open>
  C16. Physical RAM behaves as an array of words: a write to an address of RAM returns 0, the
  word written is read back, and every other word that existed is unchanged.
\<close>

theorem ram_is_array:
  assumes "mem_inv m" and "ram_addr p"
  shows "\<exists>m'. write_phy_mem p v m = Some (m', 0) \<and> mem_inv m' \<and>
    read_phy_mem p m' = Some (m', Some v) \<and>
    (\<forall>r x. r \<noteq> p \<longrightarrow> phys_word m r = Some x \<longrightarrow> phys_word m' r = Some x)"
  using ram.wr_ok [OF assms] ram.rd_ok [OF assms(2)] by blast

lemma ram_is_array_witness:
  "\<exists>m'. write_phy_mem 0x1234 5 (mem_start (\<lambda>a i. 0)) = Some (m', 0) \<and> mem_inv m' \<and>
    read_phy_mem 0x1234 m' = Some (m', Some 5) \<and>
    (\<forall>r x. r \<noteq> 0x1234 \<longrightarrow> phys_word (mem_start (\<lambda>a i. 0)) r = Some x \<longrightarrow> phys_word m' r = Some x)"
  by (rule ram_is_array [OF mem_start_inv]) (simp add: ram_addr_def)

subsection \<open>What the map says of an address\<close>

text \<open>
  The addresses that bypass the map (the frame buffer, the colour probe, the Xbus I/O page),
  and for the others the level-1 entry and the slot in the level-2 map.
\<close>

definition unmapped_area :: "u32 \<Rightarrow> bool" where
  "unmapped_area x \<longleftrightarrow> x AND 0xFF8000 = 0xFC0000 \<or> x AND 0xFF8000 = 0xFD0000 \<or> x AND 0xFFFF00 = 0xFDFF00"

definition l1_entry :: "mem \<Rightarrow> u32 \<Rightarrow> u32" where
  "l1_entry m x = l1_map m (unat (drop_bit 13 x AND 0x7FF)) AND 0x1F"

definition l2_slot :: "mem \<Rightarrow> u32 \<Rightarrow> nat" where
  "l2_slot m x = unat (push_bit 5 (l1_entry m x) OR (drop_bit 8 x AND 0x1F))"

lemma map_vtop_mapped:
  assumes "\<not> unmapped_area x"
  shows "\<exists>m'. map_vtop x m = Some (m', l2_map m (l2_slot m x), Some (l1_entry m x), x AND 0xFF)"
proof -
  have "unat (push_bit 5 (l1_entry m x) OR (drop_bit 8 x AND 0x1F)) < 1024"
    unfolding l1_entry_def by (rule l2_index_less)
  then show ?thesis
    using assms
    by (simp add: map_vtop_def Let_def and.assoc unmapped_area_def l1_entry_def l2_slot_def)
qed

subsection \<open>Every access keeps the invariant\<close>

lemma page_st_inv: "page_st m a off v = Some m' \<Longrightarrow> mem_inv m' = mem_inv m"
  by (rule mem_inv_cong) (auto simp: page_st_def split: bind_splits)

lemma read_phy_mem_inv: "read_phy_mem p m = Some (m', r) \<Longrightarrow> mem_inv m \<Longrightarrow> mem_inv m'"
  by (auto simp: read_phy_mem_def phys_page_inv split: bind_splits option.splits)

lemma write_phy_mem_inv: "write_phy_mem p v m = Some (m', r) \<Longrightarrow> mem_inv m \<Longrightarrow> mem_inv m'"
  by (auto simp: write_phy_mem_def phys_page_inv page_st_inv split: bind_splits option.splits)

lemma write_words_inv: "write_words write_phy_mem p vs m = Some m' \<Longrightarrow> mem_inv m \<Longrightarrow> mem_inv m'"
  by (induction vs arbitrary: m p) (auto dest!: write_phy_mem_inv split: bind_splits)

lemma read_words_inv: "read_words read_phy_mem p n m = Some (m', vs) \<Longrightarrow> mem_inv m \<Longrightarrow> mem_inv m'"
proof (induction n arbitrary: m p vs)
  case (Suc n)
  then show ?case by (auto dest!: read_phy_mem_inv split: bind_splits)
qed simp

lemma restore_pages_inv: "restore_pages is f m = Some m' \<Longrightarrow> mem_inv m \<Longrightarrow> mem_inv m'"
proof (induction "is" arbitrary: m f)
  case (Cons i "is")
  have heap: "mem_inv (n\<lparr>heap := h\<rparr>) = mem_inv n" for n h by (rule mem_inv_cong) simp_all
  from Cons.prems obtain m1 r a where m1: "add_new_page_no (of_nat i) m = Some (m1, r)"
    "restore_pages is (drop 1024 f) (m1\<lparr>heap := (heap m1)(a := overlay (take 1024 f) (heap m1 a))\<rparr>) = Some m'"
    by (auto split: bind_splits)
  have "mem_inv m1" by (rule add_new_page_no_inv [OF Cons.prems(2) m1(1)])
  then show ?case by (intro Cons.IH [OF m1(2)]) (simp add: heap)
qed simp

lemma restore_state_inv: "restore_state f m = Some (m', r) \<Longrightarrow> mem_inv m \<Longrightarrow> mem_inv m'"
proof -
  have "mem_inv (m\<lparr>restored := True\<rparr>) = mem_inv m" by (rule mem_inv_cong) simp_all
  then show "restore_state f m = Some (m', r) \<Longrightarrow> mem_inv m \<Longrightarrow> mem_inv m'"
    by (auto simp: restore_state_def Let_def dest!: restore_pages_inv split: if_splits option.splits bind_splits)
qed

end
