(* ===== verification/Usim_Disk.thy ===== *)
theory Usim_Disk
  imports Usim_Interrupt Usim_Memory
begin

section \<open>The disk controller (disk.c)\<close>

text \<open>
  The globals of \<open>disk.c\<close>. The mapped image is an array of 32-bit words in the host's
  (little-endian) order with its length in words; \<open>disk_fd\<close> is 0 when no image is open.
  A transfer walks a chain of channel command words in memory; every word moved goes
  through \<open>read_phy_mem\<close> and \<open>write_phy_mem\<close>.
\<close>

record disk =
  disk_fd :: u32
  disk_mm :: "u32 arr"
  disk_mm_words :: nat
  disk_status :: u32
  disk_cmd :: u32
  disk_clp :: u32
  disk_ma :: u32
  disk_ecc :: u32
  disk_da :: u32
  disk_byteswap :: u32
  cyls :: u32
  heads :: u32
  blocks_per_track :: u32
  cur_unit :: u32
  cur_cyl :: u32
  cur_head :: u32
  cur_block :: u32
  disk_interrupt_delay :: u32

definition swap_long :: "u32 \<Rightarrow> u32" where
  "swap_long x =
     drop_bit 24 (x AND 0xFF000000) OR drop_bit 8 (x AND 0x00FF0000)
     OR push_bit 8 (x AND 0x0000FF00) OR push_bit 24 (x AND 0x000000FF)"

definition swaplongbytes :: "u32 list \<Rightarrow> u32 list" where
  "swaplongbytes buf = map swap_long buf"

text \<open>
  The byte offset of a block, \<open>block_no * (256 * 4)\<close> in \<open>int\<close>, as a word index into the
  image; \<open>None\<close> if it overflows or the 1024 bytes do not lie in the mapping.
\<close>

definition image_index :: "u32 \<Rightarrow> disk \<Rightarrow> nat option" where
  "image_index block_no d = do {
     offset \<leftarrow> c_mul block_no 1024;
     if 0 \<le> sint offset \<and> nat (sint offset) + 1024 \<le> 4 * disk_mm_words d
     then Some (nat (sint offset) div 4) else None
   }"

definition disk_read :: "u32 \<Rightarrow> disk \<Rightarrow> u32 list option" where
  "disk_read block_no d = do {
     i \<leftarrow> image_index block_no d;
     let buffer = map (\<lambda>k. disk_mm d (i + k)) [0..<256];
     Some (if disk_byteswap d \<noteq> 0 then swaplongbytes buffer else buffer)
   }"

text \<open>
  \<open>_disk_write\<close> copies the buffer to the image first and swaps the bytes of the buffer
  (not of the image) afterwards; the second component is the buffer left behind.
\<close>

definition disk_write :: "u32 \<Rightarrow> u32 list \<Rightarrow> disk \<Rightarrow> (disk \<times> u32 list) option" where
  "disk_write block_no buffer d = do {
     i \<leftarrow> image_index block_no d;
     let mm = (\<lambda>k. if i \<le> k \<and> k < i + 256 then buffer ! (k - i) else disk_mm d k);
     Some (d\<lparr>disk_mm := mm\<rparr>,
           if disk_byteswap d \<noteq> 0 then swaplongbytes buffer else buffer)
   }"

definition chs_block_no :: "u32 \<Rightarrow> u32 \<Rightarrow> u32 \<Rightarrow> disk \<Rightarrow> u32 option" where
  "chs_block_no cyl head block d = do {
     t1 \<leftarrow> c_mul cyl (blocks_per_track d);
     t2 \<leftarrow> c_mul t1 (heads d);
     t3 \<leftarrow> c_mul head (blocks_per_track d);
     t4 \<leftarrow> c_add t2 t3;
     c_add t4 block
   }"

definition LABEL_LABL :: u32 where
  "LABEL_LABL = 0x4C42414C"

primrec write_at :: "u32 \<Rightarrow> (u32 \<times> u32) list \<Rightarrow> mem \<Rightarrow> mem option" where
  "write_at base [] m = Some m"
| "write_at base (x # xs) m = do {
     (m1, _) \<leftarrow> write_phy_mem (base + fst x) (snd x) m;
     write_at base xs m1
   }"

definition fake_label :: "(u32 \<times> u32) list" where
  "fake_label = [(0, LABEL_LABL), (1, 1), (2, 0x200), (3, 4), (4, 0x40), (5, 0x100), (6, 0x29C),
     (0x80, 1), (0x81, 1), (0x82, 0x29C), (0x83, 0x200), (0x84, 8)]"

definition disk_read_block ::
  "u32 \<Rightarrow> u32 \<Rightarrow> u32 \<Rightarrow> u32 \<Rightarrow> u32 \<Rightarrow> disk \<Rightarrow> mem \<Rightarrow> (mem \<times> int) option" where
  "disk_read_block vma unit cyl head block d m = do {
     block_no \<leftarrow> chs_block_no cyl head block d;
     if disk_fd d \<noteq> 0 then do {
       buffer \<leftarrow> disk_read block_no d;
       m1 \<leftarrow> write_words write_phy_mem vma buffer m;
       Some (m1, 0)
     }
     else if unit = 0 \<and> cyl = 0 \<and> head = 0 \<and> block = 0 then do {
       m1 \<leftarrow> write_at vma fake_label m;
       Some (m1, 0)
     }
     else Some (m, -1)
   }"

definition disk_write_block ::
  "u32 \<Rightarrow> u32 \<Rightarrow> u32 \<Rightarrow> u32 \<Rightarrow> disk \<Rightarrow> mem \<Rightarrow> (disk \<times> mem \<times> int) option" where
  "disk_write_block vma cyl head block d m = do {
     block_no \<leftarrow> chs_block_no cyl head block d;
     if disk_fd d \<noteq> 0 then do {
       (m1, buffer) \<leftarrow> read_words read_phy_mem vma 256 m;
       (d1, _) \<leftarrow> disk_write block_no buffer d;
       Some (d1, m1, 0)
     }
     else Some (d, m, 0)
   }"

definition disk_throw_interrupt :: "disk \<Rightarrow> intr \<Rightarrow> disk \<times> intr" where
  "disk_throw_interrupt d s = (d\<lparr>disk_status := disk_status d OR 8\<rparr>, assert_xbus_interrupt s)"

definition disk_future_interrupt :: "disk \<Rightarrow> disk" where
  "disk_future_interrupt d = d\<lparr>disk_interrupt_delay := 2500\<rparr>"

definition disk_poll :: "disk \<Rightarrow> intr \<Rightarrow> disk \<times> intr" where
  "disk_poll d s =
    (if disk_interrupt_delay d \<noteq> 0 then
       (let d1 = d\<lparr>disk_interrupt_delay := disk_interrupt_delay d - 1\<rparr> in
        if disk_interrupt_delay d1 = 0 then disk_throw_interrupt d1 s else (d1, s))
     else (d, s))"

definition disk_decode_addr :: "disk \<Rightarrow> disk" where
  "disk_decode_addr d =
     d\<lparr>cur_unit := signed_drop_bit 28 (disk_da d) AND 7,
       cur_cyl := signed_drop_bit 16 (disk_da d) AND 0xFFF,
       cur_head := signed_drop_bit 8 (disk_da d) AND 0xFF,
       cur_block := disk_da d AND 0xFF\<rparr>"

definition disk_undecode_addr :: "disk \<Rightarrow> disk" where
  "disk_undecode_addr d =
     d\<lparr>disk_da := push_bit 28 (cur_unit d AND 7) OR push_bit 16 (cur_cyl d AND 0xFFF)
         OR push_bit 8 (cur_head d AND 0xFF) OR (cur_block d AND 0xFF)\<rparr>"

definition disk_incr_block :: "disk \<Rightarrow> disk" where
  "disk_incr_block d0 =
    (let d = d0\<lparr>cur_block := cur_block d0 + 1\<rparr> in
     if sint (cur_block d) \<ge> sint (blocks_per_track d) then
       (let d = d\<lparr>cur_block := 0, cur_head := cur_head d + 1\<rparr> in
        if sint (cur_head d) \<ge> sint (heads d)
        then d\<lparr>cur_head := 0, cur_cyl := cur_cyl d + 1\<rparr> else d)
     else d)"

text \<open>
  The loop over channel command words, at most 65535 of them; the transfer of one block is
  a parameter, as the read and the write loops of the source differ in it only. The result
  flag is \<open>False\<close> when a command word could not be read (the C function returns at once).
\<close>

primrec ccw_loop ::
  "(u32 \<Rightarrow> disk \<Rightarrow> mem \<Rightarrow> (disk \<times> mem) option) \<Rightarrow> nat \<Rightarrow> disk \<Rightarrow> mem \<Rightarrow> (disk \<times> mem \<times> bool) option" where
  "ccw_loop transfer 0 d m = Some (d, m, True)"
| "ccw_loop transfer (Suc n) d m = do {
     (m1, f) \<leftarrow> read_phy_mem (disk_clp d) m;
     case f of
       None \<Rightarrow> Some (d, m1, False)
     | Some ccw \<Rightarrow> do {
         let vma = ccw AND NOT 0xFF;
         (d2, m2) \<leftarrow> transfer vma (d\<lparr>disk_ma := vma\<rparr>) m1;
         if ccw AND 1 = 0 then Some (d2, m2, True)
         else (let d3 = disk_incr_block d2 in
               ccw_loop transfer n (d3\<lparr>disk_clp := disk_clp d3 + 1\<rparr>) m2)
       }
   }"

definition ccw_finish :: "disk \<times> mem \<times> bool \<Rightarrow> disk \<times> mem" where
  "ccw_finish r =
    (let (d, m, completed) = r in
     if completed then
       (let d1 = disk_undecode_addr d in
        (if disk_cmd d1 AND 0x800 \<noteq> 0 then disk_future_interrupt d1 else d1, m))
     else (d, m))"

definition read_transfer :: "u32 \<Rightarrow> disk \<Rightarrow> mem \<Rightarrow> (disk \<times> mem) option" where
  "read_transfer vma d m = do {
     (m1, _) \<leftarrow> disk_read_block vma (cur_unit d) (cur_cyl d) (cur_head d) (cur_block d) d m;
     Some (d, m1)
   }"

definition write_transfer :: "u32 \<Rightarrow> disk \<Rightarrow> mem \<Rightarrow> (disk \<times> mem) option" where
  "write_transfer vma d m = do {
     (d1, m1, _) \<leftarrow> disk_write_block vma (cur_cyl d) (cur_head d) (cur_block d) d m;
     Some (d1, m1)
   }"

definition disk_start_read :: "disk \<Rightarrow> mem \<Rightarrow> (disk \<times> mem) option" where
  "disk_start_read d m = do {
     r \<leftarrow> ccw_loop read_transfer 65535 (disk_decode_addr d) m;
     Some (ccw_finish r)
   }"

definition disk_start_write :: "disk \<Rightarrow> mem \<Rightarrow> (disk \<times> mem) option" where
  "disk_start_write d m = do {
     r \<leftarrow> ccw_loop write_transfer 65535 (disk_decode_addr d) m;
     Some (ccw_finish r)
   }"

definition disk_start_read_compare :: "disk \<Rightarrow> disk" where
  "disk_start_read_compare d = disk_decode_addr d"

definition disk_start :: "disk \<Rightarrow> mem \<Rightarrow> (disk \<times> mem \<times> int) option" where
  "disk_start d m =
    (let cmd = disk_cmd d AND 0x3FF in
     if cmd = 0 then do { (d1, m1) \<leftarrow> disk_start_read d m; Some (d1, m1, 0) }
     else if cmd = 8 then Some (disk_start_read_compare d, m, 0)
     else if cmd = 9 then do { (d1, m1) \<leftarrow> disk_start_write d m; Some (d1, m1, 0) }
     else if cmd = 0x205 then Some (d, m, 0)
     else if cmd = 0x105 then Some (d, m, 0)
     else Some (d, m, -1))"

definition disk_xbus_write ::
  "u32 \<Rightarrow> u32 \<Rightarrow> disk \<Rightarrow> mem \<Rightarrow> intr \<Rightarrow> (disk \<times> mem \<times> intr) option" where
  "disk_xbus_write offset v d m s =
    (if offset = 0xF8 then Some (d, m, s)
     else if offset = 0xFC then
       Some (d\<lparr>disk_cmd := v\<rparr>, m, if v AND 0xC00 = 0 then deassert_xbus_interrupt s else s)
     else if offset = 0xFD then Some (d\<lparr>disk_clp := v\<rparr>, m, s)
     else if offset = 0xFE then Some (d\<lparr>disk_da := v\<rparr>, m, s)
     else if offset = 0xFF then do { (d1, m1, _) \<leftarrow> disk_start d m; Some (d1, m1, s) }
     else Some (d, m, s))"

text \<open>\<open>disk_xbus_read offset pv d\<close>: what \<open>*pv\<close> holds afterwards (unchanged for an unknown register).\<close>

definition disk_xbus_read :: "u32 \<Rightarrow> u32 \<Rightarrow> disk \<Rightarrow> u32" where
  "disk_xbus_read offset pv d =
    (if offset = 0xF8 then disk_status d
     else if offset = 0xF9 then disk_ma d
     else if offset = 0xFA then disk_da d
     else if offset = 0xFB then disk_ecc d
     else if offset = 0xFC then disk_status d
     else if offset = 0xFD then disk_clp d
     else if offset = 0xFE then disk_da d
     else if offset = 0xFF then 0
     else pv)"

subsection \<open>Cylinder, head and block as one number\<close>

definition linear_block :: "disk \<Rightarrow> nat" where
  "linear_block d =
     (unat (cur_cyl d) * unat (heads d) + unat (cur_head d)) * unat (blocks_per_track d) + unat (cur_block d)"

text \<open>A geometry with positive \<open>int\<close> sizes, and an address inside its tracks and cylinders.\<close>

definition geometry_ok :: "disk \<Rightarrow> bool" where
  "geometry_ok d \<longleftrightarrow> 0 < unat (heads d) \<and> unat (heads d) < 2 ^ 31 \<and>
     0 < unat (blocks_per_track d) \<and> unat (blocks_per_track d) < 2 ^ 31"

definition address_ok :: "disk \<Rightarrow> bool" where
  "address_ok d \<longleftrightarrow> geometry_ok d \<and> unat (cur_head d) < unat (heads d) \<and>
     unat (cur_block d) < unat (blocks_per_track d)"

definition block_in_image :: "disk \<Rightarrow> nat \<Rightarrow> bool" where
  "block_in_image d n \<longleftrightarrow> n < 2 ^ 21 \<and> 256 * Suc n \<le> disk_mm_words d"

definition block_words :: "disk \<Rightarrow> nat \<Rightarrow> u32 list" where
  "block_words d n = map (\<lambda>k. disk_mm d (256 * n + k)) [0..<256]"

lemma length_block_words [simp]: "length (block_words d n) = 256"
  by (simp add: block_words_def)

lemma product_le: "0 < (k :: nat) \<Longrightarrow> n \<le> n * k"
  by simp

lemma chs_block_no_linear:
  assumes "address_ok d" and "linear_block d < 2 ^ 31"
  shows "chs_block_no (cur_cyl d) (cur_head d) (cur_block d) d = Some (of_nat (linear_block d))"
proof -
  define c h b H B where "c = unat (cur_cyl d)" and "h = unat (cur_head d)" and "b = unat (cur_block d)"
    and "H = unat (heads d)" and "B = unat (blocks_per_track d)"
  note defs = c_def h_def b_def H_def B_def
  have geo: "0 < H" "H < 2 ^ 31" "0 < B" "B < 2 ^ 31" "h < H" "b < B"
    using assms(1) by (simp_all add: defs address_ok_def geometry_ok_def)
  have lin: "linear_block d = c * B * H + h * B + b"
    by (simp add: linear_block_def defs algebra_simps)
  have small: "c * B * H + h * B + b < 2 ^ 31" using assms(2) lin by simp
  have cBH: "c * B * H < 2 ^ 31" and hB: "h * B < 2 ^ 31" and cBHhB: "c * B * H + h * B < 2 ^ 31"
    using small by linarith+
  have cB: "c * B < 2 ^ 31" using cBH product_le [OF geo(1), of "c * B"] by linarith
  have c: "c < 2 ^ 31" using cB product_le [OF geo(3), of c] by linarith
  have h: "h < 2 ^ 31" "b < 2 ^ 31" using geo by linarith+
  have t1: "c_mul (cur_cyl d) (blocks_per_track d) = Some (of_nat (c * B))"
    using c_mul_nat [of "cur_cyl d" "blocks_per_track d"] c geo cB by (simp only: defs)
  have t2: "c_mul (of_nat (c * B)) (heads d) = Some (of_nat (c * B * H))"
    using c_mul_nat [of "of_nat (c * B)" "heads d"] cB geo cBH
    by (simp only: H_def unat_of_nat_small)
  have t3: "c_mul (cur_head d) (blocks_per_track d) = Some (of_nat (h * B))"
    using c_mul_nat [of "cur_head d" "blocks_per_track d"] h geo hB by (simp only: defs)
  have t4: "c_add (of_nat (c * B * H)) (of_nat (h * B)) = Some (of_nat (c * B * H + h * B))"
    using c_add_nat [of "of_nat (c * B * H)" "of_nat (h * B)"] cBH hB cBHhB
    by (simp only: unat_of_nat_small)
  have t5: "c_add (of_nat (c * B * H + h * B)) (cur_block d) = Some (of_nat (linear_block d))"
    using c_add_nat [of "of_nat (c * B * H + h * B)" "cur_block d"] h cBHhB small
    by (simp only: b_def unat_of_nat_small lin)
  show ?thesis unfolding chs_block_no_def t1 bind.bind_lunit t2 t3 t4 by (rule t5)
qed

text \<open>What a transfer and a step of the address leave alone.\<close>

definition same_disk :: "disk \<Rightarrow> disk \<Rightarrow> bool" where
  "same_disk d d' \<longleftrightarrow> disk_fd d' = disk_fd d \<and> disk_mm_words d' = disk_mm_words d \<and>
     disk_byteswap d' = disk_byteswap d \<and> heads d' = heads d \<and> blocks_per_track d' = blocks_per_track d \<and>
     disk_interrupt_delay d' = disk_interrupt_delay d \<and> disk_cmd d' = disk_cmd d \<and> cur_unit d' = cur_unit d"

lemma unat_plus_1: "unat (w :: u32) < 2 ^ 31 \<Longrightarrow> unat (w + 1) = Suc (unat w)"
  by (simp add: unat_word_ariths)

lemma less_plus_1: "unat (v :: u32) < unat w \<Longrightarrow> unat w < 2 ^ 31 \<Longrightarrow> unat (v + 1) = Suc (unat v)"
  by (rule unat_plus_1) simp

lemma sint_le_iff_unat:
  "unat (v :: u32) < 2 ^ 31 \<Longrightarrow> unat (w :: u32) < 2 ^ 31 \<Longrightarrow> sint v \<le> sint w \<longleftrightarrow> unat v \<le> unat w"
  using sint_less_iff_unat [of w v] by auto

lemma linear_cyl_bound:
  assumes "geometry_ok d" and "linear_block d < 2 ^ 31"
  shows "unat (cur_cyl d) < 2 ^ 31"
proof -
  have "unat (cur_cyl d) \<le> unat (cur_cyl d) * unat (heads d)"
    using assms(1) by (simp add: geometry_ok_def)
  also have "\<dots> \<le> unat (cur_cyl d) * unat (heads d) + unat (cur_head d)" by simp
  also have "\<dots> \<le> (unat (cur_cyl d) * unat (heads d) + unat (cur_head d)) * unat (blocks_per_track d)"
    using assms(1) by (simp add: geometry_ok_def)
  also have "\<dots> \<le> linear_block d" by (simp add: linear_block_def)
  finally show ?thesis using assms(2) by (rule le_less_trans)
qed

lemma incr_block_linear:
  assumes "address_ok d" and "linear_block d < 2 ^ 31"
  shows "linear_block (disk_incr_block d) = Suc (linear_block d)" "address_ok (disk_incr_block d)"
    "same_disk d (disk_incr_block d)" "disk_clp (disk_incr_block d) = disk_clp d"
proof -
  have geo: "0 < unat (heads d)" "unat (heads d) < 2 ^ 31" "0 < unat (blocks_per_track d)"
    "unat (blocks_per_track d) < 2 ^ 31" "unat (cur_head d) < unat (heads d)"
    "unat (cur_block d) < unat (blocks_per_track d)"
    using assms(1) by (simp_all add: address_ok_def geometry_ok_def)
  have b1: "unat (cur_block d + 1) = Suc (unat (cur_block d))"
    and h1: "unat (cur_head d + 1) = Suc (unat (cur_head d))"
    using less_plus_1 geo by blast+
  have c1: "unat (cur_cyl d + 1) = Suc (unat (cur_cyl d))"
    using assms by (intro unat_plus_1 linear_cyl_bound) (simp_all add: address_ok_def)
  have bs: "sint (blocks_per_track d) \<le> sint (cur_block d + 1) \<longleftrightarrow>
      unat (blocks_per_track d) = Suc (unat (cur_block d))"
    and hs: "sint (heads d) \<le> sint (cur_head d + 1) \<longleftrightarrow> unat (heads d) = Suc (unat (cur_head d))"
    using geo b1 h1 by (auto simp: sint_le_iff_unat)
  show "linear_block (disk_incr_block d) = Suc (linear_block d)"
    using geo b1 h1 c1
    by (simp add: disk_incr_block_def Let_def bs hs linear_block_def)
  show "address_ok (disk_incr_block d)"
    using geo b1 h1
    by (simp add: disk_incr_block_def Let_def bs hs address_ok_def geometry_ok_def)
  show "same_disk d (disk_incr_block d)" "disk_clp (disk_incr_block d) = disk_clp d"
    by (simp_all add: disk_incr_block_def Let_def same_disk_def)
qed

subsection \<open>One block\<close>

definition image_ok :: "disk \<Rightarrow> bool" where
  "image_ok d \<longleftrightarrow> disk_fd d \<noteq> 0 \<and> disk_byteswap d = 0"

definition ram_page :: "u32 \<Rightarrow> bool" where
  "ram_page p \<longleftrightarrow> ram_addr p \<and> unat p mod 256 = 0"

definition page_holds :: "mem \<Rightarrow> u32 \<Rightarrow> u32 list \<Rightarrow> bool" where
  "page_holds m p ws \<longleftrightarrow> (\<forall>i < length ws. phys_word m (p + of_nat i) = Some (ws ! i))"

lemma ram_page_word:
  assumes "ram_page p" and "i < 256"
  shows "unat (p + of_nat i) = unat p + i" "ram_addr (p + of_nat i)"
proof -
  have p: "unat p < 2 ^ 21" "unat p mod 256 = 0" using assms(1) by (simp_all add: ram_page_def ram_addr_def)
  have i: "unat (of_nat i :: u32) = i" using assms(2) by (intro unat_of_nat_small) simp
  have "unat p + 256 \<le> 2 ^ 21" using p by auto
  with assms(2) i show "unat (p + of_nat i) = unat p + i" "ram_addr (p + of_nat i)"
    by (simp_all add: unat_word_ariths ram_addr_def)
qed

lemma image_index_block:
  assumes "block_in_image d n"
  shows "image_index (of_nat n) d = Some (256 * n)"
proof -
  have n: "n < 2 ^ 21" "256 * Suc n \<le> disk_mm_words d" using assms by (simp_all add: block_in_image_def)
  then have un: "unat (of_nat n :: u32) = n" by (intro unat_of_nat_small) simp
  have kb: "c_mul (of_nat n) 1024 = Some (of_nat (n * 1024))"
    using c_mul_nat [of "of_nat n" 1024] un n by simp
  have "unat (of_nat (n * 1024) :: u32) = n * 1024" using n by (intro unat_of_nat_small) simp
  then have "sint (of_nat (n * 1024) :: u32) = int (n * 1024)"
    using sint_eq_unat [of "of_nat (n * 1024)"] n by simp
  then have "nat (sint (of_nat (n * 1024) :: u32)) = n * 1024" "0 \<le> sint (of_nat (n * 1024) :: u32)"
    by simp_all
  then show ?thesis
    unfolding image_index_def kb bind.bind_lunit using n by auto
qed

lemma disk_read_words:
  "image_ok d \<Longrightarrow> block_in_image d n \<Longrightarrow> disk_read (of_nat n) d = Some (block_words d n)"
  by (simp add: disk_read_def image_index_block image_ok_def block_words_def)

lemma read_transfer_loads:
  assumes "image_ok d" and "address_ok d" and "block_in_image d (linear_block d)"
    and "mem_inv m" and "ram_page p"
  shows "\<exists>m'. read_transfer p d m = Some (d, m') \<and> mem_inv m' \<and>
    page_holds m' p (block_words d (linear_block d)) \<and>
    (\<forall>r x. (\<forall>i < 256. r \<noteq> p + of_nat i) \<longrightarrow> phys_word m r = Some x \<longrightarrow> phys_word m' r = Some x)"
proof -
  have "linear_block d < 2 ^ 31" using assms(3) by (simp add: block_in_image_def)
  note bno = chs_block_no_linear [OF assms(2) this]
  obtain m' where "write_words write_phy_mem p (block_words d (linear_block d)) m = Some m'" "mem_inv m'"
    "\<forall>i < 256. phys_word m' (p + of_nat i) = Some (block_words d (linear_block d) ! i)"
    "\<forall>r x. (\<forall>i < 256. r \<noteq> p + of_nat i) \<longrightarrow> phys_word m r = Some x \<longrightarrow> phys_word m' r = Some x"
    using ram.write_words_ok [OF assms(4), of "block_words d (linear_block d)" p] ram_page_word(2) [OF assms(5)]
    by auto
  then show ?thesis
    using assms(1) disk_read_words [OF assms(1,3)] bno
    by (auto simp: read_transfer_def disk_read_block_def image_ok_def page_holds_def)
qed

definition put_block :: "disk \<Rightarrow> nat \<Rightarrow> u32 list \<Rightarrow> disk" where
  "put_block d n ws =
     d\<lparr>disk_mm := (\<lambda>k. if 256 * n \<le> k \<and> k < 256 * n + 256 then ws ! (k - 256 * n) else disk_mm d k)\<rparr>"

lemma block_words_put:
  assumes "length ws = 256"
  shows "block_words (put_block d n ws) k = (if k = n then ws else block_words d k)"
proof (cases "k = n")
  case True
  then show ?thesis
    using assms by (auto simp: block_words_def put_block_def intro: nth_equalityI)
next
  case False
  have "\<not> (256 * n \<le> 256 * k + j \<and> 256 * k + j < 256 * n + 256)" if "j < 256" for j
    using False that by (cases "k < n") auto
  with False show ?thesis by (auto simp: block_words_def put_block_def)
qed

lemma write_transfer_stores:
  assumes "image_ok d" and "address_ok d" and "block_in_image d (linear_block d)"
    and "ram_page p" and "page_holds m p ws" and "length ws = 256"
  shows "write_transfer p d m = Some (put_block d (linear_block d) ws, m)"
proof -
  have "linear_block d < 2 ^ 31" using assms(3) by (simp add: block_in_image_def)
  note bno = chs_block_no_linear [OF assms(2) this]
  have "read_words read_phy_mem p 256 m = Some (m, ws)"
    using ram.read_words_ok [of ws p m] ram_page_word(2) [OF assms(4)] assms(5,6)
    by (simp add: page_holds_def)
  then show ?thesis
    using assms(1,3) bno
    by (simp add: write_transfer_def disk_write_block_def disk_write_def image_ok_def
        image_index_block put_block_def)
qed

subsection \<open>The chain of channel command words\<close>

text \<open>
  \<open>ccw_chain m clp ps\<close>: from address \<open>clp\<close> on, memory holds command words for the pages
  \<open>ps\<close>, each but the last with its "more" bit set.
\<close>

primrec ccw_chain :: "mem \<Rightarrow> u32 \<Rightarrow> u32 list \<Rightarrow> bool" where
  "ccw_chain m clp [] = True"
| "ccw_chain m clp (p # ps) =
     (ram_addr clp \<and> ram_page p \<and>
      (\<exists>w. phys_word m clp = Some w \<and> w AND NOT 0xFF = p \<and> (w AND 1 = 0 \<longleftrightarrow> ps = [])) \<and>
      ccw_chain m (clp + 1) ps)"

definition page_words :: "u32 \<Rightarrow> u32 set" where
  "page_words p = (\<lambda>i. p + of_nat i) ` {..<256}"

definition chain_words :: "u32 \<Rightarrow> nat \<Rightarrow> u32 set" where
  "chain_words clp n = (\<lambda>j. clp + of_nat j) ` {..<n}"

definition keeps_words :: "u32 set \<Rightarrow> mem \<Rightarrow> mem \<Rightarrow> bool" where
  "keeps_words A m m' \<longleftrightarrow> (\<forall>r x. r \<notin> A \<longrightarrow> phys_word m r = Some x \<longrightarrow> phys_word m' r = Some x)"

lemma chain_words_Suc: "chain_words clp (Suc n) = insert clp (chain_words (clp + 1) n)"
proof -
  have "chain_words (clp + 1) n = (\<lambda>j. clp + of_nat j) ` (Suc ` {..<n})"
    by (simp add: chain_words_def image_image add.assoc)
  then show ?thesis
    by (simp add: chain_words_def lessThan_Suc_eq_insert_0)
qed

lemma ccw_chain_keep:
  "ccw_chain m clp ps \<Longrightarrow> keeps_words A m m' \<Longrightarrow> chain_words clp (length ps) \<inter> A = {} \<Longrightarrow>
   ccw_chain m' clp ps"
  by (induction ps arbitrary: clp) (auto simp: chain_words_Suc keeps_words_def)

lemma ccw_chain_pages: "ccw_chain m clp ps \<Longrightarrow> p \<in> set ps \<Longrightarrow> ram_page p"
  by (induction ps arbitrary: clp) auto

lemma pages_disjoint:
  assumes "ram_page p" and "ram_page p'" and "p \<noteq> p'"
  shows "page_words p \<inter> page_words p' = {}"
proof -
  have "p + of_nat i \<noteq> p' + of_nat j" if "i < 256" "j < 256" for i j
  proof
    assume "p + of_nat i = p' + of_nat j"
    then have eq: "unat p + i = unat p' + j"
      using ram_page_word(1) [OF assms(1) that(1)] ram_page_word(1) [OF assms(2) that(2)] by metis
    have "unat p mod 256 = 0" "unat p' mod 256 = 0"
      using assms by (simp_all add: ram_page_def)
    then have "unat p = 256 * (unat p div 256)" "unat p' = 256 * (unat p' div 256)" by auto
    with eq that have "unat p div 256 = unat p' div 256" by linarith
    then have "unat p = unat p'" using \<open>unat p mod 256 = 0\<close> \<open>unat p' mod 256 = 0\<close>
      by (metis div_mult_mod_eq)
    with assms(3) show False by (simp add: word_unat_eq_iff)
  qed
  then show ?thesis by (auto simp: page_words_def)
qed

lemma pages_apart:
  assumes "ccw_chain m clp (p # ps)" and "distinct (p # ps)"
  shows "page_words p \<inter> (\<Union>p' \<in> set ps. page_words p') = {}"
proof -
  have "page_words p \<inter> page_words p' = {}" if "p' \<in> set ps" for p'
    using assms that ccw_chain_pages [OF assms(1)] by (intro pages_disjoint) auto
  then show ?thesis by blast
qed

lemma keeps_words_trans:
  "keeps_words A m m1 \<Longrightarrow> keeps_words B m1 m2 \<Longrightarrow> keeps_words (A \<union> B) m m2"
  by (auto simp: keeps_words_def)

lemma page_holds_keep:
  "page_holds m p ws \<Longrightarrow> length ws = 256 \<Longrightarrow> keeps_words A m m' \<Longrightarrow> page_words p \<inter> A = {} \<Longrightarrow>
   page_holds m' p ws"
  by (auto simp: page_holds_def keeps_words_def page_words_def)

lemma incr_block_mm [simp]: "block_words (disk_incr_block d) = block_words d"
  by (simp add: fun_eq_iff block_words_def disk_incr_block_def Let_def)

lemma disk_regs [simp]:
  "linear_block (d\<lparr>disk_ma := a\<rparr>) = linear_block d" "linear_block (d\<lparr>disk_clp := a\<rparr>) = linear_block d"
  "address_ok (d\<lparr>disk_ma := a\<rparr>) = address_ok d" "address_ok (d\<lparr>disk_clp := a\<rparr>) = address_ok d"
  "image_ok (d\<lparr>disk_ma := a\<rparr>) = image_ok d" "image_ok (d\<lparr>disk_clp := a\<rparr>) = image_ok d"
  "block_in_image (d\<lparr>disk_ma := a\<rparr>) n = block_in_image d n"
  "block_in_image (d\<lparr>disk_clp := a\<rparr>) n = block_in_image d n"
  "block_words (d\<lparr>disk_ma := a\<rparr>) n = block_words d n" "block_words (d\<lparr>disk_clp := a\<rparr>) n = block_words d n"
  "same_disk (d\<lparr>disk_ma := a\<rparr>) = same_disk d" "same_disk d0 (d\<lparr>disk_clp := a\<rparr>) = same_disk d0 d"
  by (simp_all add: linear_block_def address_ok_def geometry_ok_def image_ok_def block_in_image_def
      block_words_def same_disk_def fun_eq_iff)

lemma same_disk_image:
  "same_disk d d' \<Longrightarrow> image_ok d' = image_ok d" "same_disk d d' \<Longrightarrow> block_in_image d' n = block_in_image d n"
  by (simp_all add: same_disk_def image_ok_def block_in_image_def)

lemma same_disk_trans: "same_disk d d1 \<Longrightarrow> same_disk d1 d2 \<Longrightarrow> same_disk d d2"
  by (simp add: same_disk_def)

subsection \<open>The interface of a block transfer\<close>

text \<open>
  Both loops over command words rely on the same contract: a transfer makes one page and
  the current block agree, whichever of the two is its source, and leaves every other word
  and block as it is. \<open>ready\<close> is what the page must satisfy before, \<open>origin\<close> the side the
  data comes from.
\<close>

locale ccw_transfer =
  fixes transfer :: "u32 \<Rightarrow> disk \<Rightarrow> mem \<Rightarrow> (disk \<times> mem) option"
    and ready :: "mem \<Rightarrow> u32 \<Rightarrow> bool" and origin :: "disk \<Rightarrow> mem \<Rightarrow> 'k"
  assumes transfer_ok: "image_ok d \<Longrightarrow> address_ok d \<Longrightarrow> block_in_image d (linear_block d) \<Longrightarrow> mem_inv m \<Longrightarrow>
      ram_page p \<Longrightarrow> ready m p \<Longrightarrow>
      \<exists>d' m'. transfer p d m = Some (d', m') \<and> mem_inv m' \<and> same_disk d d' \<and>
        linear_block d' = linear_block d \<and> address_ok d' \<and> disk_clp d' = disk_clp d \<and>
        page_holds m' p (block_words d' (linear_block d)) \<and>
        (\<forall>k. k \<noteq> linear_block d \<longrightarrow> block_words d' k = block_words d k) \<and>
        keeps_words (page_words p) m m' \<and> (\<forall>p'. ready m p' \<longrightarrow> ready m' p') \<and>
        origin d' m' = origin d m"
    and origin_regs: "origin (d\<lparr>disk_ma := a\<rparr>) m = origin d m" "origin (disk_incr_block d) m = origin d m"
      "origin (d\<lparr>disk_clp := a\<rparr>) m = origin d m"
begin

lemma ccw_loop_ok:
  assumes "image_ok d" and "address_ok d" and "mem_inv m" and "ps \<noteq> []" and "length ps \<le> n"
    and "ccw_chain m (disk_clp d) ps" and "distinct ps"
    and "chain_words (disk_clp d) (length ps) \<inter> (\<Union>p \<in> set ps. page_words p) = {}"
    and "\<forall>k. linear_block d \<le> k \<and> k < linear_block d + length ps \<longrightarrow> block_in_image d k"
    and "\<forall>p \<in> set ps. ready m p"
  shows "\<exists>d' m'. ccw_loop transfer n d m = Some (d', m', True) \<and> mem_inv m' \<and> same_disk d d' \<and> address_ok d' \<and>
    Suc (linear_block d') = linear_block d + length ps \<and> disk_clp d' = disk_clp d + of_nat (length ps - 1) \<and>
    (\<forall>j < length ps. page_holds m' (ps ! j) (block_words d' (linear_block d + j))) \<and>
    (\<forall>k. k < linear_block d \<or> linear_block d + length ps \<le> k \<longrightarrow> block_words d' k = block_words d k) \<and>
    keeps_words (\<Union>p \<in> set ps. page_words p) m m' \<and> origin d' m' = origin d m"
  using assms
proof (induction ps arbitrary: n d m)
  case Nil
  then show ?case by simp
next
  case (Cons p ps)
  obtain n' where n: "n = Suc n'" using Cons.prems(5) by (cases n) auto
  from Cons.prems(6) obtain w where clp: "ram_addr (disk_clp d)" "ram_page p" "phys_word m (disk_clp d) = Some w"
    and w: "w AND NOT 0xFF = p" "w AND 1 = 0 \<longleftrightarrow> ps = []" and rest: "ccw_chain m (disk_clp d + 1) ps"
    by auto
  have rd: "read_phy_mem (disk_clp d) m = Some (m, Some w)" using ram.rd_ok [OF clp(1,3)] .
  have now: "block_in_image d (linear_block d)" using Cons.prems(9) by simp
  obtain d2 m2 where tr: "transfer p (d\<lparr>disk_ma := p\<rparr>) m = Some (d2, m2)" and m2: "mem_inv m2"
    and d2: "same_disk d d2" "linear_block d2 = linear_block d" "address_ok d2" "disk_clp d2 = disk_clp d"
    and held: "page_holds m2 p (block_words d2 (linear_block d))"
    and others: "\<forall>k. k \<noteq> linear_block d \<longrightarrow> block_words d2 k = block_words d k"
    and kept: "keeps_words (page_words p) m m2" and ready: "\<forall>p'. ready m p' \<longrightarrow> ready m2 p'"
    and org: "origin d2 m2 = origin d m"
    using transfer_ok [of "d\<lparr>disk_ma := p\<rparr>" m p] Cons.prems(1-3,10) clp(2) now
    by (auto simp: origin_regs)
  show ?case
  proof (cases "ps = []")
    case True
    then have "ccw_loop transfer n d m = Some (d2, m2, True)"
      using rd tr w by (simp add: n)
    then show ?thesis
      using True m2 d2 held others kept org by auto
  next
    case False
    define d4 where "d4 = (disk_incr_block d2)\<lparr>disk_clp := disk_clp d2 + 1\<rparr>"
    have lin: "linear_block d2 < 2 ^ 31" using now d2 by (simp add: block_in_image_def)
    note inc = incr_block_linear [OF d2(3) lin]
    have d4: "same_disk d d4" "linear_block d4 = Suc (linear_block d)" "address_ok d4"
      "disk_clp d4 = disk_clp d + 1" "block_words d4 = block_words d2" "origin d4 m2 = origin d m"
      using inc d2 same_disk_trans [OF d2(1) inc(3)] org
      by (simp_all add: d4_def fun_eq_iff origin_regs)
    have step: "ccw_loop transfer n d m = ccw_loop transfer n' d4 m2"
      using rd tr w False inc(4) by (simp add: n d4_def)
    have dis: "chain_words (disk_clp d + 1) (length ps) \<inter> (\<Union>p \<in> set ps. page_words p) = {}"
      "chain_words (disk_clp d + 1) (length ps) \<inter> page_words p = {}"
      using Cons.prems(8) by (auto simp: chain_words_Suc)
    have "ccw_chain m2 (disk_clp d4) ps"
      using ccw_chain_keep [OF rest kept dis(2)] d4(4) by simp
    moreover have "\<forall>k. linear_block d4 \<le> k \<and> k < linear_block d4 + length ps \<longrightarrow> block_in_image d4 k"
      using Cons.prems(9) d4(2) same_disk_image(2) [OF d4(1)] by simp
    moreover have "image_ok d4" using Cons.prems(1) same_disk_image(1) [OF d4(1)] by simp
    ultimately obtain d' m' where IH: "ccw_loop transfer n' d4 m2 = Some (d', m', True)" "mem_inv m'"
      "same_disk d4 d'" "address_ok d'" "Suc (linear_block d') = linear_block d4 + length ps"
      "disk_clp d' = disk_clp d4 + of_nat (length ps - 1)"
      "\<forall>j < length ps. page_holds m' (ps ! j) (block_words d' (linear_block d4 + j))"
      "\<forall>k. k < linear_block d4 \<or> linear_block d4 + length ps \<le> k \<longrightarrow> block_words d' k = block_words d4 k"
      "keeps_words (\<Union>p \<in> set ps. page_words p) m2 m'" "origin d' m' = origin d4 m2"
      using Cons.IH [of d4 m2 n'] Cons.prems(5,7,10) d4 m2 False dis(1) n ready by auto
    note pages_apart [OF Cons.prems(6,7)]
    then have "page_holds m' p (block_words d' (linear_block d))"
      using page_holds_keep [OF held _ IH(9)] IH(8) d4 by simp
    then have pages: "\<forall>j < length (p # ps). page_holds m' ((p # ps) ! j) (block_words d' (linear_block d + j))"
      using IH(7) d4(2) by (auto simp: less_Suc_eq_0_disj)
    have "of_nat (length ps) = (1 :: u32) + of_nat (length ps - 1)"
      using False by (cases ps) simp_all
    then have clp': "disk_clp d' = disk_clp d + of_nat (length (p # ps) - 1)"
      using IH(6) d4(4) by (simp add: add.assoc)
    have "keeps_words (\<Union>p \<in> set (p # ps). page_words p) m m'"
      using keeps_words_trans [OF kept IH(9)] by simp
    then show ?thesis
      using step IH pages clp' d4 others same_disk_trans [OF d4(1) IH(3)] by auto
  qed
qed

end

definition page_present :: "mem \<Rightarrow> u32 \<Rightarrow> bool" where
  "page_present m p \<longleftrightarrow> (\<forall>i < 256. phys_word m (p + of_nat i) \<noteq> None)"

lemma page_present_holds:
  "page_present m p \<Longrightarrow> \<exists>ws. length ws = 256 \<and> page_holds m p ws"
  by (intro exI [of _ "map (\<lambda>i. the (phys_word m (p + of_nat i))) [0..<256]"])
    (simp add: page_present_def page_holds_def)

lemma put_block_frame:
  "same_disk d (put_block d n ws)" "linear_block (put_block d n ws) = linear_block d"
  "address_ok (put_block d n ws) = address_ok d" "disk_clp (put_block d n ws) = disk_clp d"
  by (simp_all add: same_disk_def put_block_def linear_block_def address_ok_def geometry_ok_def)

interpretation reading: ccw_transfer read_transfer "\<lambda>m p. True" "\<lambda>d m. disk_mm d"
proof
  fix d m p
  assume pre: "image_ok d" "address_ok d" "block_in_image d (linear_block d)" "mem_inv m" "ram_page p"
  show "\<exists>d' m'. read_transfer p d m = Some (d', m') \<and> mem_inv m' \<and> same_disk d d' \<and>
        linear_block d' = linear_block d \<and> address_ok d' \<and> disk_clp d' = disk_clp d \<and>
        page_holds m' p (block_words d' (linear_block d)) \<and>
        (\<forall>k. k \<noteq> linear_block d \<longrightarrow> block_words d' k = block_words d k) \<and>
        keeps_words (page_words p) m m' \<and> (\<forall>p'. True \<longrightarrow> True) \<and> disk_mm d' = disk_mm d"
    using read_transfer_loads [OF pre] pre(2)
    by (fastforce simp: same_disk_def keeps_words_def page_words_def)
qed (simp_all add: disk_incr_block_def Let_def)

interpretation writing: ccw_transfer write_transfer page_present "\<lambda>d m. m"
proof
  fix d m p
  assume pre: "image_ok d" "address_ok d" "block_in_image d (linear_block d)" "mem_inv m" "ram_page p"
    and "page_present m p"
  then obtain ws where ws: "page_holds m p ws" "length ws = 256" using page_present_holds by blast
  show "\<exists>d' m'. write_transfer p d m = Some (d', m') \<and> mem_inv m' \<and> same_disk d d' \<and>
        linear_block d' = linear_block d \<and> address_ok d' \<and> disk_clp d' = disk_clp d \<and>
        page_holds m' p (block_words d' (linear_block d)) \<and>
        (\<forall>k. k \<noteq> linear_block d \<longrightarrow> block_words d' k = block_words d k) \<and>
        keeps_words (page_words p) m m' \<and> (\<forall>p'. page_present m p' \<longrightarrow> page_present m' p') \<and> m' = m"
    using write_transfer_stores [OF pre(1-3,5) ws] pre(2,4) ws
    by (auto simp: put_block_frame block_words_put keeps_words_def)
qed simp_all

subsection \<open>The read and write commands\<close>

text \<open>
  What a transfer over the pages \<open>ps\<close> needs: an open image in host byte order, an address
  inside the geometry, all blocks inside the image, a chain of at most 65535 command words
  for distinct RAM pages, none of whose words lies in one of the pages.
\<close>

definition chain_ready :: "disk \<Rightarrow> mem \<Rightarrow> u32 list \<Rightarrow> bool" where
  "chain_ready d m ps \<longleftrightarrow> image_ok d \<and> address_ok d \<and> mem_inv m \<and> ps \<noteq> [] \<and> length ps \<le> 65535 \<and>
     ccw_chain m (disk_clp d) ps \<and> distinct ps \<and>
     chain_words (disk_clp d) (length ps) \<inter> (\<Union>p \<in> set ps. page_words p) = {} \<and>
     (\<forall>k. linear_block d \<le> k \<and> k < linear_block d + length ps \<longrightarrow> block_in_image d k)"

lemma decode_regs:
  "disk_clp (disk_decode_addr d) = disk_clp d" "disk_mm (disk_decode_addr d) = disk_mm d"
  "block_words (disk_decode_addr d) = block_words d"
  "disk_cmd (disk_decode_addr d) = disk_cmd d"
  "disk_interrupt_delay (disk_decode_addr d) = disk_interrupt_delay d"
  by (simp_all add: disk_decode_addr_def block_words_def fun_eq_iff)

lemma ccw_finish_regs:
  "snd (ccw_finish (d, m, c)) = m" "disk_mm (fst (ccw_finish (d, m, c))) = disk_mm d"
  "block_words (fst (ccw_finish (d, m, c))) = block_words d"
  "disk_clp (fst (ccw_finish (d, m, c))) = disk_clp d"
  "disk_interrupt_delay (fst (ccw_finish (d, m, True))) =
     (if disk_cmd d AND 0x800 \<noteq> 0 then 2500 else disk_interrupt_delay d)"
  by (simp_all add: ccw_finish_def Let_def disk_undecode_addr_def disk_future_interrupt_def
      block_words_def fun_eq_iff)

text \<open>
  The read command walks the whole chain: page \<open>j\<close> receives block \<open>j\<close> after the block
  addressed, blocks counted across tracks and cylinders; every memory word outside the
  pages and the image itself stay as they were; the command list pointer is left at the last
  command word, and the interrupt is scheduled if the command asks for one.
\<close>

theorem disk_read_fills_pages:
  assumes "chain_ready (disk_decode_addr d) m ps"
  shows "\<exists>d' m'. disk_start_read d m = Some (d', m') \<and> mem_inv m' \<and> disk_mm d' = disk_mm d \<and>
    (\<forall>j < length ps. page_holds m' (ps ! j) (block_words d (linear_block (disk_decode_addr d) + j))) \<and>
    keeps_words (\<Union>p \<in> set ps. page_words p) m m' \<and>
    disk_clp d' = disk_clp d + of_nat (length ps - 1) \<and>
    disk_interrupt_delay d' = (if disk_cmd d AND 0x800 \<noteq> 0 then 2500 else disk_interrupt_delay d)"
proof -
  let ?d = "disk_decode_addr d"
  obtain d1 m1 where r: "ccw_loop read_transfer 65535 ?d m = Some (d1, m1, True)" "mem_inv m1" "same_disk ?d d1"
    "disk_clp d1 = disk_clp d + of_nat (length ps - 1)"
    "\<forall>j < length ps. page_holds m1 (ps ! j) (block_words d1 (linear_block ?d + j))"
    "keeps_words (\<Union>p \<in> set ps. page_words p) m m1" "disk_mm d1 = disk_mm d"
    using reading.ccw_loop_ok [of ?d m ps 65535] assms by (auto simp: chain_ready_def decode_regs)
  have "block_words d1 = block_words d" using r(7) by (simp add: block_words_def fun_eq_iff)
  moreover have "disk_cmd d1 = disk_cmd d" "disk_interrupt_delay d1 = disk_interrupt_delay d"
    using r(3) by (simp_all add: same_disk_def decode_regs)
  moreover have "disk_start_read d m = Some (fst (ccw_finish (d1, m1, True)), m1)"
    using r(1) by (simp add: disk_start_read_def prod_eq_iff ccw_finish_regs)
  ultimately show ?thesis using r(2,4-7) by (simp add: ccw_finish_regs)
qed

text \<open>
  C2. The write command: block \<open>j\<close> after the block addressed receives page \<open>j\<close> of the chain;
  all other blocks and all of memory stay as they were.
\<close>

theorem disk_write_stores_pages:
  assumes "chain_ready (disk_decode_addr d) m ps" and "\<forall>p \<in> set ps. page_present m p"
  shows "\<exists>d'. disk_start_write d m = Some (d', m) \<and>
    (\<forall>j < length ps. page_holds m (ps ! j) (block_words d' (linear_block (disk_decode_addr d) + j))) \<and>
    (\<forall>k. k < linear_block (disk_decode_addr d) \<or> linear_block (disk_decode_addr d) + length ps \<le> k \<longrightarrow>
       block_words d' k = block_words d k) \<and>
    disk_clp d' = disk_clp d + of_nat (length ps - 1)"
proof -
  let ?d = "disk_decode_addr d"
  obtain d1 where r: "ccw_loop write_transfer 65535 ?d m = Some (d1, m, True)"
    "disk_clp d1 = disk_clp d + of_nat (length ps - 1)"
    "\<forall>j < length ps. page_holds m (ps ! j) (block_words d1 (linear_block ?d + j))"
    "\<forall>k. k < linear_block ?d \<or> linear_block ?d + length ps \<le> k \<longrightarrow> block_words d1 k = block_words d k"
    using writing.ccw_loop_ok [of ?d m ps 65535] assms by (auto simp: chain_ready_def decode_regs)
  have "disk_start_write d m = Some (fst (ccw_finish (d1, m, True)), m)"
    using r(1) by (simp add: disk_start_write_def prod_eq_iff ccw_finish_regs)
  then show ?thesis using r(2-4) by (simp add: ccw_finish_regs)
qed

text \<open>A small disk and memory on which both commands apply: one command word, at address 0.\<close>

definition small_disk :: disk where
  "small_disk = \<lparr>disk_fd = 3, disk_mm = of_nat, disk_mm_words = 4096, disk_status = 1, disk_cmd = 0x800,
     disk_clp = 0, disk_ma = 0, disk_ecc = 0, disk_da = 0x101, disk_byteswap = 0, cyls = 2, heads = 2,
     blocks_per_track = 4, cur_unit = 0, cur_cyl = 0, cur_head = 0, cur_block = 0, disk_interrupt_delay = 0\<rparr>"

definition small_mem :: mem where
  "small_mem = (mem_start (\<lambda>a i. if a = 0 \<and> i = 0 then 0x100 else 7))\<lparr>
     phy_pages := (\<lambda>i. if i < 2 then Some i else None), heap_brk := 2\<rparr>"

lemma small_mem_inv: "mem_inv small_mem"
  by (auto simp: small_mem_def mem_start_def mem_inv_def block_ok_def pages_distinct_def
      pages_below_def next_free_def l1_ok_def split: if_splits)

lemma small_page: "ram_page 0x100"
  by (simp add: ram_page_def ram_addr_def)

lemma small_linear: "linear_block (disk_decode_addr small_disk) = 5"
  by (simp add: linear_block_def disk_decode_addr_def small_disk_def signed_drop_bit_small)

lemma small_chain_ready: "chain_ready (disk_decode_addr small_disk) small_mem [0x100]"
proof -
  have clp: "disk_clp (disk_decode_addr small_disk) = 0" by (simp add: decode_regs small_disk_def)
  have "chain_words 0 (Suc 0) \<inter> page_words 0x100 = {}"
    using ram_page_word(1) [OF small_page] by (auto simp: page_words_def chain_words_def word_unat_eq_iff)
  moreover have "image_ok (disk_decode_addr small_disk)" "address_ok (disk_decode_addr small_disk)"
    by (simp_all add: disk_decode_addr_def small_disk_def image_ok_def address_ok_def geometry_ok_def
        signed_drop_bit_small)
  moreover have "ccw_chain small_mem 0 [0x100]"
    using small_page by (simp add: ram_addr_def phys_word_def small_mem_def mem_start_def)
  moreover have "block_in_image (disk_decode_addr small_disk) k" if "5 \<le> k" "k < Suc 5" for k
    using that by (simp add: block_in_image_def disk_decode_addr_def small_disk_def)
  ultimately show ?thesis
    unfolding chain_ready_def small_linear clp by (simp add: small_mem_inv)
qed

lemma disk_read_fills_pages_witness:
  "\<exists>d' m'. disk_start_read small_disk small_mem = Some (d', m') \<and> page_holds m' 0x100 (block_words small_disk 5) \<and>
     disk_interrupt_delay d' = 2500"
  using disk_read_fills_pages [OF small_chain_ready] by (auto simp: small_linear) (auto simp: small_disk_def)

lemma disk_write_stores_pages_witness:
  "\<exists>d'. disk_start_write small_disk small_mem = Some (d', small_mem) \<and> page_holds small_mem 0x100 (block_words d' 5)"
proof -
  have "\<forall>p \<in> set [0x100]. page_present small_mem p"
    using ram_page_word(1) [OF small_page]
    by (auto simp: page_present_def phys_word_def small_mem_def mem_start_def)
  then show ?thesis
    using disk_write_stores_pages [OF small_chain_ready] by (auto simp: small_linear)
qed

subsection \<open>Disk address register and completion interrupt\<close>

lemma or_bits_disk_address:
  "push_bit 28 (signed_drop_bit 28 w AND 7) OR push_bit 16 (signed_drop_bit 16 w AND 0xFFF)
     OR push_bit 8 (signed_drop_bit 8 w AND 0xFF) OR (w AND 0xFF) = w AND (0x7FFFFFFF :: u32)"
proof -
  have masks: "(7 :: u32) = mask 3" "(0xFFF :: u32) = mask 12" "(0xFF :: u32) = mask 8" "(0x7FFFFFFF :: u32) = mask 31"
    by (simp_all add: mask_eq_exp_minus_1)
  show ?thesis
    unfolding masks
  proof (rule bit_word_eqI)
    fix n :: nat
    assume "n < LENGTH(32)"
    then consider "n < 8" | "8 \<le> n" "n < 16" | "16 \<le> n" "n < 28" | "28 \<le> n" "n < 31" | "n = 31"
      by fastforce
    then show "bit (push_bit 28 (signed_drop_bit 28 w AND mask 3) OR push_bit 16 (signed_drop_bit 16 w AND mask 12)
       OR push_bit 8 (signed_drop_bit 8 w AND mask 8) OR (w AND mask 8)) n = bit (w AND mask 31) n"
      by cases (auto simp: bit_or_iff bit_and_iff bit_push_bit_iff bit_mask_iff bit_signed_drop_bit_iff)
  qed
qed

lemma and_disk_fields:
  fixes u c h b :: u32
  defines "w \<equiv> push_bit 28 (u AND 7) OR push_bit 16 (c AND 0xFFF) OR push_bit 8 (h AND 0xFF) OR (b AND 0xFF)"
  shows "signed_drop_bit 28 w AND 7 = u AND 7" "signed_drop_bit 16 w AND 0xFFF = c AND 0xFFF"
    "signed_drop_bit 8 w AND 0xFF = h AND 0xFF" "w AND 0xFF = b AND 0xFF"
proof -
  have masks: "(7 :: u32) = mask 3" "(0xFFF :: u32) = mask 12" "(0xFF :: u32) = mask 8"
    by (simp_all add: mask_eq_exp_minus_1)
  note bits = bit_or_iff bit_and_iff bit_push_bit_iff bit_mask_iff bit_signed_drop_bit_iff
  show "signed_drop_bit 28 w AND 7 = u AND 7" "signed_drop_bit 16 w AND 0xFFF = c AND 0xFFF"
    "signed_drop_bit 8 w AND 0xFF = h AND 0xFF" "w AND 0xFF = b AND 0xFF"
    unfolding w_def masks by (rule bit_word_eqI, auto simp: bits)+
qed

text \<open>
  The disk address register: decoding and encoding it again keeps all its bits but bit 31,
  and decoding what was encoded gives back the unit, cylinder, head and block within their
  fields.
\<close>

theorem disk_address_register:
  "disk_da (disk_undecode_addr (disk_decode_addr d)) = disk_da d AND 0x7FFFFFFF \<and>
   disk_decode_addr (disk_undecode_addr d) = (disk_undecode_addr d)
     \<lparr>cur_unit := cur_unit d AND 7, cur_cyl := cur_cyl d AND 0xFFF,
      cur_head := cur_head d AND 0xFF, cur_block := cur_block d AND 0xFF\<rparr>"
proof
  show "disk_da (disk_undecode_addr (disk_decode_addr d)) = disk_da d AND 0x7FFFFFFF"
    using or_bits_disk_address [of "disk_da d"]
    by (simp add: disk_undecode_addr_def disk_decode_addr_def and.assoc)
  show "disk_decode_addr (disk_undecode_addr d) = (disk_undecode_addr d)
     \<lparr>cur_unit := cur_unit d AND 7, cur_cyl := cur_cyl d AND 0xFFF,
      cur_head := cur_head d AND 0xFF, cur_block := cur_block d AND 0xFF\<rparr>"
    using and_disk_fields [of "cur_unit d" "cur_cyl d" "cur_head d" "cur_block d"]
    unfolding disk_decode_addr_def by (simp add: disk_undecode_addr_def)
qed

definition disk_polls :: "nat \<Rightarrow> disk \<times> intr \<Rightarrow> disk \<times> intr" where
  "disk_polls n = (\<lambda>ds. disk_poll (fst ds) (snd ds)) ^^ n"

lemma disk_polls_waiting:
  "n < 2500 \<Longrightarrow> disk_polls n (disk_future_interrupt d, s) = (d\<lparr>disk_interrupt_delay := of_nat (2500 - n)\<rparr>, s)"
proof (induction n)
  case 0
  then show ?case by (simp add: disk_polls_def disk_future_interrupt_def)
next
  case (Suc n)
  have "2500 - n = Suc (2500 - Suc n)" using Suc.prems by simp
  then have dec: "(of_nat (2500 - n) :: u32) - 1 = of_nat (2500 - Suc n)" by simp
  have "(of_nat (2500 - n) :: u32) \<noteq> 0" "(of_nat (2500 - Suc n) :: u32) \<noteq> 0"
    using Suc.prems by (intro of_nat_word_neq_0; simp)+
  then show ?case
    using Suc dec by (simp add: disk_polls_def disk_poll_def Let_def)
qed

lemma disk_polls_Suc:
  "disk_polls (Suc n) ds = disk_poll (fst (disk_polls n ds)) (snd (disk_polls n ds))"
  by (simp add: disk_polls_def)

lemma disk_polls_done:
  "disk_polls (2500 + k) (disk_future_interrupt d, s) = disk_throw_interrupt (d\<lparr>disk_interrupt_delay := 0\<rparr>) s"
proof (induction k)
  case 0
  have "disk_polls (Suc 2499) (disk_future_interrupt d, s) = disk_throw_interrupt (d\<lparr>disk_interrupt_delay := 0\<rparr>) s"
    using disk_polls_waiting [of 2499 d s] by (simp only: disk_polls_Suc) (simp add: disk_poll_def)
  then show ?case by simp
next
  case (Suc k)
  have "2500 + Suc k = Suc (2500 + k)" by simp
  then show ?case
    by (simp only: disk_polls_Suc Suc.IH) (simp add: disk_poll_def disk_throw_interrupt_def)
qed

text \<open>
  The completion interrupt of the disk comes exactly 2500 polls after the command: until
  then the interrupt state is untouched, then the Xbus interrupt is raised, once.
\<close>

theorem disk_interrupt_after_delay:
  "snd (disk_polls n (disk_future_interrupt d, s)) = (if n < 2500 then s else assert_xbus_interrupt s)"
proof (cases "n < 2500")
  case True
  then show ?thesis by (simp add: disk_polls_waiting)
next
  case False
  then have "n = 2500 + (n - 2500)" by simp
  with disk_polls_done [of "n - 2500" d s] False show ?thesis
    by (simp add: disk_throw_interrupt_def)
qed

subsection \<open>The controller keeps the invariants of memory and interrupts\<close>

lemma write_at_inv: "write_at p xs m = Some m' \<Longrightarrow> mem_inv m \<Longrightarrow> mem_inv m'"
  by (induction xs arbitrary: m) (auto dest!: write_phy_mem_inv split: bind_splits)

lemma read_transfer_inv: "read_transfer p d m = Some (d', m') \<Longrightarrow> mem_inv m \<Longrightarrow> mem_inv m'"
  by (auto simp: read_transfer_def disk_read_block_def dest!: write_words_inv write_at_inv
      split: bind_splits if_splits)

lemma write_transfer_inv: "write_transfer p d m = Some (d', m') \<Longrightarrow> mem_inv m \<Longrightarrow> mem_inv m'"
  by (auto simp: write_transfer_def disk_write_block_def dest!: read_words_inv split: bind_splits if_splits)

text \<open>What every read of memory and every transfer keeps, the loop keeps.\<close>

lemma ccw_loop_keeps:
  assumes "\<And>p m m' r. read_phy_mem p m = Some (m', r) \<Longrightarrow> P m \<Longrightarrow> P m'"
    and "\<And>p d m d' m'. transfer p d m = Some (d', m') \<Longrightarrow> P m \<Longrightarrow> P m'"
    and "ccw_loop transfer n d m = Some (d', m', b)" and "P m"
  shows "P m'"
  using assms(3,4)
proof (induction n arbitrary: d m)
  case (Suc n)
  from Suc.prems(1) obtain m1 f where rd: "read_phy_mem (disk_clp d) m = Some (m1, f)"
    by (auto split: bind_splits)
  have m1: "P m1" by (rule assms(1) [OF rd Suc.prems(2)])
  show ?case
  proof (cases f)
    case None
    then show ?thesis using Suc.prems(1) rd m1 by simp
  next
    case (Some ccw)
    with Suc.prems(1) rd obtain d2 m2 where tr: "transfer (ccw AND NOT 0xFF) (d\<lparr>disk_ma := ccw AND NOT 0xFF\<rparr>) m1 = Some (d2, m2)"
      by (auto simp: Let_def split: bind_splits)
    then have "P m2" using assms(2) m1 by blast
    then show ?thesis using Suc Some rd tr by (auto simp: Let_def split: if_splits)
  qed
qed simp

lemma ccw_loops_inv:
  "ccw_loop read_transfer n d m = Some (d', m', b) \<Longrightarrow> mem_inv m \<Longrightarrow> mem_inv m'"
  "ccw_loop write_transfer n d m = Some (d', m', b) \<Longrightarrow> mem_inv m \<Longrightarrow> mem_inv m'"
  by (rule ccw_loop_keeps [of mem_inv read_transfer]; (assumption | erule (1) read_phy_mem_inv read_transfer_inv))
    (rule ccw_loop_keeps [of mem_inv write_transfer]; (assumption | erule (1) read_phy_mem_inv write_transfer_inv))

lemma disk_start_read_inv: "disk_start_read d m = Some (d', m') \<Longrightarrow> mem_inv m \<Longrightarrow> mem_inv m'"
  by (auto simp: disk_start_read_def ccw_finish_def Let_def dest!: ccw_loops_inv
      split: if_splits bind_splits prod.splits)

lemma disk_start_write_inv: "disk_start_write d m = Some (d', m') \<Longrightarrow> mem_inv m \<Longrightarrow> mem_inv m'"
  by (auto simp: disk_start_write_def ccw_finish_def Let_def dest!: ccw_loops_inv
      split: if_splits bind_splits prod.splits)

lemma disk_start_inv: "disk_start d m = Some (d', m', r) \<Longrightarrow> mem_inv m \<Longrightarrow> mem_inv m'"
  by (auto simp: disk_start_def Let_def dest!: disk_start_read_inv disk_start_write_inv
      split: if_splits bind_splits prod.splits)

lemma disk_xbus_write_inv:
  assumes "disk_xbus_write off v d m i = Some (d', m', i')" and "mem_inv m" and "intr_inv i"
  shows "mem_inv m' \<and> intr_inv i'"
  using assms by (auto simp: disk_xbus_write_def intr_ops_inv dest!: disk_start_inv split: if_splits bind_splits)

lemma disk_poll_inv: "disk_poll d i = (d', i') \<Longrightarrow> intr_inv i \<Longrightarrow> intr_inv i'"
  by (auto simp: disk_poll_def disk_throw_interrupt_def Let_def intr_ops_inv split: if_splits)

end
