(* ===== verification/Usim_Tv.thy ===== *)
theory Usim_Tv
  imports Usim_Interrupt Usim_Memory
begin

section \<open>The frame buffer and its window (tv.c, x11.c)\<close>

text \<open>
  The bitmap holds one 32-bit pixel per screen bit; the processor reads and writes it 32
  pixels at a time. \<open>u_minh\<close>, \<open>u_maxh\<close>, \<open>u_minv\<close>, \<open>u_maxv\<close> are the rectangle of \<open>x11.c\<close> that
  collects what has changed since the window was last updated.
\<close>

record tv =
  tv_bitmap :: "u32 arr"
  tv_csr :: u32
  u_minh :: u32
  u_maxh :: u32
  u_minv :: u32
  u_maxv :: u32

definition tv_width :: u32 where
  "tv_width = 768"

definition tv_height :: u32 where
  "tv_height = 897"

definition Black :: u32 where
  "Black = 0"

definition White :: u32 where
  "White = 0xFFFFFF"

definition tv_xbus_read :: "u32 \<Rightarrow> tv \<Rightarrow> u32" where
  "tv_xbus_read offset t = tv_csr t"

definition tv_xbus_write :: "u32 \<Rightarrow> u32 \<Rightarrow> tv \<Rightarrow> intr \<Rightarrow> tv \<times> intr" where
  "tv_xbus_write offset v t s = (t\<lparr>tv_csr := v AND NOT 0x10\<rparr>, deassert_xbus_interrupt s)"

definition tv_post_60hz_interrupt :: "tv \<Rightarrow> intr \<Rightarrow> tv \<times> intr" where
  "tv_post_60hz_interrupt t s = (t\<lparr>tv_csr := tv_csr t OR 0x10\<rparr>, assert_xbus_interrupt s)"

definition accumulate_update :: "u32 \<Rightarrow> u32 \<Rightarrow> u32 \<Rightarrow> u32 \<Rightarrow> tv \<Rightarrow> tv option" where
  "accumulate_update h v hs vs t0 = do {
     let t1 = (if sint h < sint (u_minh t0) then t0\<lparr>u_minh := h\<rparr> else t0);
     right \<leftarrow> c_add h hs;
     let t2 = (if sint right > sint (u_maxh t1) then t1\<lparr>u_maxh := right\<rparr> else t1);
     let t3 = (if sint v < sint (u_minv t2) then t2\<lparr>u_minv := v\<rparr> else t2);
     bottom \<leftarrow> c_add v vs;
     Some (if sint bottom > sint (u_maxv t3) then t3\<lparr>u_maxv := bottom\<rparr> else t3)
   }"

text \<open>
  The second result is the rectangle (left, top, width, height) given to \<open>XPutImage\<close>, if
  there is an image and something has changed.
\<close>

definition send_accumulated_updates :: "bool \<Rightarrow> tv \<Rightarrow> tv \<times> (u32 \<times> u32 \<times> u32 \<times> u32) option" where
  "send_accumulated_updates ximage t =
    (let hs = u_maxh t - u_minh t; vs = u_maxv t - u_minv t in
     (t\<lparr>u_minh := 0x7FFFFFFF, u_maxh := 0, u_minv := 0x7FFFFFFF, u_maxv := 0\<rparr>,
      if u_minh t \<noteq> 0x7FFFFFFF \<and> u_minv t \<noteq> 0x7FFFFFFF \<and> u_maxh t \<noteq> 0 \<and> u_maxv t \<noteq> 0 \<and> ximage
      then Some (u_minh t, u_minv t, hs, vs) else None))"

text \<open>The store loop of \<open>tv_write\<close>: \<open>n\<close> pixels from \<open>pos\<close> on, the low bit first.\<close>

primrec tv_put_bits :: "nat \<Rightarrow> u32 \<Rightarrow> u32 \<Rightarrow> u32 arr \<Rightarrow> u32 arr option" where
  "tv_put_bits 0 pos bits bitmap = Some bitmap"
| "tv_put_bits (Suc n) pos bits bitmap = do {
     bitmap1 \<leftarrow> st (768 * 1024) bitmap (unat pos) (if bits AND 1 \<noteq> 0 then Black else White);
     tv_put_bits n (pos + 1) (drop_bit 1 bits) bitmap1
   }"

definition tv_write :: "u32 \<Rightarrow> u32 \<Rightarrow> tv \<Rightarrow> tv option" where
  "tv_write offset0 bits t = do {
     offset \<leftarrow> c_mul offset0 32;
     let v = offset div tv_width;
     let h = offset mod tv_width;
     bitmap \<leftarrow> tv_put_bits 32 offset bits (tv_bitmap t);
     accumulate_update h v 32 1 (t\<lparr>tv_bitmap := bitmap\<rparr>)
   }"

text \<open>The collecting loop of \<open>tv_read\<close>: bit \<open>i\<close> and up, \<open>n\<close> of them.\<close>

primrec tv_get_bits :: "nat \<Rightarrow> nat \<Rightarrow> u32 \<Rightarrow> u32 arr \<Rightarrow> u64 \<Rightarrow> u64 option" where
  "tv_get_bits 0 i offset bitmap bits = Some bits"
| "tv_get_bits (Suc n) i offset bitmap bits = do {
     pixel \<leftarrow> ld (768 * 1024) bitmap (unat (offset + of_nat i));
     tv_get_bits n (Suc i) offset bitmap (if pixel = Black then bits OR push_bit i 1 else bits)
   }"

definition tv_read :: "u32 \<Rightarrow> tv \<Rightarrow> u32 option" where
  "tv_read offset0 t = do {
     offset \<leftarrow> c_mul offset0 32;
     if offset > tv_width * tv_height then Some 0
     else do {
       bits \<leftarrow> tv_get_bits 32 0 offset (tv_bitmap t) 0;
       Some (ucast bits)
     }
   }"

subsection \<open>What the two loops compute\<close>

lemma unat_add_of_nat:
  "unat (w :: u32) + n < 2 ^ 31 \<Longrightarrow> unat (w + of_nat n) = unat w + n"
  by (simp add: unat_word_ariths unat_of_nat_small)

lemma tv_put_bits_in:
  "unat pos + n \<le> 786432 \<Longrightarrow> tv_put_bits n pos bits bm =
     Some (\<lambda>k. if unat pos \<le> k \<and> k < unat pos + n
               then (if bit bits (k - unat pos) then Black else White) else bm k)"
proof (induction n arbitrary: pos bits bm)
  case 0
  then show ?case by (auto simp: fun_eq_iff)
next
  case (Suc n)
  have pos1: "unat (pos + 1) = Suc (unat pos)"
    using unat_add_of_nat [of pos 1] Suc.prems by simp
  have low: "bits AND 1 \<noteq> 0 \<longleftrightarrow> bit bits 0"
    using and_exp_eq_0_iff_not_bit [of bits 0] by simp
  have sub: "k - unat pos = Suc (k - Suc (unat pos))" if "Suc (unat pos) \<le> k" for k
    using that by simp
  show ?case
    using Suc.prems Suc.IH [of "pos + 1" "drop_bit 1 bits"]
    by (auto simp: pos1 low fun_eq_iff bit_drop_bit_eq sub)
qed

lemma tv_put_bits_out:
  "786432 \<le> unat pos \<Longrightarrow> tv_put_bits (Suc n) pos bits bm = None"
  by simp

lemma tv_get_bits_in:
  "unat offset + i + n \<le> 786432 \<Longrightarrow> \<exists>r. tv_get_bits n i offset bm acc = Some r \<and>
     (\<forall>j < 64. bit r j \<longleftrightarrow> bit acc j \<or> i \<le> j \<and> j < i + n \<and> bm (unat offset + j) = Black)"
proof (induction n arbitrary: i acc)
  case 0
  then show ?case by auto
next
  case (Suc n)
  have off: "unat (offset + of_nat i) = unat offset + i"
    using unat_add_of_nat [of offset i] Suc.prems by simp
  let ?acc = "if bm (unat offset + i) = Black then acc OR push_bit i 1 else acc"
  obtain r where "tv_get_bits n (Suc i) offset bm ?acc = Some r"
    "\<forall>j < 64. bit r j \<longleftrightarrow> bit ?acc j \<or> Suc i \<le> j \<and> j < Suc i + n \<and> bm (unat offset + j) = Black"
    using Suc.IH [of "Suc i" ?acc] Suc.prems by auto
  moreover have "bit ?acc j \<longleftrightarrow> bit acc j \<or> j = i \<and> bm (unat offset + j) = Black" if "j < 64" for j
    using that by (auto simp: bit_or_iff bit_exp_iff)
  ultimately show ?case
    using Suc.prems off by (auto simp: less_Suc_eq_le le_less_Suc_eq not_less_eq_eq)
qed

definition screen_words :: nat where
  "screen_words = 21529"

definition bitmap_words :: nat where
  "bitmap_words = 24576"

lemma offset_32: "unat o0 < 2 ^ 26 \<Longrightarrow> c_mul o0 32 = Some (of_nat (32 * unat o0)) \<and> unat (of_nat (32 * unat o0) :: u32) = 32 * unat o0"
  using c_mul_nat [of o0 32] by (simp add: unat_of_nat_small mult.commute del: of_nat_mult)

text \<open>The word at a screen offset, as the bits of its 32 pixels.\<close>

lemma tv_read_in:
  assumes "unat o0 < screen_words"
  shows "\<exists>v. tv_read o0 t = Some v \<and> (\<forall>j < 32. bit v j \<longleftrightarrow> tv_bitmap t (32 * unat o0 + j) = Black)"
proof -
  have lt: "unat o0 < 2 ^ 26" using assms by (simp add: screen_words_def)
  note off = offset_32 [OF lt]
  obtain r where r: "tv_get_bits 32 0 (of_nat (32 * unat o0)) (tv_bitmap t) 0 = Some r"
    "\<forall>j < 64. bit r j \<longleftrightarrow> j < 32 \<and> tv_bitmap t (32 * unat o0 + j) = Black"
    using tv_get_bits_in [of "of_nat (32 * unat o0)" 0 32 "tv_bitmap t" 0] off assms
    by (auto simp: screen_words_def)
  have "\<not> (of_nat (32 * unat o0) :: u32) > tv_width * tv_height"
    using off assms by (simp add: word_less_nat_alt tv_width_def tv_height_def screen_words_def)
  then have "tv_read o0 t = Some (ucast r)"
    using off r(1) by (simp add: tv_read_def)
  moreover have "\<forall>j < 32. bit (ucast r :: u32) j \<longleftrightarrow> tv_bitmap t (32 * unat o0 + j) = Black"
    using r(2) by (simp add: bit_ucast_iff)
  ultimately show ?thesis by blast
qed

definition row_of :: "nat \<Rightarrow> nat" where
  "row_of k = k div 768"

definition column_of :: "nat \<Rightarrow> nat" where
  "column_of k = k mod 768"

lemma same_row:
  assumes "32 * j \<le> k" and "k < 32 * j + 32"
  shows "row_of k = row_of (32 * j)" "column_of k = column_of (32 * j) + (k - 32 * j)"
    "column_of (32 * j) \<le> 736"
proof -
  define a b where "a = j div 24" and "b = j mod 24"
  have b: "b < 24" by (simp add: b_def)
  have j: "32 * j = 768 * a + 32 * b"
    using div_mult_mod_eq [of j 24] unfolding a_def b_def by linarith
  have k: "k = 768 * a + (32 * b + (k - 32 * j))" and small: "32 * b + (k - 32 * j) < 768"
    using assms j b by linarith+
  have "32 * j div 768 = a" "32 * j mod 768 = 32 * b" using j b by simp_all
  moreover have "k div 768 = a" "k mod 768 = 32 * b + (k - 32 * j)"
    using small by (subst k; simp)+
  ultimately show "row_of k = row_of (32 * j)" "column_of k = column_of (32 * j) + (k - 32 * j)"
    "column_of (32 * j) \<le> 736"
    using b by (simp_all add: row_of_def column_of_def)
qed

lemma unat_row_column:
  assumes "unat (w :: u32) = k"
  shows "unat (w div tv_width) = row_of k" "unat (w mod tv_width) = column_of k"
  using assms by (simp_all add: tv_width_def row_of_def column_of_def unat_div unat_mod)

text \<open>The accumulated rectangle after one more word at column \<open>h\<close>, row \<open>v\<close>.\<close>

lemma accumulate_word:
  assumes "unat h \<le> 736" and "unat v \<le> 1024"
  shows "\<exists>t'. accumulate_update h v 32 1 t = Some t' \<and> tv_bitmap t' = tv_bitmap t \<and> tv_csr t' = tv_csr t \<and>
    sint (u_minh t') = min (int (unat h)) (sint (u_minh t)) \<and>
    sint (u_maxh t') = max (int (unat h) + 32) (sint (u_maxh t)) \<and>
    sint (u_minv t') = min (int (unat v)) (sint (u_minv t)) \<and>
    sint (u_maxv t') = max (int (unat v) + 1) (sint (u_maxv t))"
proof -
  have small: "unat h < 2 ^ 31" "unat v < 2 ^ 31" "unat h + 32 < 2 ^ 31" "unat v + 1 < 2 ^ 31"
    using assms by simp_all
  have sh: "sint h = int (unat h)" and sv: "sint v = int (unat v)"
    using sint_eq_unat small by blast+
  have ah: "c_add h 32 = Some (of_nat (unat h + 32))" and av: "c_add v 1 = Some (of_nat (unat v + 1))"
    using c_add_nat [of h 32] c_add_nat [of v 1] small by simp_all
  have "unat (of_nat (unat h + 32) :: u32) = unat h + 32" "unat (of_nat (unat v + 1) :: u32) = unat v + 1"
    using small unat_of_nat_small by blast+
  then have sr: "sint (of_nat (unat h + 32) :: u32) = int (unat h) + 32"
    and sb: "sint (of_nat (unat v + 1) :: u32) = int (unat v) + 1"
    using sint_eq_unat [of "of_nat (unat h + 32)"] sint_eq_unat [of "of_nat (unat v + 1)"] small by simp_all
  show ?thesis
    unfolding accumulate_update_def Let_def ah av bind.bind_lunit
    using sh sv sr sb by (auto simp: min_def max_def)
qed

text \<open>A write inside the bitmap: 32 pixels change, and the rectangle grows around them.\<close>

lemma tv_write_in:
  assumes "unat o0 < bitmap_words"
  shows "\<exists>t'. tv_write o0 bits t = Some t' \<and> tv_csr t' = tv_csr t \<and>
    tv_bitmap t' = (\<lambda>k. if 32 * unat o0 \<le> k \<and> k < 32 * unat o0 + 32
      then (if bit bits (k - 32 * unat o0) then Black else White) else tv_bitmap t k) \<and>
    sint (u_minh t') = min (int (column_of (32 * unat o0))) (sint (u_minh t)) \<and>
    sint (u_maxh t') = max (int (column_of (32 * unat o0)) + 32) (sint (u_maxh t)) \<and>
    sint (u_minv t') = min (int (row_of (32 * unat o0))) (sint (u_minv t)) \<and>
    sint (u_maxv t') = max (int (row_of (32 * unat o0)) + 1) (sint (u_maxv t))"
proof -
  define w :: u32 where "w = of_nat (32 * unat o0)"
  have lt: "unat o0 < 2 ^ 26" using assms by (simp add: bitmap_words_def)
  have off: "c_mul o0 32 = Some w" "unat w = 32 * unat o0"
    using offset_32 [OF lt] by (simp_all add: w_def)
  note rc = unat_row_column [OF off(2)]
  have "unat (w mod tv_width) \<le> 736" "unat (w div tv_width) \<le> 1024"
    using rc same_row(3) [of "unat o0" "32 * unat o0"] assms
    by (simp_all add: row_of_def bitmap_words_def)
  note acc = accumulate_word [OF this]
  define b where "b = (\<lambda>k. if 32 * unat o0 \<le> k \<and> k < 32 * unat o0 + 32
      then (if bit bits (k - 32 * unat o0) then Black else White) else tv_bitmap t k)"
  have put: "tv_put_bits 32 w bits (tv_bitmap t) = Some b"
    using tv_put_bits_in [of w 32 bits "tv_bitmap t"] assms unfolding off(2) b_def
    by (simp add: bitmap_words_def)
  show ?thesis
    unfolding tv_write_def off(1) bind.bind_lunit Let_def put b_def [symmetric]
    using acc [of "t\<lparr>tv_bitmap := b\<rparr>"] rc by auto
qed

text \<open>Outside the bitmap the very first store is out of bounds, or the offset overflows.\<close>

lemma tv_write_out:
  assumes "bitmap_words \<le> unat o0"
  shows "tv_write o0 bits t = None"
proof (cases "c_mul o0 32")
  case None
  then show ?thesis by (simp add: tv_write_def)
next
  case (Some w)
  have range: "- (2 ^ 31) \<le> sint o0 * 32" "sint o0 * 32 < 2 ^ 31" "w = word_of_int (sint o0 * 32)"
    using Some by (simp_all add: c_mul_def c_int_def split: if_splits)
  have sw: "sint w = sint o0 * 32" unfolding range(3) by (rule sint_word_of_int [OF range(1,2)])
  have "786432 \<le> unat w"
  proof (cases "0 \<le> sint o0")
    case True
    then have "sint o0 = int (unat o0)" using sint_nonneg_small [of o0] sint_eq_unat by blast
    moreover have "sint w = int (unat w)"
      using sw True sint_nonneg_small [of w] sint_eq_unat by simp
    ultimately have "unat w = unat o0 * 32" using sw by linarith
    then show ?thesis using assms by (simp add: bitmap_words_def)
  next
    case False
    have "2 ^ 31 \<le> unat w"
    proof (rule ccontr)
      assume "\<not> 2 ^ 31 \<le> unat w"
      then have "sint w = int (unat w)" by (intro sint_eq_unat) simp
      with sw False show False by linarith
    qed
    then show ?thesis by simp
  qed
  then have "tv_put_bits 32 w bits (tv_bitmap t) = None"
    using tv_put_bits_out [of w 31] by simp
  with Some show ?thesis by (simp add: tv_write_def Let_def)
qed

text \<open>
  A store to the frame buffer is in bounds exactly for the first 24576 word offsets; the
  address the processor can pass goes up to 32767, and nothing checks it.
\<close>

theorem tv_write_defined: "tv_write offset bits t \<noteq> None \<longleftrightarrow> unat offset < bitmap_words"
  using tv_write_in [of offset bits t] tv_write_out [of offset bits t]
  by (cases "unat offset < bitmap_words") auto

subsection \<open>The screen is a store of words\<close>

definition screen_word :: "tv \<Rightarrow> u32 \<Rightarrow> u32 option" where
  "screen_word t p = (if unat p < screen_words then tv_read p t else None)"

lemma tv_read_same_pixels:
  assumes "unat p < screen_words" and "\<And>j. j < 32 \<Longrightarrow> (tv_bitmap t (32 * unat p + j) = Black) = (tv_bitmap t' (32 * unat p + j) = Black)"
  shows "tv_read p t' = tv_read p t"
proof -
  obtain v v' where v: "tv_read p t = Some v" "\<forall>j < 32. bit v j \<longleftrightarrow> tv_bitmap t (32 * unat p + j) = Black"
    and v': "tv_read p t' = Some v'" "\<forall>j < 32. bit v' j \<longleftrightarrow> tv_bitmap t' (32 * unat p + j) = Black"
    using tv_read_in [OF assms(1)] by blast
  have "v' = v" using v(2) v'(2) assms(2) by (intro bit_word_eqI) simp
  with v v' show ?thesis by simp
qed

lemma tv_read_written:
  assumes "unat p < screen_words" and "tv_write p v t = Some t'"
  shows "tv_read p t' = Some v"
proof -
  have "unat p < bitmap_words" using assms(1) by (simp add: screen_words_def bitmap_words_def)
  then have bm: "tv_bitmap t' = (\<lambda>k. if 32 * unat p \<le> k \<and> k < 32 * unat p + 32
      then (if bit v (k - 32 * unat p) then Black else White) else tv_bitmap t k)"
    using tv_write_in [of p v t] assms(2) by auto
  obtain r where r: "tv_read p t' = Some r" "\<forall>j < 32. bit r j \<longleftrightarrow> tv_bitmap t' (32 * unat p + j) = Black"
    using tv_read_in [OF assms(1)] by blast
  have "r = v" using r(2) by (intro bit_word_eqI) (simp add: bm Black_def White_def)
  with r show ?thesis by simp
qed

lemma tv_read_unwritten:
  assumes "unat p < screen_words" and "unat r < screen_words" and "r \<noteq> p" and "tv_write p v t = Some t'"
  shows "tv_read r t' = tv_read r t"
proof (rule tv_read_same_pixels [OF assms(2)])
  fix j :: nat
  assume j: "j < 32"
  have "unat p < bitmap_words" using assms(1) by (simp add: screen_words_def bitmap_words_def)
  then have "tv_bitmap t' = (\<lambda>k. if 32 * unat p \<le> k \<and> k < 32 * unat p + 32
      then (if bit v (k - 32 * unat p) then Black else White) else tv_bitmap t k)"
    using tv_write_in [of p v t] assms(4) by auto
  moreover have "unat r \<noteq> unat p" using assms(3) by (simp add: word_unat_eq_iff)
  then have "\<not> (32 * unat p \<le> 32 * unat r + j \<and> 32 * unat r + j < 32 * unat p + 32)"
    using j by (cases "unat r < unat p") auto
  ultimately show "(tv_bitmap t (32 * unat r + j) = Black) = (tv_bitmap t' (32 * unat r + j) = Black)"
    by auto
qed

interpretation screen: word_store
  "\<lambda>p v t. map_option (\<lambda>t'. (t', 0)) (tv_write p v t)"
  "\<lambda>p t. map_option (\<lambda>v. (t, Some v)) (tv_read p t)"
  screen_word "\<lambda>p. unat p < screen_words" "\<lambda>t. True"
proof
  fix t and p v :: u32
  assume p: "unat p < screen_words"
  then obtain t' where t': "tv_write p v t = Some t'"
    using tv_write_in [of p v t] by (auto simp: screen_words_def bitmap_words_def)
  then show "\<exists>s'. map_option (\<lambda>t'. (t', 0)) (tv_write p v t) = Some (s', 0) \<and> True \<and> screen_word s' p = Some v \<and>
      (\<forall>r x. r \<noteq> p \<longrightarrow> screen_word t r = Some x \<longrightarrow> screen_word s' r = Some x)"
    using p tv_read_written [OF p t'] tv_read_unwritten [OF p _ _ t'] by (auto simp: screen_word_def)
next
  fix t and p v :: u32
  assume "unat p < screen_words" "screen_word t p = Some v"
  then show "map_option (\<lambda>v. (t, Some v)) (tv_read p t) = Some (t, Some v)"
    by (simp add: screen_word_def)
qed

text \<open>
  The visible screen (words 0 to 21528) reads back what was written to it, pixel for bit,
  and a write changes no other word of it.
\<close>

theorem screen_reads_back:
  assumes "unat p < screen_words"
  shows "\<exists>t'. tv_write p v t = Some t' \<and> tv_read p t' = Some v \<and>
    (\<forall>r. r \<noteq> p \<longrightarrow> unat r < screen_words \<longrightarrow> tv_read r t' = tv_read r t)"
proof -
  obtain t' where t': "tv_write p v t = Some t'" "screen_word t' p = Some v"
    "\<forall>r x. r \<noteq> p \<longrightarrow> screen_word t r = Some x \<longrightarrow> screen_word t' r = Some x"
    using screen.wr_ok [where s = t and p = p and v = v] assms by auto
  moreover have "tv_read r t' = tv_read r t" if "r \<noteq> p" "unat r < screen_words" for r
    using t'(3) tv_read_in [OF that(2), of t] that by (auto simp: screen_word_def)
  ultimately show ?thesis using assms by (auto simp: screen_word_def)
qed

definition blank_tv :: tv where
  "blank_tv = \<lparr>tv_bitmap = (\<lambda>i. 0), tv_csr = 0, u_minh = 0x7FFFFFFF, u_maxh = 0, u_minv = 0x7FFFFFFF, u_maxv = 0\<rparr>"

lemma screen_reads_back_witness:
  "\<exists>t'. tv_write 100 0xF0F0 blank_tv = Some t' \<and> tv_read 100 t' = Some 0xF0F0 \<and>
    (\<forall>r. r \<noteq> 100 \<longrightarrow> unat r < screen_words \<longrightarrow> tv_read r t' = tv_read r blank_tv)"
  by (rule screen_reads_back) (simp add: screen_words_def)

subsection \<open>Every changed pixel reaches the window\<close>

primrec tv_writes :: "(u32 \<times> u32) list \<Rightarrow> tv \<Rightarrow> tv option" where
  "tv_writes [] t = Some t"
| "tv_writes (x # xs) t = do { t1 \<leftarrow> tv_write (fst x) (snd x) t; tv_writes xs t1 }"

text \<open>
  \<open>covered t0 t\<close>: the accumulated rectangle of \<open>t\<close> contains every pixel that differs from
  \<open>t0\<close>, and its lower bounds are not negative.
\<close>

definition in_rectangle :: "tv \<Rightarrow> nat \<Rightarrow> bool" where
  "in_rectangle t k \<longleftrightarrow> sint (u_minh t) \<le> int (column_of k) \<and> int (column_of k) < sint (u_maxh t) \<and>
     sint (u_minv t) \<le> int (row_of k) \<and> int (row_of k) < sint (u_maxv t)"

definition covered :: "tv \<Rightarrow> tv \<Rightarrow> bool" where
  "covered t0 t \<longleftrightarrow> 0 \<le> sint (u_minh t) \<and> 0 \<le> sint (u_minv t) \<and>
     (\<forall>k. tv_bitmap t k \<noteq> tv_bitmap t0 k \<longrightarrow> in_rectangle t k)"

lemma tv_write_covered:
  assumes "covered t0 t" and "tv_write p v t = Some t'"
  shows "covered t0 t'"
proof -
  have "unat p < bitmap_words" using tv_write_out [of p v t] assms(2) by fastforce
  then have w: "tv_bitmap t' = (\<lambda>k. if 32 * unat p \<le> k \<and> k < 32 * unat p + 32
      then (if bit v (k - 32 * unat p) then Black else White) else tv_bitmap t k)"
    "sint (u_minh t') = min (int (column_of (32 * unat p))) (sint (u_minh t))"
    "sint (u_maxh t') = max (int (column_of (32 * unat p)) + 32) (sint (u_maxh t))"
    "sint (u_minv t') = min (int (row_of (32 * unat p))) (sint (u_minv t))"
    "sint (u_maxv t') = max (int (row_of (32 * unat p)) + 1) (sint (u_maxv t))"
    using tv_write_in [of p v t] assms(2) by auto
  have "in_rectangle t' k" if k: "tv_bitmap t' k \<noteq> tv_bitmap t0 k" for k
  proof (cases "32 * unat p \<le> k \<and> k < 32 * unat p + 32")
    case True
    define a where "a = 32 * unat p"
    have "row_of k = row_of a" "column_of k = column_of a + (k - a)" "k - a < 32"
      using True same_row [of "unat p" k] unfolding a_def by auto
    then show ?thesis
      by (auto simp: in_rectangle_def w [folded a_def] min_le_iff_disj less_max_iff_disj)
  next
    case False
    then have "in_rectangle t k" using k assms(1) by (auto simp: covered_def w(1))
    then show ?thesis by (auto simp: in_rectangle_def w)
  qed
  then show ?thesis using assms(1) by (simp add: covered_def w)
qed

lemma tv_writes_covered:
  "covered t0 t \<Longrightarrow> tv_writes xs t = Some t' \<Longrightarrow> covered t0 t'"
  by (induction xs arbitrary: t) (fastforce dest: tv_write_covered split: bind_splits)+

lemma sent_is_covered: "covered (fst (send_accumulated_updates b t)) (fst (send_accumulated_updates b t))"
  by (simp add: send_accumulated_updates_def covered_def Let_def)

lemma sint_diff_nonneg:
  assumes "0 \<le> sint a" and "sint a \<le> sint b"
  shows "sint (b - a :: u32) = sint b - sint a"
proof -
  have "sint b < 2 ^ 31" using sint_lt [of b] by simp
  then have "sint (word_of_int (sint b - sint a) :: u32) = sint b - sint a"
    using assms by (intro sint_word_of_int) linarith+
  then show ?thesis by simp
qed

text \<open>
  C17. Starting from a window that shows the bitmap (an update was just sent), after any
  sequence of stores every pixel that has changed lies inside the rectangle handed to
  \<open>XPutImage\<close> by the next update; so nothing drawn is lost.
\<close>

theorem changed_pixels_are_sent:
  assumes "tv_writes xs (fst (send_accumulated_updates True t)) = Some t'"
    and "tv_bitmap t' k \<noteq> tv_bitmap t k"
  shows "\<exists>x y w h. snd (send_accumulated_updates True t') = Some (x, y, w, h) \<and>
    sint x \<le> int (column_of k) \<and> int (column_of k) < sint x + sint w \<and>
    sint y \<le> int (row_of k) \<and> int (row_of k) < sint y + sint h"
proof -
  let ?t = "fst (send_accumulated_updates True t)"
  have bm: "tv_bitmap ?t = tv_bitmap t" by (simp add: send_accumulated_updates_def Let_def)
  have cov: "covered ?t t'" using tv_writes_covered [OF sent_is_covered assms(1)] .
  then have pos: "0 \<le> sint (u_minh t')" "0 \<le> sint (u_minv t')" and rect: "in_rectangle t' k"
    using assms(2) bm by (simp_all add: covered_def)
  have col: "int (column_of k) < 768" by (simp add: column_of_def)
  have big: "sint (0x7FFFFFFF :: u32) = 2 ^ 31 - 1" by simp
  have lt: "sint w < 2 ^ 31" for w :: u32 using sint_lt [of w] by simp
  have "u_minh t' \<noteq> 0x7FFFFFFF" using rect col big by (auto simp: in_rectangle_def)
  moreover have "u_minv t' \<noteq> 0x7FFFFFFF"
    using rect big lt [of "u_maxv t'"] by (auto simp: in_rectangle_def)
  moreover have "u_maxh t' \<noteq> 0" "u_maxv t' \<noteq> 0" using rect by (auto simp: in_rectangle_def)
  ultimately have "snd (send_accumulated_updates True t') =
      Some (u_minh t', u_minv t', u_maxh t' - u_minh t', u_maxv t' - u_minv t')"
    by (simp add: send_accumulated_updates_def Let_def)
  moreover have "sint (u_maxh t' - u_minh t') = sint (u_maxh t') - sint (u_minh t')"
    "sint (u_maxv t' - u_minv t') = sint (u_maxv t') - sint (u_minv t')"
    using pos rect by (intro sint_diff_nonneg; auto simp: in_rectangle_def)+
  ultimately show ?thesis using rect by (auto simp: in_rectangle_def)
qed

lemma changed_pixels_are_sent_witness:
  "\<exists>t' x y w h. tv_writes [(30, 0)] (fst (send_accumulated_updates True blank_tv)) = Some t' \<and>
    snd (send_accumulated_updates True t') = Some (x, y, w, h) \<and>
    sint x \<le> int (column_of 960) \<and> int (column_of 960) < sint x + sint w \<and>
    sint y \<le> int (row_of 960) \<and> int (row_of 960) < sint y + sint h"
proof -
  obtain t' where t': "tv_writes [(30, 0)] (fst (send_accumulated_updates True blank_tv)) = Some t'"
    "tv_bitmap t' 960 = White"
    using tv_write_in [of 30 0 "fst (send_accumulated_updates True blank_tv)"]
    by (auto simp: bitmap_words_def)
  then have "tv_bitmap t' 960 \<noteq> tv_bitmap blank_tv 960"
    by (simp add: blank_tv_def White_def)
  from changed_pixels_are_sent [OF t'(1) this] t'(1) show ?thesis by blast
qed

end

