(* ===== verification/Usim_Keyboard.thy ===== *)
theory Usim_Keyboard
  imports Usim_Interrupt
begin

section \<open>The keyboard (kbd.c, process_key of x11.c)\<close>

text \<open>
  A key press of the X window becomes a scan code of the old Lisp machine keyboard. One
  scan code is visible in \<open>kbd_key_scan\<close>; bit 5 of \<open>iob_csr\<close> says that it has not been read
  yet. Codes that arrive meanwhile wait in a ring of ten entries. The ring indices stay
  between 0 and 9 and the free count between 0 and 10, so they are natural numbers here.
\<close>

record kbd =
  iob_csr :: u32
  kbd_key_scan :: u32
  okb_to_scancode :: "nat \<Rightarrow> nat \<Rightarrow> u16"
  key_queue :: "u32 arr"
  key_queue_optr :: nat
  key_queue_iptr :: nat
  key_queue_free :: nat

definition KEY_QUEUE_LEN :: nat where
  "KEY_QUEUE_LEN = 10"

definition queue_key_event :: "u32 \<Rightarrow> kbd \<Rightarrow> intr \<Rightarrow> kbd \<times> intr" where
  "queue_key_event ev k s =
    (let v = 0x10000 OR ev in
     if key_queue_free k > 0 then
       (k\<lparr>key_queue_free := key_queue_free k - 1,
          key_queue := (key_queue k)(key_queue_optr k := v),
          key_queue_optr := (key_queue_optr k + 1) mod KEY_QUEUE_LEN\<rparr>, s)
     else if iob_csr k AND 0x20 = 0 \<and> iob_csr k AND 4 \<noteq> 0 then
       (k\<lparr>iob_csr := iob_csr k OR 0x20\<rparr>, assert_unibus_interrupt 0xB0 s)
     else (k, s))"

definition dequeue_key_event :: "kbd \<Rightarrow> intr \<Rightarrow> kbd \<times> intr" where
  "dequeue_key_event k s =
    (if iob_csr k AND 0x20 \<noteq> 0 then (k, s)
     else if key_queue_free k < KEY_QUEUE_LEN then
       (let v = key_queue k (key_queue_iptr k);
            k1 = k\<lparr>key_queue_iptr := (key_queue_iptr k + 1) mod KEY_QUEUE_LEN,
                   key_queue_free := key_queue_free k + 1,
                   kbd_key_scan := 0x10000 OR v\<rparr> in
        if iob_csr k1 AND 4 \<noteq> 0
        then (k1\<lparr>iob_csr := iob_csr k1 OR 0x20\<rparr>, assert_unibus_interrupt 0xB0 s)
        else (k1, s))
     else (k, s))"

definition kbd_key_event :: "u32 \<Rightarrow> u32 \<Rightarrow> kbd \<Rightarrow> intr \<Rightarrow> kbd \<times> intr" where
  "kbd_key_event code keydown k s =
    (let v = push_bit 8 (if keydown = 0 then 1 else 0) OR code in
     if iob_csr k AND 0x20 \<noteq> 0 then queue_key_event v k s
     else let k1 = k\<lparr>kbd_key_scan := 0x10000 OR v\<rparr> in
       if iob_csr k1 AND 4 \<noteq> 0
       then (k1\<lparr>iob_csr := iob_csr k1 OR 0x20\<rparr>, assert_unibus_interrupt 0xB0 s)
       else (k1, s))"

definition kbd_warm_boot_key :: "kbd \<Rightarrow> intr \<Rightarrow> kbd \<times> intr" where
  "kbd_warm_boot_key k s = kbd_key_event 50 0 k s"

subsection \<open>The scan code tables\<close>

text \<open>
  The 64 keys of the old keyboard: the character plain, shifted and with Top. Codes from
  0x80 are the named keys \<open>LM_K_BREAK\<close> (0x81), \<open>LM_K_ESC\<close> (0x84) and so on of \<open>kbd.h\<close>.
\<close>

definition kb_old_table :: "(u8 \<times> u8 \<times> u8) list" where
  "kb_old_table = [
     (0x81, 0x81, 0x9E), (0x84, 0x84, 0x9D), (0x31, 0x21, 0x21), (0x32, 0x22, 0x22),
     (0x33, 0x23, 0x23), (0x34, 0x24, 0x24), (0x35, 0x25, 0x25), (0x36, 0x26, 0x26),
     (0x37, 0x27, 0x27), (0x38, 0x28, 0x28), (0x39, 0x29, 0x29), (0x30, 0x5F, 0x5F),
     (0x2D, 0x3D, 0x3D), (0x40, 0x60, 0x60), (0x5E, 0x7E, 0x7E), (0x88, 0x88, 0x88),
     (0x83, 0x83, 0x91), (0x82, 0x82, 0x82), (0x89, 0x89, 0x89), (0x1B, 0x1B, 0x1B),
     (0x71, 0x51, 4), (0x77, 0x57, 0x1F), (0x65, 0x45, 0x12), (0x72, 0x52, 0x13),
     (0x74, 0x54, 0x10), (0x79, 0x59, 0x11), (0x75, 0x55, 5), (0x69, 0x49, 0x16),
     (0x6F, 0x4F, 1), (0x70, 0x50, 0xB), (0x5B, 0x7B, 0x7B), (0x5D, 0x7D, 0x7D),
     (0x5C, 0x7C, 0x7C), (0x2F, 0xE, 0xE), (0xC, 0x8D, 0x80), (0x8D, 0x89, 0x89),
     (0x8C, 0x8C, 0x8C), (0x8B, 0x8B, 0x8B), (0x87, 0x87, 0x87), (0x61, 0x41, 0x1C),
     (0x73, 0x53, 0x1D), (0x64, 0x44, 0x1E), (0x66, 0x46, 0xF), (0x67, 0x47, 0x1A),
     (0x68, 0x48, 0x86), (0x6A, 0x4A, 0x18), (0x6B, 0x4B, 0x19), (0x6C, 0x4C, 0x17),
     (0x3B, 0x2B, 0x2B), (0x3A, 0x2A, 0x2A), (0x8D, 0x8D, 0x94), (0x8A, 0x8A, 0x8A),
     (0x85, 0x85, 0x85), (0x7A, 0x5A, 2), (0x78, 0x58, 3), (0x63, 0x43, 6),
     (0x76, 0x56, 8), (0x62, 0x42, 7), (0x6E, 0x4E, 0x14), (0x6D, 0x4D, 0x15),
     (0x2C, 0x3C, 0x3C), (0x2E, 0x3E, 0x3E), (0x2F, 0x3F, 0x3F), (0x20, 0x20, 0x20)]"

text \<open>
  \<open>okb_set i j v t\<close>: the assignment \<open>okb_to_scancode[i][j] = v\<close>. The row comes from a
  \<open>char\<close>, whose signedness is the implementation's choice: with a signed \<open>char\<close> a code of
  0x80 or more is a negative row.
\<close>

definition okb_set :: "nat \<Rightarrow> nat \<Rightarrow> u16 \<Rightarrow> (nat \<Rightarrow> nat \<Rightarrow> u16) \<Rightarrow> (nat \<Rightarrow> nat \<Rightarrow> u16) option" where
  "okb_set i j v t = (if i < 256 \<and> j < 4 then Some (t(i := (t i)(j := v))) else None)"

definition char_row :: "bool \<Rightarrow> u8 \<Rightarrow> nat option" where
  "char_row char_signed k =
    (let i = (if char_signed then sint k else uint k) in if i < 0 then None else Some (nat i))"

primrec okb_walk ::
  "bool \<Rightarrow> nat \<Rightarrow> (u8 \<times> u8 \<times> u8) list \<Rightarrow> (nat \<Rightarrow> nat \<Rightarrow> u16) \<Rightarrow> (nat \<Rightarrow> nat \<Rightarrow> u16) option" where
  "okb_walk char_signed i [] t = Some t"
| "okb_walk char_signed i (r # rs) t = do {
     row \<leftarrow> char_row char_signed (fst r);
     t1 \<leftarrow> okb_set row 0 (of_nat i) t;
     okb_walk char_signed (Suc i) rs t1
   }"

text \<open>The assignments that follow in \<open>kbd_init\<close>, as (row, column, value), \<open>3 << 6\<close> being 0xC0.\<close>

definition us_layout :: "(nat \<times> nat \<times> u16) list" where
  "us_layout = [
     (0x60, 0, 0xCD), (0x60, 1, 0xCE), (0x27, 0, 0xC8), (0x27, 1, 0xC3), (0x3D, 0, 0xCC), (0x32, 1, 0xD),
     (0x36, 1, 0xE), (0x37, 1, 0xC7), (0x38, 1, 0xF1), (0x39, 1, 0xC9), (0x30, 1, 0xCA), (0x2D, 1, 0xCB),
     (0x3D, 1, 0xF0), (0x3B, 1, 0x31), (0x3A, 1, 0x31), (0x21, 1, 0xC2), (0x22, 1, 0xC3), (0x23, 1, 0xC4),
     (0x24, 1, 0xC5), (0x25, 1, 0xC6), (0x26, 1, 0xC7), (0x28, 1, 0xC9), (0x29, 1, 0xCA), (0x5F, 1, 0xCB),
     (0x7E, 1, 0xCE), (0x40, 1, 0xD), (0x5E, 1, 0xE), (0x51, 1, 0xD4), (0x57, 1, 0xD5), (0x45, 1, 0xD6),
     (0x52, 1, 0xD7), (0x54, 1, 0xD8), (0x59, 1, 0xD9), (0x55, 1, 0xDA), (0x49, 1, 0xDB), (0x4F, 1, 0xDC),
     (0x50, 1, 0xDD), (0x7B, 1, 0xDE), (0x7D, 1, 0xDF), (0x7C, 1, 0xE0), (0x41, 1, 0xE7), (0x53, 1, 0xE8),
     (0x44, 1, 0xE9), (0x46, 1, 0xEA), (0x47, 1, 0xEB), (0x48, 1, 0xEC), (0x4A, 1, 0xED), (0x4B, 1, 0xEE),
     (0x4C, 1, 0xEF), (0x2B, 1, 0xF0), (0x2A, 1, 0xF1), (0x5A, 1, 0xF5), (0x58, 1, 0xF6), (0x43, 1, 0xF7),
     (0x56, 1, 0xF8), (0x42, 1, 0xF9), (0x4E, 1, 0xFA), (0x4D, 1, 0xFB), (0x3C, 1, 0xFC), (0x3E, 1, 0xFD),
     (0x3F, 1, 0xFE), (0x7F, 0, 0x26), (8, 0, 0x26), (9, 0, 0x89), (0x1B, 0, 0x84)]"

primrec okb_assign ::
  "(nat \<times> nat \<times> u16) list \<Rightarrow> (nat \<Rightarrow> nat \<Rightarrow> u16) \<Rightarrow> (nat \<Rightarrow> nat \<Rightarrow> u16) option" where
  "okb_assign [] t = Some t"
| "okb_assign (x # xs) t = do {
     t1 \<leftarrow> okb_set (fst x) (fst (snd x)) (snd (snd x)) t;
     okb_assign xs t1
   }"

definition okb_init :: "bool \<Rightarrow> (nat \<Rightarrow> nat \<Rightarrow> u16) option" where
  "okb_init char_signed = do {
     t1 \<leftarrow> okb_walk char_signed 0 kb_old_table (\<lambda>i j. 0);
     let t2 = (\<lambda>i. if i < 256 then (t1 i)(1 := t1 i 0 OR 0xC0) else t1 i);
     okb_assign us_layout t2
   }"

definition kbd_init :: "bool \<Rightarrow> kbd \<Rightarrow> kbd option" where
  "kbd_init char_signed k = do { t \<leftarrow> okb_init char_signed; Some (k\<lparr>okb_to_scancode := t\<rparr>) }"

subsection \<open>From X key events to scan codes\<close>

text \<open>
  The key symbols \<open>process_key\<close> distinguishes, under their X11 names; \<open>Keysym n\<close> is any
  other one, with its numeric value (for Latin-1 keys, the character code).
\<close>

datatype keysym =
    XK_Shift_L | XK_Shift_R | XK_Control_L | XK_Control_R | XK_Alt_L | XK_Alt_R
  | XK_F1 | XK_F2 | XK_F3 | XK_F4 | XK_F5 | XK_F6 | XK_F7 | XK_F11 | XK_F12 | XK_Break
  | XK_BackSpace | XK_Return | XK_Tab | XK_Escape | XK_Left | XK_Right | XK_Up | XK_Down
  | Keysym nat

definition key_extra :: "u32 \<Rightarrow> u32" where
  "key_extra state =
    (let e1 = (if state AND 16 \<noteq> 0 then 0x3000 else 0);
         e2 = (if state AND 8 \<noteq> 0 then e1 OR 0x3000 else e1);
         e3 = (if state AND 1 \<noteq> 0 then e2 OR 0xC0 else e2);
         e4 = (if state AND 2 \<noteq> 0 then e3 XOR 0xC0 else e3)
     in if state AND 4 \<noteq> 0 then e4 OR 0xC00 else e4)"

text \<open>\<open>lm_code extra ks t\<close>: the code and whether it is a new-keyboard one; \<open>None\<close> if the key is ignored.\<close>

primrec lm_code :: "u32 \<Rightarrow> keysym \<Rightarrow> (nat \<Rightarrow> nat \<Rightarrow> u16) \<Rightarrow> (u32 \<times> bool) option" where
  "lm_code extra XK_F1 t = Some (1, False)"
| "lm_code extra XK_F2 t = Some (0x301, False)"
| "lm_code extra XK_F3 t = Some (0x300, False)"
| "lm_code extra XK_F4 t = Some (0x310, False)"
| "lm_code extra XK_F5 t = Some (0x11, False)"
| "lm_code extra XK_F6 t = Some (0x32C, False)"
| "lm_code extra XK_F11 t = Some (0x332, False)"
| "lm_code extra XK_F7 t = Some (0x10, False)"
| "lm_code extra XK_F12 t = Some (0, False)"
| "lm_code extra XK_Break t = Some (0, False)"
| "lm_code extra XK_BackSpace t = Some (0x26, False)"
| "lm_code extra XK_Return t = Some (0x32, False)"
| "lm_code extra XK_Tab t = Some (0x12, False)"
| "lm_code extra XK_Escape t = Some (1, False)"
| "lm_code extra XK_Left t = Some (0x4F, True)"
| "lm_code extra XK_Right t = Some (0xF, True)"
| "lm_code extra XK_Up t = Some (0x46, True)"
| "lm_code extra XK_Down t = Some (0x7E, True)"
| "lm_code extra (Keysym n) t =
    (if n > 255 then None else Some (ucast (t n (if extra AND 0xC0 \<noteq> 0 then 1 else 0)), False))"
| "lm_code extra XK_Shift_L t = None"
| "lm_code extra XK_Shift_R t = None"
| "lm_code extra XK_Control_L t = None"
| "lm_code extra XK_Control_R t = None"
| "lm_code extra XK_Alt_L t = None"
| "lm_code extra XK_Alt_R t = None"

definition process_key :: "u32 \<Rightarrow> keysym \<Rightarrow> bool \<Rightarrow> kbd \<Rightarrow> intr \<Rightarrow> kbd \<times> intr" where
  "process_key state ks keydown k s =
    (let extra = key_extra state in
     if keydown then
       (case lm_code extra ks (okb_to_scancode k) of
          None \<Rightarrow> (k, s)
        | Some (code, newkbd) \<Rightarrow>
           (let c1 = code OR (extra AND NOT 0xC0);
                c2 = (if extra AND 0x4400 \<noteq> 0 then c1 OR extra else c1);
                c3 = (if newkbd then c2 OR 0x10000 else c2 OR 0xFFFF0000)
            in kbd_key_event c3 1 k s))
     else (k, s))"

subsection \<open>The keyboard is a queue of eleven scan codes\<close>

text \<open>The codes waiting in the ring, oldest first, and all that have not been read yet.\<close>

definition queue_items :: "kbd \<Rightarrow> u32 list" where
  "queue_items k =
     map (\<lambda>i. key_queue k ((key_queue_iptr k + i) mod 10)) [0..<10 - key_queue_free k]"

definition unread :: "kbd \<Rightarrow> bool" where
  "unread k \<longleftrightarrow> bit (iob_csr k) 5"

definition kbd_enabled :: "kbd \<Rightarrow> bool" where
  "kbd_enabled k \<longleftrightarrow> bit (iob_csr k) 2"

definition pending :: "kbd \<Rightarrow> u32 list" where
  "pending k = (if unread k then [kbd_key_scan k] else []) @ queue_items k"

definition ring_inv :: "kbd \<Rightarrow> bool" where
  "ring_inv k \<longleftrightarrow> key_queue_iptr k < 10 \<and> key_queue_free k \<le> 10 \<and>
     key_queue_optr k = (key_queue_iptr k + (10 - key_queue_free k)) mod 10 \<and>
     (\<forall>v \<in> set (queue_items k). 0x10000 OR v = v)"

text \<open>Between two polls with keyboard interrupts on: a code waits only behind an unread one.\<close>

definition settled :: "kbd \<Rightarrow> bool" where
  "settled k \<longleftrightarrow> ring_inv k \<and> kbd_enabled k \<and> (unread k \<or> queue_items k = [])"

lemma csr_masks:
  "(w :: u32) AND 0x20 = 0 \<longleftrightarrow> \<not> bit w 5" "(w :: u32) AND 4 = 0 \<longleftrightarrow> \<not> bit w 2"
  using and_exp_eq_0_iff_not_bit [of w 5] and_exp_eq_0_iff_not_bit [of w 2] by simp_all

lemma csr_bits:
  "bit (w OR 0x20 :: u32) 5" "bit (w OR 0x20 :: u32) 2 \<longleftrightarrow> bit w 2"
  "\<not> bit (w AND NOT 0x20 :: u32) 5" "bit (w AND NOT 0x20 :: u32) 2 \<longleftrightarrow> bit w 2"
  by (simp_all add: bit_simps)

lemmas csr_bits_neg = csr_bits(3,4) [simplified]

lemma ring_step:
  "f < 10 \<Longrightarrow> ((p + 1) mod 10 + (10 - (f + 1))) mod 10 = (p + (10 - f)) mod (10 :: nat)"
proof -
  assume "f < 10"
  then have "10 - f = 1 + (10 - (f + 1))" by simp
  then show ?thesis by (simp only: mod_add_left_eq add.assoc)
qed

lemma ring_positions:
  assumes "i < n" and "n < 10"
  shows "(p + i) mod 10 \<noteq> (p + n) mod (10 :: nat)"
proof
  assume "(p + i) mod 10 = (p + n) mod 10"
  then have "10 dvd (p + n) - (p + i)"
    using assms by (simp only: mod_eq_dvd_iff_nat [of "p + i" "p + n"] eq_commute [of "(p + i) mod 10"])
  then have "10 \<le> n - i" using assms by (intro dvd_imp_le) simp_all
  with assms show False by simp
qed

lemma queue_put_items:
  assumes "ring_inv k" and "key_queue_free k > 0" and "k' = fst (queue_key_event ev k s)"
  shows "queue_items k' = queue_items k @ [0x10000 OR ev]" "ring_inv k'" "iob_csr k' = iob_csr k"
    "kbd_key_scan k' = kbd_key_scan k"
proof -
  define n p where "n = 10 - key_queue_free k" and "p = key_queue_iptr k"
  have inv: "p < 10" "key_queue_free k \<le> 10" "key_queue_optr k = (p + n) mod 10"
    using assms(1) by (simp_all add: ring_inv_def n_def p_def)
  have k': "k' = k\<lparr>key_queue_free := key_queue_free k - 1,
      key_queue := (key_queue k)((p + n) mod 10 := 0x10000 OR ev),
      key_queue_optr := ((p + n) mod 10 + 1) mod 10\<rparr>"
    using assms(2) inv by (simp add: assms(3) queue_key_event_def KEY_QUEUE_LEN_def)
  have n: "10 - (key_queue_free k - 1) = Suc n" "n < 10" "10 - n = key_queue_free k"
    using assms(2) inv by (simp_all add: n_def)
  have "map (\<lambda>i. ((key_queue k)((p + n) mod 10 := x)) ((p + i) mod 10)) [0..<n]
      = map (\<lambda>i. key_queue k ((p + i) mod 10)) [0..<n]" for x
    using ring_positions [OF _ n(2)] by simp
  then show items: "queue_items k' = queue_items k @ [0x10000 OR ev]"
    by (simp add: queue_items_def k' n(1) flip: n_def p_def One_nat_def)
  have "((p + n) mod 10 + 1) mod 10 = (p + Suc n) mod 10" by (simp add: mod_Suc_eq)
  moreover have "\<forall>v \<in> set (queue_items k'). 0x10000 OR v = v"
    using assms(1) by (auto simp: items ring_inv_def)
  moreover have fields: "key_queue_iptr k' = p" "key_queue_free k' = key_queue_free k - 1"
    "key_queue_optr k' = ((p + n) mod 10 + 1) mod 10"
    by (simp_all add: k' p_def)
  moreover have "key_queue_free k - 1 \<le> 10" using inv(2) by linarith
  ultimately show "ring_inv k'"
    unfolding ring_inv_def fields n(1) using inv(1) by blast
  show "iob_csr k' = iob_csr k" "kbd_key_scan k' = kbd_key_scan k" by (simp_all add: k')
qed

lemma queue_items_Cons:
  assumes "key_queue_free k < 10"
  shows "queue_items k = key_queue k (key_queue_iptr k mod 10) # queue_items
     (k\<lparr>key_queue_iptr := (key_queue_iptr k + 1) mod 10, key_queue_free := key_queue_free k + 1\<rparr>)"
proof -
  obtain n where n: "10 - key_queue_free k = Suc n" "10 - (key_queue_free k + 1) = n" "9 - key_queue_free k = n"
    using assms by (cases "10 - key_queue_free k") auto
  show ?thesis
    by (simp add: queue_items_def n map_upt_Suc mod_add_left_eq del: upt_Suc
        flip: add_Suc_right add_Suc) (simp add: mod_Suc_eq flip: mod_add_left_eq)
qed

lemma queue_items_cong:
  "key_queue k' = key_queue k \<Longrightarrow> key_queue_iptr k' = key_queue_iptr k \<Longrightarrow> key_queue_free k' = key_queue_free k \<Longrightarrow>
   queue_items k' = queue_items k"
  by (simp add: queue_items_def)

lemma ring_inv_cong:
  "key_queue k' = key_queue k \<Longrightarrow> key_queue_iptr k' = key_queue_iptr k \<Longrightarrow> key_queue_free k' = key_queue_free k \<Longrightarrow>
   key_queue_optr k' = key_queue_optr k \<Longrightarrow> ring_inv k' = ring_inv k"
  using queue_items_cong [of k' k] by (simp add: ring_inv_def)

lemma queue_items_Nil: "queue_items k = [] \<longleftrightarrow> 10 \<le> key_queue_free k"
  by (simp add: queue_items_def)

text \<open>Moving a waiting code to the scan register loses nothing, and settles the keyboard.\<close>

lemma dequeue_pending:
  assumes "ring_inv k" and "kbd_enabled k" and "k' = fst (dequeue_key_event k s)"
  shows "pending k' = pending k" "settled k'"
proof -
  have "pending k' = pending k \<and> settled k'"
  proof (cases "unread k \<or> key_queue_free k = 10")
    case True
    then have "k' = k"
      using assms(3) by (auto simp: dequeue_key_event_def csr_masks unread_def KEY_QUEUE_LEN_def)
    then show ?thesis using True assms(1,2) by (auto simp: settled_def queue_items_Nil)
  next
    case False
    then have free: "key_queue_free k < 10" and "\<not> unread k" using assms(1) by (auto simp: ring_inv_def)
    let ?v = "key_queue k (key_queue_iptr k)"
    let ?k = "k\<lparr>key_queue_iptr := (key_queue_iptr k + 1) mod 10, key_queue_free := key_queue_free k + 1\<rparr>"
    have k': "k' = ?k\<lparr>kbd_key_scan := 0x10000 OR ?v, iob_csr := iob_csr k OR 0x20\<rparr>"
      using assms(2,3) free \<open>\<not> unread k\<close>
      by (simp add: dequeue_key_event_def csr_masks unread_def kbd_enabled_def KEY_QUEUE_LEN_def Let_def)
    have items: "queue_items k = ?v # queue_items k'"
      using queue_items_Cons [OF free] assms(1) queue_items_cong [of k' ?k]
      by (simp add: k' ring_inv_def)
    then have "0x10000 OR ?v = ?v" using assms(1) by (simp add: ring_inv_def)
    then have "pending k' = pending k"
      using items \<open>\<not> unread k\<close> by (simp add: pending_def unread_def csr_bits k')
    moreover have "key_queue_optr k = ((key_queue_iptr k + 1) mod 10 + (10 - (key_queue_free k + 1))) mod 10"
      using assms(1) ring_step [OF free] by (simp only: ring_inv_def)
    then have "ring_inv k'"
      using assms(1) free items by (simp add: ring_inv_def k')
    ultimately show ?thesis
      using assms(2) by (simp add: settled_def unread_def kbd_enabled_def csr_bits k')
  qed
  then show "pending k' = pending k" "settled k'" by simp_all
qed

definition key_code :: "u32 \<times> u32 \<Rightarrow> u32" where
  "key_code e = 0x10000 OR (push_bit 8 (if snd e = 0 then 1 else 0) OR fst e)"

definition press :: "u32 \<times> u32 \<Rightarrow> kbd \<times> intr \<Rightarrow> kbd \<times> intr" where
  "press e ks = kbd_key_event (fst e) (snd e) (fst ks) (snd ks)"

text \<open>The processor reads the scan code, which clears bit 5, and the next poll follows.\<close>

definition read_and_poll :: "kbd \<times> intr \<Rightarrow> kbd \<times> intr" where
  "read_and_poll ks = dequeue_key_event ((fst ks)\<lparr>iob_csr := iob_csr (fst ks) AND NOT 0x20\<rparr>) (snd ks)"

lemma press_pending:
  assumes "settled (fst ks)"
  shows "pending (fst (press e ks)) = take 11 (pending (fst ks) @ [key_code e]) \<and> settled (fst (press e ks))"
proof -
  obtain k s where ks: "ks = (k, s)" by (cases ks)
  have inv: "ring_inv k" "kbd_enabled k" "unread k \<or> queue_items k = []"
    using assms by (simp_all add: ks settled_def)
  show ?thesis
  proof (cases "unread k")
    case True
    let ?k = "fst (press e ks)" and ?v = "push_bit 8 (if snd e = 0 then 1 else 0) OR fst e"
    have press: "?k = fst (queue_key_event ?v k s)"
      using True by (simp add: press_def ks kbd_key_event_def Let_def csr_masks unread_def)
    show ?thesis
    proof (cases "key_queue_free k > 0")
      case free: True
      note q = queue_put_items [OF inv(1) free press]
      have "length (queue_items k) < 10" using free by (simp add: queue_items_def)
      then show ?thesis
        using q True inv by (simp add: pending_def unread_def settled_def kbd_enabled_def key_code_def ks)
    next
      case False
      then have "?k = k" using True press by (simp add: queue_key_event_def csr_masks unread_def)
      moreover have "length (queue_items k) = 10" using False by (simp add: queue_items_def)
      ultimately show ?thesis using assms True by (simp add: pending_def ks)
    qed
  next
    case False
    then have "queue_items k = []" using inv(3) by simp
    moreover have "fst (press e ks) = k\<lparr>kbd_key_scan := key_code e, iob_csr := iob_csr k OR 0x20\<rparr>"
      using False inv(2)
      by (simp add: press_def ks kbd_key_event_def Let_def csr_masks unread_def kbd_enabled_def key_code_def)
    moreover have "queue_items (k\<lparr>kbd_key_scan := a, iob_csr := b\<rparr>) = queue_items k"
      "ring_inv (k\<lparr>kbd_key_scan := a, iob_csr := b\<rparr>) = ring_inv k" for a b
      by (rule queue_items_cong ring_inv_cong; simp)+
    ultimately show ?thesis
      using False inv by (simp add: pending_def unread_def settled_def kbd_enabled_def csr_bits ks)
  qed
qed

lemma read_and_poll_pending:
  assumes "settled (fst ks)"
  shows "pending (fst (read_and_poll ks)) = tl (pending (fst ks)) \<and> settled (fst (read_and_poll ks))"
proof -
  let ?k = "(fst ks)\<lparr>iob_csr := iob_csr (fst ks) AND NOT 0x20\<rparr>"
  have items: "queue_items ?k = queue_items (fst ks)" by (rule queue_items_cong) simp_all
  have "ring_inv ?k = ring_inv (fst ks)" by (rule ring_inv_cong) simp_all
  then have inv: "ring_inv ?k" "kbd_enabled ?k"
    using assms by (simp_all add: settled_def kbd_enabled_def csr_bits_neg)
  have "pending ?k = tl (pending (fst ks))"
    using assms items by (auto simp: pending_def settled_def unread_def csr_bits_neg)
  then show ?thesis
    using dequeue_pending [OF inv, of _ "snd ks"] by (simp add: read_and_poll_def)
qed

interpretation keyboard: bounded_queue press read_and_poll "\<lambda>ks. pending (fst ks)" key_code 11 "\<lambda>ks. settled (fst ks)"
  by unfold_locales (simp_all add: press_pending read_and_poll_pending)

text \<open>
  C18. With its interrupt enabled the keyboard is a first-in first-out queue of eleven scan
  codes (the one in the register and ten in the ring) that drops a key which does not fit:
  for any sequence of key events and reads, each read followed by a poll, the codes not yet
  read are those of a list with the same operations.
\<close>

theorem keyboard_is_queue:
  assumes "settled k"
  shows "pending (fst (queue_ops press read_and_poll ops (k, s))) = list_ops key_code 11 ops (pending k)"
  using keyboard.ops_refine [of "(k, s)" ops] assms by simp

definition idle_kbd :: kbd where
  "idle_kbd = \<lparr>iob_csr = 4, kbd_key_scan = 0, okb_to_scancode = (\<lambda>i j. 0), key_queue = (\<lambda>i. 0),
     key_queue_optr = 0, key_queue_iptr = 0, key_queue_free = 10\<rparr>"

lemma idle_settled: "settled idle_kbd" "pending idle_kbd = []"
  using bit_exp_iff [of 2 2, where 'a = u32]
  by (simp_all add: idle_kbd_def settled_def ring_inv_def queue_items_def kbd_enabled_def pending_def
      unread_def bit_simps)

lemma keyboard_is_queue_witness:
  "pending (fst (queue_ops press read_and_poll [Put (0x20, 1), Put (0x21, 1), Get] (idle_kbd, \<lparr>interrupt_status_reg = 0x400, interrupt_pending_flag = 0\<rparr>))) = [key_code (0x21, 1)]"
  using keyboard_is_queue [OF idle_settled(1), of "[Put (0x20, 1), Put (0x21, 1), Get]" "\<lparr>interrupt_status_reg = 0x400, interrupt_pending_flag = 0\<rparr>"]
  by (simp add: idle_settled)

text \<open>
  Keys arrive in the order they were pressed: after \<open>n\<close> of up to eleven waiting keys have
  been read, the scan register holds the code of key \<open>n\<close>, marked unread.
\<close>

theorem keys_in_order:
  assumes "settled k" and "pending k = []" and "n < length es" and "n < 11"
  shows "kbd_key_scan (fst ((read_and_poll ^^ n) (fold press es (k, s)))) = key_code (es ! n) \<and>
    unread (fst ((read_and_poll ^^ n) (fold press es (k, s))))"
proof -
  let ?k = "fst ((read_and_poll ^^ n) (fold press es (k, s)))"
  have "pending (fst (fold press es (k, s))) = take 11 (map key_code es)" "settled (fst (fold press es (k, s)))"
    using keyboard.puts_items [of "(k, s)" es] assms(1,2) by simp_all
  then have k: "pending ?k = drop n (take 11 (map key_code es))" "settled ?k"
    using keyboard.gets_items [of "fold press es (k, s)" n] by simp_all
  then have "pending ?k \<noteq> []" "hd (pending ?k) = key_code (es ! n)"
    using assms(3,4) by (simp_all add: hd_drop_conv_nth)
  then show ?thesis using k(2) by (auto simp: pending_def settled_def split: if_splits)
qed

lemma keys_in_order_witness:
  "kbd_key_scan (fst ((read_and_poll ^^ 1) (fold press [(0x20, 1), (0x21, 1)] (idle_kbd, \<lparr>interrupt_status_reg = 0x400, interrupt_pending_flag = 0\<rparr>)))) = key_code (0x21, 1)"
  using keys_in_order [OF idle_settled, of 1 "[(0x20, 1), (0x21, 1)]" "\<lparr>interrupt_status_reg = 0x400, interrupt_pending_flag = 0\<rparr>"] by simp

subsection \<open>What the scan code table means\<close>

text \<open>The character the old keyboard table gives for a scan code, and the printable
  ASCII characters, each with 1 if a US keyboard types it with Shift.\<close>

definition lisp_char :: "u16 \<Rightarrow> u8" where
  "lisp_char code = (let r = kb_old_table ! unat (code AND 0x3F) in
     if code AND 0xC0 \<noteq> 0 then fst (snd r) else fst r)"

definition us_keys :: "(nat \<times> nat) list" where
  "us_keys = [
     (0x20, 0), (0x21, 1), (0x22, 1), (0x23, 1), (0x24, 1), (0x25, 1), (0x26, 1), (0x27, 0), (0x28, 1),
     (0x29, 1), (0x2A, 1), (0x2B, 1), (0x2C, 0), (0x2D, 0), (0x2E, 0), (0x2F, 0), (0x30, 0), (0x31, 0),
     (0x32, 0), (0x33, 0), (0x34, 0), (0x35, 0), (0x36, 0), (0x37, 0), (0x38, 0), (0x39, 0), (0x3A, 1),
     (0x3B, 0), (0x3C, 1), (0x3D, 0), (0x3E, 1), (0x3F, 1), (0x40, 1), (0x41, 1), (0x42, 1), (0x43, 1),
     (0x44, 1), (0x45, 1), (0x46, 1), (0x47, 1), (0x48, 1), (0x49, 1), (0x4A, 1), (0x4B, 1), (0x4C, 1),
     (0x4D, 1), (0x4E, 1), (0x4F, 1), (0x50, 1), (0x51, 1), (0x52, 1), (0x53, 1), (0x54, 1), (0x55, 1),
     (0x56, 1), (0x57, 1), (0x58, 1), (0x59, 1), (0x5A, 1), (0x5B, 0), (0x5C, 0), (0x5D, 0), (0x5E, 1),
     (0x5F, 1), (0x60, 0), (0x61, 0), (0x62, 0), (0x63, 0), (0x64, 0), (0x65, 0), (0x66, 0), (0x67, 0),
     (0x68, 0), (0x69, 0), (0x6A, 0), (0x6B, 0), (0x6C, 0), (0x6D, 0), (0x6E, 0), (0x6F, 0), (0x70, 0),
     (0x71, 0), (0x72, 0), (0x73, 0), (0x74, 0), (0x75, 0), (0x76, 0), (0x77, 0), (0x78, 0), (0x79, 0),
     (0x7A, 0), (0x7B, 1), (0x7C, 1), (0x7D, 1), (0x7E, 1)]"

text \<open>The two loops as look-ups in an association list, the last assignment winning.\<close>

definition assigned :: "(nat \<times> nat \<times> u16) list \<Rightarrow> (nat \<Rightarrow> nat \<Rightarrow> u16) \<Rightarrow> nat \<Rightarrow> nat \<Rightarrow> u16" where
  "assigned xs t i j =
     (case map_of (map (\<lambda>x. ((fst x, fst (snd x)), snd (snd x))) (rev xs)) (i, j) of Some v \<Rightarrow> v | None \<Rightarrow> t i j)"

lemma assigned_Nil [simp]: "assigned [] t = t"
  by (simp add: assigned_def fun_eq_iff)

lemma assigned_Cons:
  "assigned (x # xs) t = assigned xs (t(fst x := (t (fst x))(fst (snd x) := snd (snd x))))"
  by (auto simp: assigned_def fun_eq_iff map_add_def split: option.splits)

lemma okb_assign_assigned:
  "\<forall>x \<in> set xs. fst x < 256 \<and> fst (snd x) < 4 \<Longrightarrow> okb_assign xs t = Some (assigned xs t)"
  by (induction xs arbitrary: t) (simp_all add: okb_set_def assigned_Cons)

primrec walk_list :: "nat \<Rightarrow> (u8 \<times> u8 \<times> u8) list \<Rightarrow> (nat \<times> nat \<times> u16) list" where
  "walk_list i [] = []"
| "walk_list i (r # rs) = (unat (fst r), 0, of_nat i) # walk_list (Suc i) rs"

lemma u8_row: "unat (k :: u8) < 256"
  using unsigned_less [of k, where 'a = nat] by simp

lemma okb_walk_assigned: "okb_walk False i rs t = Some (assigned (walk_list i rs) t)"
proof (induction rs arbitrary: i t)
  case Nil
  then show ?case by simp
next
  case (Cons r rs)
  have "char_row False (fst r) = Some (unat (fst r))"
    by (simp add: char_row_def not_less)
  then show ?case
    using Cons u8_row [of "fst r"] by (simp add: okb_set_def assigned_Cons)
qed

definition us_table :: "nat \<Rightarrow> nat \<Rightarrow> u16" where
  "us_table = (let t1 = assigned (walk_list 0 kb_old_table) (\<lambda>i j. 0)
     in assigned us_layout (\<lambda>i. if i < 256 then (t1 i)(1 := t1 i 0 OR 0xC0) else t1 i))"

lemma okb_init_us_table: "okb_init False = Some us_table"
  using okb_assign_assigned [of us_layout]
  by (simp add: okb_init_def okb_walk_assigned us_table_def Let_def) (simp add: us_layout_def)

text \<open>The same look-ups, computed forwards.\<close>

primrec lookup_assigned :: "(nat \<times> nat \<times> u16) list \<Rightarrow> nat \<Rightarrow> nat \<Rightarrow> u16 \<Rightarrow> u16" where
  "lookup_assigned [] i j d = d"
| "lookup_assigned (x # xs) i j d =
     lookup_assigned xs i j (if fst x = i \<and> fst (snd x) = j then snd (snd x) else d)"

lemma assigned_lookup: "assigned xs t i j = lookup_assigned xs i j (t i j)"
  by (induction xs arbitrary: t) (auto simp: assigned_Cons)

lemma us_table_lookup:
  "c < 256 \<Longrightarrow> us_table c j = lookup_assigned us_layout c j
     (if j = 1 then lookup_assigned (walk_list 0 kb_old_table) c 0 0 OR 0xC0
      else lookup_assigned (walk_list 0 kb_old_table) c j 0)"
  by (simp add: us_table_def assigned_lookup Let_def)

lemma walk_table: "walk_list 0 kb_old_table = [(0x81, 0, 0), (0x84, 0, 1), (0x31, 0, 2), (0x32, 0, 3), (0x33, 0, 4), (0x34, 0, 5), (0x35, 0, 6), (0x36, 0, 7),
     (0x37, 0, 8), (0x38, 0, 9), (0x39, 0, 0xa), (0x30, 0, 0xb), (0x2D, 0, 0xc), (0x40, 0, 0xd), (0x5E, 0, 0xe), (0x88, 0, 0xf),
     (0x83, 0, 0x10), (0x82, 0, 0x11), (0x89, 0, 0x12), (0x1B, 0, 0x13), (0x71, 0, 0x14), (0x77, 0, 0x15), (0x65, 0, 0x16), (0x72, 0, 0x17),
     (0x74, 0, 0x18), (0x79, 0, 0x19), (0x75, 0, 0x1a), (0x69, 0, 0x1b), (0x6F, 0, 0x1c), (0x70, 0, 0x1d), (0x5B, 0, 0x1e), (0x5D, 0, 0x1f),
     (0x5C, 0, 0x20), (0x2F, 0, 0x21), (0xC, 0, 0x22), (0x8D, 0, 0x23), (0x8C, 0, 0x24), (0x8B, 0, 0x25), (0x87, 0, 0x26), (0x61, 0, 0x27),
     (0x73, 0, 0x28), (0x64, 0, 0x29), (0x66, 0, 0x2a), (0x67, 0, 0x2b), (0x68, 0, 0x2c), (0x6A, 0, 0x2d), (0x6B, 0, 0x2e), (0x6C, 0, 0x2f),
     (0x3B, 0, 0x30), (0x3A, 0, 0x31), (0x8D, 0, 0x32), (0x8A, 0, 0x33), (0x85, 0, 0x34), (0x7A, 0, 0x35), (0x78, 0, 0x36), (0x63, 0, 0x37),
     (0x76, 0, 0x38), (0x62, 0, 0x39), (0x6E, 0, 0x3a), (0x6D, 0, 0x3b), (0x2C, 0, 0x3c), (0x2E, 0, 0x3d), (0x2F, 0, 0x3e), (0x20, 0, 0x3f)]"
  by (simp add: kb_old_table_def)

lemma lookup_cong: "d = d' \<Longrightarrow> lookup_assigned xs i j d = lookup_assigned xs i j d'"
  by simp

lemmas us_table_code = us_table_lookup [unfolded walk_table us_layout_def]

lemma us_table_ascii:
  "list_all (\<lambda>k. lisp_char (us_table (fst k) (snd k)) = of_nat (fst k)) us_keys"
  unfolding us_keys_def list.pred_inject fst_conv snd_conv
  by (intro conjI TrueI; simp add: us_table_code kb_old_table_def lisp_char_def cong: lookup_cong)

text \<open>
  With an unsigned \<open>char\<close> the table is built without fault and is right: every printable
  ASCII character, typed on a US keyboard with or without Shift as it needs, becomes a scan
  code that the old keyboard table turns back into that character.
\<close>

theorem us_keyboard_types_ascii:
  "\<exists>k'. kbd_init False k = Some k' \<and>
     list_all (\<lambda>c. lisp_char (okb_to_scancode k' (fst c) (snd c)) = of_nat (fst c)) us_keys"
  using us_table_ascii by (simp add: kbd_init_def okb_init_us_table)

text \<open>
  With a signed \<open>char\<close>, as on x86, the very first key of the table (Break, 0201) is a
  negative row: the initialisation is defined only where \<open>char\<close> is unsigned.
\<close>

theorem kbd_init_needs_unsigned_char: "kbd_init char_signed k \<noteq> None \<longleftrightarrow> \<not> char_signed"
proof (cases char_signed)
  case True
  have "okb_init True = None"
    by (simp add: okb_init_def kb_old_table_def char_row_def Let_def)
  with True show ?thesis by (simp add: kbd_init_def)
next
  case False
  then show ?thesis by (simp add: kbd_init_def okb_init_us_table)
qed

subsection \<open>The invariant of the ring, interrupts on or off\<close>

lemma dequeue_ring_inv:
  assumes "ring_inv k" and "k' = fst (dequeue_key_event k s)"
  shows "ring_inv k'"
proof (cases "unread k \<or> key_queue_free k = 10")
  case True
  then have "k' = k"
    using assms(2) by (auto simp: dequeue_key_event_def csr_masks unread_def KEY_QUEUE_LEN_def)
  then show ?thesis using assms(1) by simp
next
  case False
  then have free: "key_queue_free k < 10" and "\<not> unread k" using assms(1) by (auto simp: ring_inv_def)
  let ?k = "k\<lparr>key_queue_iptr := (key_queue_iptr k + 1) mod 10, key_queue_free := key_queue_free k + 1\<rparr>"
  have items: "queue_items k = key_queue k (key_queue_iptr k mod 10) # queue_items ?k"
    by (rule queue_items_Cons [OF free])
  have "ring_inv ?k"
    using assms(1) free items ring_step [OF free, of "key_queue_iptr k"] by (simp add: ring_inv_def)
  moreover have "ring_inv k' = ring_inv ?k"
    using assms(2) free \<open>\<not> unread k\<close>
    by (intro ring_inv_cong) (auto simp: dequeue_key_event_def csr_masks unread_def KEY_QUEUE_LEN_def Let_def)
  ultimately show ?thesis by simp
qed

lemma dequeue_key_event_inv:
  "dequeue_key_event k s = (k', s') \<Longrightarrow> ring_inv k \<Longrightarrow> intr_inv s \<Longrightarrow> ring_inv k' \<and> intr_inv s'"
  using dequeue_ring_inv [of k k' s]
  by (auto simp: dequeue_key_event_def Let_def intr_ops_inv split: if_splits)

lemma kbd_csr_ring_inv: "ring_inv (k\<lparr>iob_csr := c\<rparr>) = ring_inv k" "ring_inv (k\<lparr>kbd_key_scan := v\<rparr>) = ring_inv k"
  by (rule ring_inv_cong; simp)+

lemma queue_key_event_inv:
  "queue_key_event ev k s = (k', s') \<Longrightarrow> ring_inv k \<Longrightarrow> intr_inv s \<Longrightarrow> ring_inv k' \<and> intr_inv s'"
  using queue_put_items(2) [of k k' ev s]
  by (auto simp: queue_key_event_def Let_def kbd_csr_ring_inv intr_ops_inv split: if_splits)

lemma kbd_key_event_inv:
  "kbd_key_event code down k s = (k', s') \<Longrightarrow> ring_inv k \<Longrightarrow> intr_inv s \<Longrightarrow> ring_inv k' \<and> intr_inv s'"
  by (auto simp: kbd_key_event_def Let_def kbd_csr_ring_inv intr_ops_inv
      dest!: queue_key_event_inv split: if_splits)

lemma process_key_inv:
  "process_key st0 ks down k s = (k', s') \<Longrightarrow> ring_inv k \<Longrightarrow> intr_inv s \<Longrightarrow> ring_inv k' \<and> intr_inv s'"
  by (auto simp: process_key_def Let_def dest!: kbd_key_event_inv split: if_splits option.splits prod.splits)

end
