(* ===== verification/Usim_Chaos.thy ===== *)
theory Usim_Chaos
  imports Usim_Interrupt
begin

section \<open>The Chaosnet interface (chaos.c)\<close>

text \<open>
  The two packet buffers hold 4096 16-bit words each. \<open>chaos_sent\<close> records the frames (a
  four-byte header and the packet) given to \<open>writev\<close> on the socket of the chaosd server.
  What the socket calls answer during one poll is an argument of \<open>chaos_poll\<close>.
\<close>

record chaos =
  chaos_csr :: u32
  chaos_addr :: u32
  chaos_bit_count :: u32
  chaos_lost_count :: u32
  chaos_xmit_buffer :: "u16 arr"
  chaos_xmit_buffer_size :: u32
  chaos_xmit_buffer_ptr :: u32
  chaos_rcv_buffer :: "u16 arr"
  chaos_rcv_buffer_ptr :: u32
  chaos_rcv_buffer_size :: u32
  chaos_rcv_buffer_empty :: u32
  chaos_fd :: u32
  chaos_need_reconnect :: u32
  reconnect_delay :: u32
  reconnect_time :: u32
  chaos_sent :: "u8 list list"

record sock =
  socket_ret :: int \<comment> \<open>\<open>socket\<close>: a descriptor, negative for an error\<close>
  bind_ret :: int
  chmod_ret :: int
  connect_ret :: int
  clock_time :: int \<comment> \<open>\<open>time(NULL)\<close>\<close>
  poll_ret :: int
  header_bytes :: "u8 list option" \<comment> \<open>first \<open>read\<close>: the bytes, \<open>None\<close> for an error\<close>
  data_bytes :: "u8 list option" \<comment> \<open>second \<open>read\<close>\<close>

definition CHAOS_BUF_WORDS :: nat where
  "CHAOS_BUF_WORDS = 4096"

definition u16_bytes :: "u16 \<Rightarrow> u8 list" where
  "u16_bytes w = [ucast w, ucast (drop_bit 8 w)]"

definition buffer_bytes :: "u16 arr \<Rightarrow> nat \<Rightarrow> u8 list" where
  "buffer_bytes b n = concat (map (\<lambda>i. u16_bytes (b i)) [0..<n])"

subsection \<open>The checksum\<close>

fun ch_sum :: "nat \<Rightarrow> u8 list \<Rightarrow> nat" where
  "ch_sum acc (a # b # rest) = ch_sum (acc + (push_bit 8 (unat a) OR unat b)) rest"
| "ch_sum acc [a] = acc + unat a"
| "ch_sum acc [] = acc"

text \<open>The loop \<open>while (sum >> 16)\<close>; it ends because the acc decreases.\<close>

function ch_fold :: "nat \<Rightarrow> nat" where
  "ch_fold acc =
    (if drop_bit 16 acc \<noteq> 0 then ch_fold ((acc AND 0xFFFF) + drop_bit 16 acc) else acc)"
  by pat_completeness auto

lemma low_half_nat: "(n :: nat) AND 0xFFFF = n mod 65536"
  using take_bit_eq_mask [of 16 n] by (simp add: take_bit_eq_mod mask_eq_exp_minus_1)

lemma ch_fold_decreases:
  "drop_bit 16 (acc :: nat) \<noteq> 0 \<Longrightarrow> (acc AND 0xFFFF) + drop_bit 16 acc < acc"
proof -
  assume "drop_bit 16 acc \<noteq> 0"
  then have "0 < acc div 65536" by (simp add: drop_bit_eq_div)
  with div_mult_mod_eq [of acc 65536] have "acc mod 65536 + acc div 65536 < acc" by linarith
  then show ?thesis by (simp add: low_half_nat drop_bit_eq_div)
qed

termination ch_fold
  by (relation "measure id") (use ch_fold_decreases in simp_all)

declare ch_fold.simps [simp del]

definition ch_checksum :: "u8 list \<Rightarrow> u16" where
  "ch_checksum bytes = NOT (of_nat (ch_fold (ch_sum 0 bytes)))"

subsection \<open>Receiving and transmitting\<close>

definition chaos_rx_pkt :: "chaos \<Rightarrow> intr \<Rightarrow> chaos \<times> intr" where
  "chaos_rx_pkt c0 s =
    (let c = c0\<lparr>chaos_rcv_buffer_ptr := 0,
                chaos_bit_count := chaos_rcv_buffer_size c0 * 2 * 8 - 1\<rparr> in
     if sint (chaos_rcv_buffer_size c) > 0 then
       (let c1 = c\<lparr>chaos_csr := chaos_csr c OR 0x8000\<rparr> in
        (c1, if chaos_csr c1 AND 0x10 \<noteq> 0 then assert_unibus_interrupt 0xB8 s else s))
     else (c, s))"

definition char_xmit_done_intr :: "chaos \<Rightarrow> intr \<Rightarrow> chaos \<times> intr" where
  "char_xmit_done_intr c s =
    (let c1 = c\<lparr>chaos_csr := chaos_csr c OR 0x80\<rparr> in
     (c1, if chaos_csr c1 AND 0x20 \<noteq> 0 then assert_unibus_interrupt 0xB8 s else s))"

definition chaos_loop_in :: "u32 \<Rightarrow> chaos \<Rightarrow> chaos" where
  "chaos_loop_in nbytes c =
     c\<lparr>chaos_rcv_buffer := (\<lambda>i. if 2 * i < unat nbytes then chaos_xmit_buffer c i else chaos_rcv_buffer c i),
       chaos_rcv_buffer_size := (nbytes + 1) div 2,
       chaos_rcv_buffer_empty := 0\<rparr>"

definition chaos_send_to_chaosd :: "u32 \<Rightarrow> chaos \<Rightarrow> intr \<Rightarrow> (chaos \<times> intr) option" where
  "chaos_send_to_chaosd nbytes c s =
    (if chaos_csr c AND 2 \<noteq> 0 then Some (chaos_rx_pkt (chaos_loop_in nbytes c) s)
     else do {
       let wcount = (nbytes + 1) div 2;
       dest_addr \<leftarrow> ld CHAOS_BUF_WORDS (chaos_xmit_buffer c) (unat (wcount - 3));
       let (c1, s1) = (if ucast dest_addr = chaos_addr c
                       then chaos_rx_pkt (chaos_loop_in nbytes c) s else (c, s));
       Some (if chaos_fd c1 \<noteq> 0
             then c1\<lparr>chaos_sent := chaos_sent c1 @
                [[ucast (drop_bit 8 nbytes), ucast nbytes, 1, 0]
                 @ buffer_bytes (chaos_xmit_buffer c1) (unat nbytes div 2)]\<rparr>
             else c1, s1)
     })"

definition chaos_xmit_pkt :: "chaos \<Rightarrow> intr \<Rightarrow> (chaos \<times> intr) option" where
  "chaos_xmit_pkt c s = do {
     let size0 = chaos_xmit_buffer_ptr c;
     b1 \<leftarrow> st CHAOS_BUF_WORDS (chaos_xmit_buffer c) (unat size0) (ucast (chaos_addr c));
     let size1 = size0 + 1;
     b2 \<leftarrow> st CHAOS_BUF_WORDS b1 (unat size1) (ch_checksum (buffer_bytes b1 (unat size1)));
     let size2 = size1 + 1;
     (c1, s1) \<leftarrow> chaos_send_to_chaosd (size2 * 2)
                  (c\<lparr>chaos_xmit_buffer := b2, chaos_xmit_buffer_size := size2\<rparr>) s;
     Some (char_xmit_done_intr (c1\<lparr>chaos_xmit_buffer_ptr := 0\<rparr>) s1)
   }"

definition chaos_get_bit_count :: "chaos \<Rightarrow> u32" where
  "chaos_get_bit_count c =
    (if sint (chaos_rcv_buffer_size c) > 0 then chaos_bit_count c else 0xFFF)"

definition chaos_get_rcv_buffer :: "chaos \<Rightarrow> (chaos \<times> u32) option" where
  "chaos_get_rcv_buffer c =
    (if sint (chaos_rcv_buffer_ptr c) < sint (chaos_rcv_buffer_size c) then do {
       v \<leftarrow> ld CHAOS_BUF_WORDS (chaos_rcv_buffer c) (unat (chaos_rcv_buffer_ptr c));
       let c1 = c\<lparr>chaos_rcv_buffer_ptr := chaos_rcv_buffer_ptr c + 1\<rparr>;
       Some (if chaos_rcv_buffer_ptr c1 = chaos_rcv_buffer_size c1
             then c1\<lparr>chaos_rcv_buffer_empty := 1\<rparr> else c1, ucast v)
     }
     else Some (c\<lparr>chaos_csr := chaos_csr c AND NOT 0x8000, chaos_rcv_buffer_size := 0\<rparr>, 0))"

definition chaos_put_xmit_buffer :: "u32 \<Rightarrow> chaos \<Rightarrow> chaos option" where
  "chaos_put_xmit_buffer v c = do {
     c1 \<leftarrow> (if sint (chaos_xmit_buffer_ptr c) < 4096 then do {
              b \<leftarrow> st CHAOS_BUF_WORDS (chaos_xmit_buffer c) (unat (chaos_xmit_buffer_ptr c)) (ucast v);
              Some (c\<lparr>chaos_xmit_buffer := b, chaos_xmit_buffer_ptr := chaos_xmit_buffer_ptr c + 1\<rparr>)
            }
            else Some c);
     Some (c1\<lparr>chaos_csr := chaos_csr c1 AND NOT 0x80\<rparr>)
   }"

definition chaos_get_csr :: "chaos \<Rightarrow> u32" where
  "chaos_get_csr c = chaos_csr c OR (push_bit 9 (chaos_lost_count c) AND 0xF)"

definition chaos_get_addr :: "chaos \<Rightarrow> u32" where
  "chaos_get_addr c = chaos_addr c"

definition chaos_force_reconect :: "chaos \<Rightarrow> chaos" where
  "chaos_force_reconect c = c\<lparr>chaos_fd := 0, chaos_need_reconnect := 1\<rparr>"

text \<open>
  The bits that a write of the CSR does not change: transmit done, lost count, CRC error,
  receive done, receiver clear.
\<close>

definition csr_sticky :: u32 where
  "csr_sticky = 0x80 OR 0x1E00 OR 0x4000 OR 0x8000 OR 8"

definition chaos_set_csr :: "u32 \<Rightarrow> chaos \<Rightarrow> intr \<Rightarrow> chaos \<times> intr" where
  "chaos_set_csr v0 c0 s0 =
    (let v = v0 AND 0xFFFF;
         c1 = c0\<lparr>chaos_csr := (chaos_csr c0 AND csr_sticky) OR (v AND NOT csr_sticky)\<rparr>;
         c2 = (if chaos_csr c1 AND 0x2000 \<noteq> 0
               then chaos_force_reconect
                 (c1\<lparr>chaos_rcv_buffer_size := 0, chaos_xmit_buffer_ptr := 0, chaos_lost_count := 0,
                     chaos_bit_count := 0, chaos_rcv_buffer_ptr := 0,
                     chaos_csr := (chaos_csr c1 AND NOT (0x2000 OR 0x8000)) OR 0x80,
                     reconnect_delay := 200\<rparr>)
               else c1);
         c3 = (if v AND 8 \<noteq> 0
               then c2\<lparr>chaos_csr := chaos_csr c2 AND NOT 0x8000, chaos_lost_count := 0,
                       chaos_bit_count := 0, chaos_rcv_buffer_ptr := 0, chaos_rcv_buffer_size := 0\<rparr>
               else c2);
         c4 = (if v AND (0x100 OR 0x80) \<noteq> 0
               then c3\<lparr>chaos_csr := (chaos_csr c3 AND NOT 0x40) OR 0x80, chaos_xmit_buffer_ptr := 0\<rparr>
               else c3);
         (c5, s5) =
           (if chaos_csr c4 AND 0x10 \<noteq> 0 then
              (let c = (if chaos_rcv_buffer_empty c4 \<noteq> 0
                        then c4\<lparr>chaos_rcv_buffer_ptr := 0, chaos_rcv_buffer_size := 0\<rparr> else c4)
               in if sint (chaos_rcv_buffer_size c) > 0 then chaos_rx_pkt c s0 else (c, s0))
            else (c4, s0))
     in (if chaos_csr c5 AND 0x20 \<noteq> 0 then c5\<lparr>chaos_csr := chaos_csr c5 OR 0x80\<rparr> else c5, s5))"

subsection \<open>The connection to the server\<close>

text \<open>
  The names of the sockets (a client's own under its process number, the server's) only go to the system calls;
  the size of the socket's buffer, which is set last, changes nothing here.
\<close>

definition chaos_connect_to_server :: "sock \<Rightarrow> chaos \<Rightarrow> chaos \<times> int" where
  "chaos_connect_to_server w c =
    (if socket_ret w < 0 then (c\<lparr>chaos_fd := 0\<rparr>, -1)
     else let c1 = c\<lparr>chaos_fd := word_of_int (socket_ret w)\<rparr> in
       if bind_ret w < 0 then (c1, -1)
       else if chmod_ret w < 0 then (c1, -1)
       else if connect_ret w < 0 then (c1, -1)
       else (c1, 0))"

definition chaos_init :: "sock \<Rightarrow> chaos \<Rightarrow> chaos \<times> int" where
  "chaos_init w c =
    (let (c1, r) = chaos_connect_to_server w c in
     if r \<noteq> 0 then (c1\<lparr>chaos_fd := 0\<rparr>, -1) else (c1\<lparr>chaos_rcv_buffer_empty := 1\<rparr>, 0))"

definition chaos_reconnect :: "sock \<Rightarrow> chaos \<Rightarrow> chaos option" where
  "chaos_reconnect w c0 =
    (let c = c0\<lparr>reconnect_delay := reconnect_delay c0 + 1\<rparr> in
     if sint (reconnect_delay c) < 200 then Some c
     else let c = c\<lparr>reconnect_delay := 0\<rparr> in do {
       next_try \<leftarrow> (if reconnect_time c \<noteq> 0 then c_add (reconnect_time c) 5 else Some 0);
       if reconnect_time c \<noteq> 0 \<and> clock_time w < sint next_try then Some c
       else let (c1, r) = chaos_init w (c\<lparr>reconnect_time := word_of_int (clock_time w)\<rparr>) in
         Some (if r = 0 then c1\<lparr>chaos_need_reconnect := 0, reconnect_delay := 0\<rparr> else c1)
     })"

text \<open>\<open>overlay_bytes bs b\<close>: the buffer after the bytes \<open>bs\<close> are read into its start.\<close>

definition overlay_bytes :: "u8 list \<Rightarrow> u16 arr \<Rightarrow> u16 arr" where
  "overlay_bytes bs b i =
    (let lo = (if 2 * i < length bs then ucast (bs ! (2 * i)) else b i AND 0xFF);
         hi = (if 2 * i + 1 < length bs then push_bit 8 (ucast (bs ! (2 * i + 1))) else b i AND 0xFF00)
     in hi OR lo)"

definition chaos_rx_data :: "u8 list \<Rightarrow> chaos \<Rightarrow> intr \<Rightarrow> (chaos \<times> intr) option" where
  "chaos_rx_data bs c0 s = do {
     let c = c0\<lparr>chaos_rcv_buffer := overlay_bytes bs (chaos_rcv_buffer c0)\<rparr>;
     if bs \<noteq> [] then do {
       let nwords = (of_nat (length bs) + 1) div 2;
       dest_addr \<leftarrow> ld CHAOS_BUF_WORDS (chaos_rcv_buffer c) (unat (nwords - 3));
       Some (if ucast dest_addr \<noteq> chaos_addr c
             then (c\<lparr>chaos_rcv_buffer_size := 0, chaos_rcv_buffer_empty := 1\<rparr>, s)
             else chaos_rx_pkt (c\<lparr>chaos_rcv_buffer_size := nwords, chaos_rcv_buffer_empty := 0\<rparr>) s)
     }
     else Some (c, s)
   }"

definition chaos_poll :: "sock \<Rightarrow> chaos \<Rightarrow> intr \<Rightarrow> (chaos \<times> intr \<times> int) option" where
  "chaos_poll w c0 s = do {
     c \<leftarrow> (if chaos_need_reconnect c0 \<noteq> 0 then chaos_reconnect w c0 else Some c0);
     if chaos_fd c = 0 then Some (c, s, 0)
     else if poll_ret w < 0 then Some (c\<lparr>chaos_need_reconnect := 1\<rparr>, s, -1)
     else if poll_ret w = 0 then Some (c, s, 0)
     else if chaos_rcv_buffer_empty c = 0 \<and> chaos_csr c AND 0x8000 \<noteq> 0 then Some (c, s, 0)
     else case header_bytes w of
       None \<Rightarrow> Some (chaos_force_reconect c, s, -1)
     | Some [] \<Rightarrow> Some (chaos_force_reconect c, s, -1)
     | Some [x] \<Rightarrow> None
     | Some (x # y # rest) \<Rightarrow>
         (let len = unat x * 256 + unat y in
          if len > 8192 then Some (chaos_force_reconect c, s, -1)
          else case data_bytes w of
            None \<Rightarrow> Some (chaos_force_reconect c, s, -1)
          | Some bs \<Rightarrow> do {
              (c1, s1) \<leftarrow> chaos_rx_data (take len bs) c s;
              Some (c1, s1, 0)
            })
   }"

subsection \<open>The checksum is the Internet checksum\<close>

lemma ch_fold_mod: "ch_fold n mod 65535 = n mod 65535 \<and> ch_fold n < 65536"
proof (induction n rule: ch_fold.induct)
  case (1 n)
  show ?case
  proof (cases "drop_bit 16 n = 0")
    case True
    then show ?thesis by (simp add: ch_fold.simps [of n] drop_bit_eq_div div_eq_0_iff)
  next
    case False
    have "n = n mod 65536 + n div 65536 + 65535 * (n div 65536)"
      using div_mult_mod_eq [of n 65536] by linarith
    then have "(n mod 65536 + n div 65536) mod 65535 = n mod 65535"
      by (metis mod_mult_self2)
    then have "((n AND 0xFFFF) + drop_bit 16 n) mod 65535 = n mod 65535"
      by (simp add: low_half_nat drop_bit_eq_div)
    then show ?thesis
      using 1 [OF False] False by (simp add: ch_fold.simps [of n])
  qed
qed

lemma unat_not16: "unat (NOT w :: u16) = 65535 - unat w"
proof -
  have "NOT w = - 1 - w" by (simp add: not_eq_complement)
  moreover have "unat (- 1 - w) = unat (- 1 :: u16) - unat w"
    by (rule unat_sub [OF word_order.extremum])
  ultimately show ?thesis by (simp add: unsigned_minus_1_eq_mask mask_eq_exp_minus_1)
qed

lemma unat_of_nat16: "n < 65536 \<Longrightarrow> unat (of_nat n :: u16) = n"
  by (simp add: unsigned_of_nat take_bit_nat_eq_self)

text \<open>
  The checksum is a one's complement checksum (RFC 1071): added to the sum of the packet's
  16-bit big-endian words it gives a multiple of 65535.
\<close>

theorem checksum_complements_sum: "(ch_sum 0 bytes + unat (ch_checksum bytes)) mod 65535 = 0"
proof -
  let ?f = "ch_fold (ch_sum 0 bytes)"
  have f: "?f mod 65535 = ch_sum 0 bytes mod 65535" "?f < 65536" using ch_fold_mod by simp_all
  have "unat (ch_checksum bytes) = 65535 - ?f"
    using f(2) by (simp add: ch_checksum_def unat_not16 unat_of_nat16)
  then have "(?f + unat (ch_checksum bytes)) mod 65535 = 0" using f(2) by simp
  then show ?thesis using f(1) by (metis mod_add_cong)
qed

subsection \<open>Safety of the transmitter\<close>

lemma unat_plus_small: "unat (w :: u32) + unat v < 2 ^ 32 \<Longrightarrow> unat (w + v) = unat w + unat v"
  by (simp add: unat_word_ariths)

text \<open>The word count that \<open>chaos_send_to_chaosd\<close> finds for \<open>n\<close> words.\<close>

lemma word_count:
  assumes "unat (n :: u32) \<le> 4096"
  shows "unat ((n * 2 + 1) div 2) = unat n" "unat (n * 2) = 2 * unat n"
proof -
  have "unat (n * 2) = 2 * unat n" using assms by (simp add: unat_word_ariths)
  then show "unat (n * 2) = 2 * unat n" "unat ((n * 2 + 1) div 2) = unat n"
    using assms by (simp_all add: unat_word_ariths unat_div)
qed

lemma unat_minus_small: "k \<le> unat (n :: u32) \<Longrightarrow> k < 2 ^ 32 \<Longrightarrow> unat (n - of_nat k) = unat n - k"
  by (subst unat_sub) (simp_all add: word_le_nat_alt unsigned_of_nat take_bit_nat_eq_self)

definition loop_back :: "chaos \<Rightarrow> bool" where
  "loop_back c \<longleftrightarrow> bit (chaos_csr c) 1"

lemma loop_back_mask: "(w :: u32) AND 2 = 0 \<longleftrightarrow> \<not> bit w 1"
  using and_exp_eq_0_iff_not_bit [of w 1] by simp

text \<open>
  The packet with the source address and the checksum appended, as \<open>chaos_xmit_pkt\<close> builds
  it in place.
\<close>

definition packet_of :: "chaos \<Rightarrow> u16 arr" where
  "packet_of c =
    (let p = unat (chaos_xmit_buffer_ptr c);
         b = (chaos_xmit_buffer c)(p := ucast (chaos_addr c))
     in b(Suc p := ch_checksum (buffer_bytes b (Suc p))))"

lemma chaos_xmit_pkt_build:
  assumes "unat (chaos_xmit_buffer_ptr c) \<le> 4094"
  shows "chaos_xmit_pkt c s = do {
     (c1, s1) \<leftarrow> chaos_send_to_chaosd ((chaos_xmit_buffer_ptr c + 2) * 2)
                  (c\<lparr>chaos_xmit_buffer := packet_of c, chaos_xmit_buffer_size := chaos_xmit_buffer_ptr c + 2\<rparr>) s;
     Some (char_xmit_done_intr (c1\<lparr>chaos_xmit_buffer_ptr := 0\<rparr>) s1)
   }"
proof -
  have "unat (chaos_xmit_buffer_ptr c + 1) = Suc (unat (chaos_xmit_buffer_ptr c))"
    using assms by (subst unat_plus_small) simp_all
  then show ?thesis
    using assms by (simp add: chaos_xmit_pkt_def CHAOS_BUF_WORDS_def packet_of_def Let_def add.assoc)
qed

lemma chaos_xmit_pkt_long:
  assumes "4095 \<le> unat (chaos_xmit_buffer_ptr c)"
  shows "chaos_xmit_pkt c s = None"
proof (cases "unat (chaos_xmit_buffer_ptr c) < 4096")
  case True
  then have "unat (chaos_xmit_buffer_ptr c + 1) = 4096"
    using assms by (subst unat_plus_small) simp_all
  then show ?thesis by (simp add: chaos_xmit_pkt_def CHAOS_BUF_WORDS_def Let_def bind_eq_None_conv)
next
  case False
  then show ?thesis by (simp add: chaos_xmit_pkt_def CHAOS_BUF_WORDS_def)
qed

lemma chaos_xmit_some:
  "chaos_xmit_pkt c s \<noteq> None \<longleftrightarrow> unat (chaos_xmit_buffer_ptr c) \<le> 4094 \<and>
     (loop_back c \<or> chaos_xmit_buffer_ptr c \<noteq> 0)"
proof (cases "unat (chaos_xmit_buffer_ptr c) \<le> 4094")
  case True
  let ?n = "chaos_xmit_buffer_ptr c + 2"
  have n: "unat ?n = unat (chaos_xmit_buffer_ptr c) + 2"
    using True by (subst unat_plus_small) simp_all
  have "(?n * 2 + 1) div 2 = ?n"
    using word_count(1) [of ?n] n True by (simp add: word_unat_eq_iff)
  then have "(?n * 2 + 1) div 2 - 3 = chaos_xmit_buffer_ptr c - 1" by simp
  moreover have "unat (chaos_xmit_buffer_ptr c - 1) < 4096 \<longleftrightarrow> chaos_xmit_buffer_ptr c \<noteq> 0"
  proof (cases "chaos_xmit_buffer_ptr c = 0")
    case False
    then show ?thesis
      using True unat_minus_small [of 1 "chaos_xmit_buffer_ptr c"] by (simp add: Suc_le_eq unat_gt_0)
  qed (simp add: unsigned_minus_1_eq_mask mask_eq_exp_minus_1)
  ultimately have idx: "unat ((?n * 2 + 1) div 2 - 3) < 4096 \<longleftrightarrow> chaos_xmit_buffer_ptr c \<noteq> 0"
    by metis
  show ?thesis
    using True idx
    by (auto simp: chaos_xmit_pkt_build chaos_send_to_chaosd_def loop_back_mask loop_back_def
        CHAOS_BUF_WORDS_def Let_def split: prod.splits bind_splits)
next
  case False
  then show ?thesis using chaos_xmit_pkt_long [of c s] by simp
qed

text \<open>
  C39. Transmitting touches only the packet buffer exactly when the processor has put at most
  4094 words into it and, unless the interface is in loop-back mode, at least one: with none,
  the destination address is read from before the buffer.
\<close>

theorem chaos_xmit_defined:
  "chaos_xmit_pkt c s \<noteq> None \<longleftrightarrow> unat (chaos_xmit_buffer_ptr c) \<le> 4094 \<and>
     (loop_back c \<or> 0 < unat (chaos_xmit_buffer_ptr c))"
  using chaos_xmit_some [of c s] by (simp add: unat_gt_0)

subsection \<open>A packet in loop-back mode comes back\<close>

primrec put_words :: "u32 list \<Rightarrow> chaos \<Rightarrow> chaos option" where
  "put_words [] c = Some c"
| "put_words (w # ws) c = do { c1 \<leftarrow> chaos_put_xmit_buffer w c; put_words ws c1 }"

primrec get_words :: "nat \<Rightarrow> chaos \<Rightarrow> (chaos \<times> u32 list) option" where
  "get_words 0 c = Some (c, [])"
| "get_words (Suc n) c = do {
     (c1, v) \<leftarrow> chaos_get_rcv_buffer c;
     (c2, vs) \<leftarrow> get_words n c1;
     Some (c2, v # vs)
   }"

lemma sint_small: "unat (w :: u32) \<le> 4096 \<Longrightarrow> sint w = int (unat w)"
  by (rule sint_eq_unat) simp

lemma put_words_ok:
  assumes "unat (chaos_xmit_buffer_ptr c) + length ws \<le> 4096"
  shows "\<exists>c'. put_words ws c = Some c' \<and>
    unat (chaos_xmit_buffer_ptr c') = unat (chaos_xmit_buffer_ptr c) + length ws \<and>
    (\<forall>i < length ws. chaos_xmit_buffer c' (unat (chaos_xmit_buffer_ptr c) + i) = ucast (ws ! i)) \<and>
    (\<forall>i < unat (chaos_xmit_buffer_ptr c). chaos_xmit_buffer c' i = chaos_xmit_buffer c i) \<and>
    chaos_addr c' = chaos_addr c \<and> loop_back c' = loop_back c"
  using assms
proof (induction ws arbitrary: c)
  case Nil
  then show ?case by simp
next
  case (Cons w ws)
  let ?p = "unat (chaos_xmit_buffer_ptr c)"
  have p: "?p < 4096" using Cons.prems by simp
  then have "sint (chaos_xmit_buffer_ptr c) < 4096" using sint_small [of "chaos_xmit_buffer_ptr c"] by linarith
  then obtain c1 where c1: "chaos_put_xmit_buffer w c = Some c1"
    and c1_eq: "c1 = c\<lparr>chaos_xmit_buffer := (chaos_xmit_buffer c)(?p := ucast w),
       chaos_xmit_buffer_ptr := chaos_xmit_buffer_ptr c + 1, chaos_csr := chaos_csr c AND NOT 0x80\<rparr>"
    using p by (simp add: chaos_put_xmit_buffer_def CHAOS_BUF_WORDS_def)
  have p1: "unat (chaos_xmit_buffer_ptr c1) = Suc ?p"
    using p by (simp add: c1_eq unat_plus_small)
  have lb: "loop_back c1 = loop_back c" by (simp add: c1_eq loop_back_def bit_simps)
  obtain c' where c': "put_words ws c1 = Some c'" "unat (chaos_xmit_buffer_ptr c') = Suc ?p + length ws"
    "\<forall>i < length ws. chaos_xmit_buffer c' (Suc ?p + i) = ucast (ws ! i)"
    "\<forall>i < Suc ?p. chaos_xmit_buffer c' i = chaos_xmit_buffer c1 i"
    "chaos_addr c' = chaos_addr c1" "loop_back c' = loop_back c1"
    using Cons.IH [of c1] Cons.prems p1 by auto
  have "chaos_xmit_buffer c' (?p + i) = ucast ((w # ws) ! i)" if "i < length (w # ws)" for i
    using that c'(3,4) by (cases i) (simp_all add: c1_eq)
  moreover have "chaos_addr c' = chaos_addr c" "\<forall>i < ?p. chaos_xmit_buffer c' i = chaos_xmit_buffer c i"
    using c'(4,5) by (simp_all add: c1_eq)
  ultimately show ?case using c1 c'(1,2,6) lb by auto
qed

lemma get_words_ok:
  assumes "unat (chaos_rcv_buffer_size c) \<le> 4096"
    and "unat (chaos_rcv_buffer_ptr c) + n \<le> unat (chaos_rcv_buffer_size c)"
  shows "\<exists>c'. get_words n c = Some (c', map (\<lambda>i. ucast (chaos_rcv_buffer c (unat (chaos_rcv_buffer_ptr c) + i))) [0..<n])"
  using assms
proof (induction n arbitrary: c)
  case 0
  then show ?case by simp
next
  case (Suc n)
  let ?p = "unat (chaos_rcv_buffer_ptr c)"
  have p: "?p < unat (chaos_rcv_buffer_size c)" "?p < 4096" using Suc.prems by simp_all
  then have "sint (chaos_rcv_buffer_ptr c) < sint (chaos_rcv_buffer_size c)"
    using Suc.prems(1) by (subst sint_less_iff_unat) simp_all
  then obtain c1 where c1: "chaos_get_rcv_buffer c = Some (c1, ucast (chaos_rcv_buffer c ?p))"
    "chaos_rcv_buffer_ptr c1 = chaos_rcv_buffer_ptr c + 1" "chaos_rcv_buffer_size c1 = chaos_rcv_buffer_size c"
    "chaos_rcv_buffer c1 = chaos_rcv_buffer c"
    using p(2) by (simp add: chaos_get_rcv_buffer_def CHAOS_BUF_WORDS_def Let_def)
  have p1: "unat (chaos_rcv_buffer_ptr c1) = Suc ?p" using p c1(2) by (simp add: unat_plus_small)
  obtain c' where c': "get_words n c1 = Some (c', map (\<lambda>i. ucast (chaos_rcv_buffer c (Suc ?p + i))) [0..<n])"
    using Suc.IH [of c1] Suc.prems p1 c1 by auto
  have "map f [0..<Suc n] = f 0 # map (\<lambda>i. f (Suc i)) [0..<n]" for f :: "nat \<Rightarrow> u32"
    by (rule map_upt_Suc)
  with c1(1) c' show ?case by (simp del: upt_Suc)
qed

lemma chaos_rx_pkt_fields:
  assumes "0 < sint (chaos_rcv_buffer_size c)"
  shows "chaos_rcv_buffer (fst (chaos_rx_pkt c s)) = chaos_rcv_buffer c"
    "chaos_rcv_buffer_size (fst (chaos_rx_pkt c s)) = chaos_rcv_buffer_size c"
    "chaos_rcv_buffer_ptr (fst (chaos_rx_pkt c s)) = 0" "bit (chaos_csr (fst (chaos_rx_pkt c s))) 15"
  using assms by (simp_all add: chaos_rx_pkt_def Let_def bit_simps)

lemma xmit_done_fields:
  "chaos_rcv_buffer (fst (char_xmit_done_intr c s)) = chaos_rcv_buffer c"
  "chaos_rcv_buffer_size (fst (char_xmit_done_intr c s)) = chaos_rcv_buffer_size c"
  "chaos_rcv_buffer_ptr (fst (char_xmit_done_intr c s)) = chaos_rcv_buffer_ptr c"
  "bit (chaos_csr (fst (char_xmit_done_intr c s))) 15 \<longleftrightarrow> bit (chaos_csr c) 15"
  "bit (chaos_csr (fst (char_xmit_done_intr c s))) 7"
  by (simp_all add: char_xmit_done_intr_def Let_def bit_simps)

lemma chaos_xmit_pkt_loop:
  assumes "unat (chaos_xmit_buffer_ptr c) \<le> 4094" and "loop_back c"
    and "r = chaos_rx_pkt (chaos_loop_in ((chaos_xmit_buffer_ptr c + 2) * 2)
       (c\<lparr>chaos_xmit_buffer := packet_of c, chaos_xmit_buffer_size := chaos_xmit_buffer_ptr c + 2\<rparr>)) s"
  shows "chaos_xmit_pkt c s = Some (char_xmit_done_intr ((fst r)\<lparr>chaos_xmit_buffer_ptr := 0\<rparr>) (snd r))"
  unfolding chaos_xmit_pkt_build [OF assms(1)] chaos_send_to_chaosd_def assms(3)
  using assms(2) by (simp add: loop_back_def loop_back_mask split_beta)

lemma low_half_word: "ucast (ucast w :: u16) = w AND (0xFFFF :: u32)"
proof -
  have "w AND 0xFFFF = w AND mask 16" by (simp only: mask_num)
  then show ?thesis by (auto intro!: bit_word_eqI simp: bit_simps)
qed

text \<open>
  C34. Loop-back: the words put into an empty transmit buffer, followed by this host's address
  and the checksum, are exactly what is read back after transmitting; and the receiver says
  that a packet is there.
\<close>

theorem loop_back_returns_packet:
  assumes "loop_back c" and "chaos_xmit_buffer_ptr c = 0" and "length ws \<le> 4094"
  shows "\<exists>c1 c2 s2 c3 b. put_words ws c = Some c1 \<and> chaos_xmit_pkt c1 s = Some (c2, s2) \<and>
    bit (chaos_csr c2) 15 \<and> bit (chaos_csr c2) 7 \<and>
    get_words (length ws + 2) c2 =
      Some (c3, map (\<lambda>w. w AND 0xFFFF) ws @ [chaos_addr c AND 0xFFFF, ucast (ch_checksum (buffer_bytes b (length ws + 1)))]) \<and>
    (\<forall>i < length ws. b i = ucast (ws ! i)) \<and> b (length ws) = ucast (chaos_addr c)"
proof -
  let ?n = "length ws"
  have "unat (chaos_xmit_buffer_ptr c) + ?n \<le> 4096" using assms(2,3) by simp
  from put_words_ok [OF this] obtain c1 where c1: "put_words ws c = Some c1" "unat (chaos_xmit_buffer_ptr c1) = ?n"
    "\<forall>i < ?n. chaos_xmit_buffer c1 i = ucast (ws ! i)" "chaos_addr c1 = chaos_addr c" "loop_back c1"
    using assms(1,2) by auto
  let ?m = "chaos_xmit_buffer_ptr c1 + 2" and ?b = "packet_of c1"
  have m: "unat ?m = ?n + 2" using c1(2) assms(3) by (subst unat_plus_small) simp_all
  define cb where "cb = chaos_loop_in (?m * 2) (c1\<lparr>chaos_xmit_buffer := ?b, chaos_xmit_buffer_size := ?m\<rparr>)"
  have size: "unat (chaos_rcv_buffer_size cb) = ?n + 2" "chaos_rcv_buffer_size cb = (?m * 2 + 1) div 2"
    using word_count(1) [of ?m] m assms(3) by (simp_all add: cb_def chaos_loop_in_def)
  have "unat (?m * 2) = 2 * (?n + 2)" using word_count(2) [of ?m] m assms(3) by simp
  then have rcv: "\<forall>i < ?n + 2. chaos_rcv_buffer cb i = ?b i"
    by (simp add: cb_def chaos_loop_in_def)
  have pos: "0 < sint (chaos_rcv_buffer_size cb)" using size(1) assms(3) sint_small [of "chaos_rcv_buffer_size cb"] by linarith
  define r where "r = chaos_rx_pkt cb s"
  define x where "x = char_xmit_done_intr ((fst r)\<lparr>chaos_xmit_buffer_ptr := 0\<rparr>) (snd r)"
  obtain c2 s2 where xs: "x = (c2, s2)" by (cases x)
  have "chaos_xmit_pkt c1 s = Some x"
    unfolding x_def using c1(2,5) assms(3) by (intro chaos_xmit_pkt_loop) (simp_all add: r_def cb_def)
  then have x: "chaos_xmit_pkt c1 s = Some (c2, s2)" by (simp add: xs)
  have "c2 = fst x" by (simp add: xs)
  then have c2: "chaos_rcv_buffer c2 = chaos_rcv_buffer cb" "chaos_rcv_buffer_size c2 = chaos_rcv_buffer_size cb"
    "chaos_rcv_buffer_ptr c2 = 0" "bit (chaos_csr c2) 15" "bit (chaos_csr c2) 7"
    using chaos_rx_pkt_fields [OF pos, of s] by (simp_all add: x_def r_def xmit_done_fields)
  obtain c3 where c3: "get_words (?n + 2) c2 = Some (c3, map (\<lambda>i. ucast (chaos_rcv_buffer c2 i)) [0..<?n + 2])"
    using get_words_ok [of c2 "?n + 2"] c2(2,3) size(1) assms(3) by auto
  define b where "b = (chaos_xmit_buffer c1)(?n := ucast (chaos_addr c) :: u16)"
  have b: "?b = b(Suc ?n := ch_checksum (buffer_bytes b (Suc ?n)))"
    by (simp add: packet_of_def Let_def c1 b_def)
  have start: "map (\<lambda>i. ucast (?b i)) [0..<?n] = map (\<lambda>w. w AND 0xFFFF) ws"
    using c1(3) by (intro nth_equalityI) (simp_all add: b b_def low_half_word)
  have last_two: "ucast (?b ?n) = chaos_addr c AND 0xFFFF" "?b (Suc ?n) = ch_checksum (buffer_bytes b (?n + 1))"
    by (simp_all add: b b_def c1(4) low_half_word)
  have "map (\<lambda>i. ucast (chaos_rcv_buffer c2 i)) [0..<?n + 2] = map (\<lambda>i. ucast (?b i)) [0..<?n + 2]"
    using rcv c2(1) by simp
  also have "\<dots> = map (\<lambda>i. ucast (?b i)) ([0..<?n] @ [?n, Suc ?n])"
    by (simp add: numeral_2_eq_2)
  also have "\<dots> = map (\<lambda>w. w AND 0xFFFF) ws @ [chaos_addr c AND 0xFFFF, ucast (ch_checksum (buffer_bytes b (?n + 1))) :: u32]"
    unfolding map_append start list.map last_two ..
  finally have got: "map (\<lambda>i. ucast (chaos_rcv_buffer c2 i)) [0..<?n + 2] =
     map (\<lambda>w. w AND 0xFFFF) ws @ [chaos_addr c AND 0xFFFF, ucast (ch_checksum (buffer_bytes b (?n + 1))) :: u32]" .
  have "\<forall>i < ?n. b i = ucast (ws ! i)" "b ?n = ucast (chaos_addr c)"
    using c1(3,4) by (simp_all add: b_def)
  then show ?thesis using c1(1) x c2(4,5) c3 unfolding got by blast
qed

definition fresh_chaos :: chaos where
  "fresh_chaos = \<lparr>chaos_csr = 2, chaos_addr = 0x101, chaos_bit_count = 0, chaos_lost_count = 0,
     chaos_xmit_buffer = (\<lambda>i. 0), chaos_xmit_buffer_size = 0, chaos_xmit_buffer_ptr = 0,
     chaos_rcv_buffer = (\<lambda>i. 0), chaos_rcv_buffer_ptr = 0, chaos_rcv_buffer_size = 0,
     chaos_rcv_buffer_empty = 1, chaos_fd = 0, chaos_need_reconnect = 0, reconnect_delay = 0,
     reconnect_time = 0, chaos_sent = []\<rparr>"

lemma loop_back_returns_packet_witness:
  "\<exists>c1 c2 s2 c3 v. put_words [0x1234, 0x10005] fresh_chaos = Some c1 \<and> chaos_xmit_pkt c1 \<lparr>interrupt_status_reg = 0x400, interrupt_pending_flag = 0\<rparr> = Some (c2, s2) \<and>
     get_words 4 c2 = Some (c3, [0x1234, 5, 0x101, v])"
proof -
  have "loop_back fresh_chaos"
    using bit_exp_iff [of 1 1, where 'a = u32] by (simp add: fresh_chaos_def loop_back_def)
  from loop_back_returns_packet [OF this, of "[0x1234, 0x10005]" "\<lparr>interrupt_status_reg = 0x400, interrupt_pending_flag = 0\<rparr>"] show ?thesis
    by (auto simp: fresh_chaos_def eval_nat_numeral simp del: get_words.simps put_words.simps)
qed

subsection \<open>Receiving from the server\<close>

lemma received_words:
  assumes "length (bs :: u8 list) \<le> 8192"
  shows "unat ((of_nat (length bs) + 1 :: u32) div 2) = (length bs + 1) div 2"
proof -
  have "unat (of_nat (length bs) :: u32) = length bs" using assms by (intro unat_of_nat_small) simp
  then have "unat (of_nat (length bs) + 1 :: u32) = length bs + 1"
    using assms by (subst unat_plus_small) simp_all
  then show ?thesis by (simp add: unat_div)
qed

lemma minus_small_out:
  assumes "unat (n :: u32) < k" and "k \<le> 2 ^ 31"
  shows "\<not> unat (n - of_nat k) < 4096"
proof -
  have "unat (of_nat k :: u32) = k"
    using assms(2) by (simp add: unsigned_of_nat take_bit_nat_eq_self)
  then show ?thesis using assms by (simp add: unat_sub_if_size word_size)
qed

text \<open>
  A packet of at most 8192 bytes from the server is looked at without leaving the
  buffer exactly when it is empty or has at least five bytes (three words): the destination
  is taken from the third word from the end. A packet for another host leaves the buffer
  marked empty and raises no interrupt.
\<close>

theorem chaos_rx_data_defined:
  assumes "length bs \<le> 8192"
  shows "(chaos_rx_data bs c s \<noteq> None \<longleftrightarrow> bs = [] \<or> 5 \<le> length bs) \<and>
    (\<forall>c' s'. chaos_rx_data bs c s = Some (c', s') \<longrightarrow> bs \<noteq> [] \<longrightarrow>
       ucast (chaos_rcv_buffer c' ((length bs + 1) div 2 - 3)) \<noteq> chaos_addr c \<longrightarrow>
       chaos_rcv_buffer_size c' = 0 \<and> chaos_rcv_buffer_empty c' = 1 \<and> s' = s)"
proof -
  let ?n = "(of_nat (length bs) + 1 :: u32) div 2"
  have n: "unat ?n = (length bs + 1) div 2" using received_words [OF assms] .
  show ?thesis
  proof (cases "bs = [] \<or> 5 \<le> length bs")
    case True
    show ?thesis
    proof (cases "bs = []")
      case False
      have idx: "unat (?n - 3) = (length bs + 1) div 2 - 3"
        using unat_minus_small [of 3 ?n] n True False by simp
      moreover have "(length bs + 1) div 2 - 3 < 4096" using assms by simp
      ultimately show ?thesis
        using True False
        by (auto simp: chaos_rx_data_def CHAOS_BUF_WORDS_def Let_def chaos_rx_pkt_def split: if_splits)
    qed (simp add: chaos_rx_data_def)
  next
    case False
    then have "(length bs + 1) div 2 < 3" by linarith
    then have "unat ?n < 3" by (simp only: n)
    then have "\<not> unat (?n - 3) < 4096" using minus_small_out [of ?n 3] by simp
    then have "chaos_rx_data bs c s = None"
      using False by (simp add: chaos_rx_data_def CHAOS_BUF_WORDS_def Let_def)
    with False show ?thesis by simp
  qed
qed

lemma chaos_rx_data_defined_witness:
  "chaos_rx_data [1, 2] fresh_chaos \<lparr>interrupt_status_reg = 0x400, interrupt_pending_flag = 0\<rparr> = None \<and> chaos_rx_data [1, 2, 3, 4, 5] fresh_chaos \<lparr>interrupt_status_reg = 0x400, interrupt_pending_flag = 0\<rparr> \<noteq> None"
  using chaos_rx_data_defined [of "[1, 2]" fresh_chaos "\<lparr>interrupt_status_reg = 0x400, interrupt_pending_flag = 0\<rparr>"]
    chaos_rx_data_defined [of "[1, 2, 3, 4, 5]" fresh_chaos "\<lparr>interrupt_status_reg = 0x400, interrupt_pending_flag = 0\<rparr>"]
  by (cases "chaos_rx_data [1, 2] fresh_chaos \<lparr>interrupt_status_reg = 0x400, interrupt_pending_flag = 0\<rparr>") auto

subsection \<open>The interface keeps the invariant of the interrupts\<close>

lemma chaos_rx_pkt_inv: "chaos_rx_pkt c s = (c', s') \<Longrightarrow> intr_inv s \<Longrightarrow> intr_inv s'"
  by (auto simp: chaos_rx_pkt_def Let_def intr_ops_inv split: if_splits)

lemma char_xmit_done_intr_inv: "char_xmit_done_intr c s = (c', s') \<Longrightarrow> intr_inv s \<Longrightarrow> intr_inv s'"
  by (auto simp: char_xmit_done_intr_def Let_def intr_ops_inv split: if_splits)

lemma chaos_send_inv: "chaos_send_to_chaosd n c s = Some (c', s') \<Longrightarrow> intr_inv s \<Longrightarrow> intr_inv s'"
  by (auto simp: chaos_send_to_chaosd_def Let_def dest!: chaos_rx_pkt_inv split: if_splits bind_splits prod.splits)

lemma chaos_xmit_pkt_inv: "chaos_xmit_pkt c s = Some (c', s') \<Longrightarrow> intr_inv s \<Longrightarrow> intr_inv s'"
  by (auto simp: chaos_xmit_pkt_def Let_def dest!: chaos_send_inv char_xmit_done_intr_inv
      split: bind_splits prod.splits)

lemma chaos_set_csr_inv: "chaos_set_csr v c s = (c', s') \<Longrightarrow> intr_inv s \<Longrightarrow> intr_inv s'"
  unfolding chaos_set_csr_def Let_def
  by (auto dest!: chaos_rx_pkt_inv split: if_splits prod.splits)

lemma chaos_poll_inv: "chaos_poll w c s = Some (c', s', r) \<Longrightarrow> intr_inv s \<Longrightarrow> intr_inv s'"
  by (auto simp: chaos_poll_def chaos_rx_data_def Let_def dest!: chaos_rx_pkt_inv
      split: if_splits bind_splits prod.splits option.splits list.splits)

end
