(* ===== verification/Usim_Iob.thy ===== *)
theory Usim_Iob
  imports Usim_Keyboard Usim_Chaos
begin

section \<open>The I/O board (iob.c) and the mouse (mouse.c)\<close>

text \<open>
  The board collects the keyboard, the mouse, the microsecond clock and the Chaosnet
  interface behind one bank of Unibus registers. \<open>tv_sec\<close>, \<open>tv_usec\<close> are the static \<open>tv\<close> of
  \<open>get_us_clock\<close> (the time of the first reading); what \<open>gettimeofday\<close> answers is an argument.
\<close>

record mouse =
  mouse_x :: u32
  mouse_y :: u32
  mouse_head :: u32
  mouse_middle :: u32
  mouse_tail :: u32
  mouse_rawx :: u32
  mouse_rawy :: u32
  mouse_sync_amem_x :: u32
  mouse_sync_amem_y :: u32

record us_clock =
  tv_sec :: u64
  tv_usec :: u64
  cv :: u64

record iob =
  kbd :: kbd
  mouse :: mouse
  chaos :: chaos
  us_clock :: us_clock

definition iob_mouse_event ::
  "u32 \<Rightarrow> u32 \<Rightarrow> u32 \<Rightarrow> u32 arr \<Rightarrow> iob \<Rightarrow> intr \<Rightarrow> (iob \<times> intr) option" where
  "iob_mouse_event x y buttons a_memory b s = do {
     let k1 = (kbd b)\<lparr>iob_csr := iob_csr (kbd b) OR 0x10\<rparr>;
     let s1 = assert_unibus_interrupt 0xB4 s;
     let m = mouse b;
     mcx \<leftarrow> ld 1024 a_memory (unat (mouse_sync_amem_x m));
     mcy \<leftarrow> ld 1024 a_memory (unat (mouse_sync_amem_y m));
     let dx = x - mcx;
     let dy = y - mcy;
     let m1 = m\<lparr>mouse_x := mouse_x m + dx, mouse_y := mouse_y m + dy\<rparr>;
     let m2 = (if buttons AND 4 \<noteq> 0 then m1\<lparr>mouse_head := 1\<rparr> else m1);
     let m3 = (if buttons AND 2 \<noteq> 0 then m2\<lparr>mouse_middle := 1\<rparr> else m2);
     let m4 = (if buttons AND 1 \<noteq> 0 then m3\<lparr>mouse_tail := 1\<rparr> else m3);
     Some (b\<lparr>kbd := k1, mouse := m4\<rparr>, s1)
   }"

text \<open>\<open>lookup_sym\<close> is \<open>sym_find\<close> on the symbols of the microcode: \<open>None\<close> when the name is unknown.\<close>

definition mouse_sync_init :: "(string \<Rightarrow> u32 option) \<Rightarrow> mouse \<Rightarrow> mouse" where
  "mouse_sync_init lookup_sym m0 =
    (let m = m0\<lparr>mouse_sync_amem_x := 334, mouse_sync_amem_y := 335\<rparr>;
         m1 = (case lookup_sym ''A-MOUSE-CURSOR-X'' of None \<Rightarrow> m | Some val \<Rightarrow> m\<lparr>mouse_sync_amem_x := val\<rparr>)
     in case lookup_sym ''A-MOUSE-CURSOR-Y'' of None \<Rightarrow> m1 | Some val \<Rightarrow> m1\<lparr>mouse_sync_amem_y := val\<rparr>)"

subsection \<open>The clocks\<close>

definition get_us_clock :: "u64 \<times> u64 \<Rightarrow> us_clock \<Rightarrow> us_clock \<times> u64" where
  "get_us_clock now c =
    (if tv_sec c = 0 then (c\<lparr>tv_sec := fst now, tv_usec := snd now\<rparr>, 0)
     else let (sec, usec) =
            (if sint (snd now) < sint (tv_usec c) then (fst now - 1, snd now + 1000 * 1000) else now);
          ds = sec - tv_sec c; du = usec - tv_usec c
       in (c, ds * 1000 * 1000 + du))"

definition get_us_clock_low :: "u64 \<times> u64 \<Rightarrow> us_clock \<Rightarrow> us_clock \<times> u32" where
  "get_us_clock_low now c =
    (let (c1, v) = get_us_clock now c in (c1\<lparr>cv := v\<rparr>, ucast (v AND 0xFFFF)))"

definition get_us_clock_high :: "us_clock \<Rightarrow> u32" where
  "get_us_clock_high c = ucast (drop_bit 16 (cv c))"

definition get_60hz_clock :: u32 where
  "get_60hz_clock = 0"

subsection \<open>The Unibus registers\<close>

definition clear_csr_bits :: "u32 \<Rightarrow> iob \<Rightarrow> iob" where
  "clear_csr_bits bits b = b\<lparr>kbd := (kbd b)\<lparr>iob_csr := iob_csr (kbd b) AND NOT bits\<rparr>\<rparr>"

definition xmit_from_iob :: "iob \<Rightarrow> intr \<Rightarrow> (iob \<times> intr) option" where
  "xmit_from_iob b s = do { (c, s1) \<leftarrow> chaos_xmit_pkt (chaos b) s; Some (b\<lparr>chaos := c\<rparr>, s1) }"

definition iob_unibus_read ::
  "u64 \<times> u64 \<Rightarrow> u32 \<Rightarrow> iob \<Rightarrow> intr \<Rightarrow> (iob \<times> intr \<times> u32) option" where
  "iob_unibus_read now offset b s =
    (if offset = 0x40 then Some (clear_csr_bits 0x20 b, s, kbd_key_scan (kbd b) AND 0xFFFF)
     else if offset = 0x42 then
       Some (clear_csr_bits 0x20 b, s, drop_bit 16 (kbd_key_scan (kbd b)) AND 0xFFFF)
     else if offset = 0x44 then
       (let m = mouse b;
            v = push_bit 12 (mouse_tail m) OR push_bit 13 (mouse_middle m) OR push_bit 14 (mouse_head m)
                OR (mouse_y m AND 0xFFF)
        in Some (clear_csr_bits 0x10
                  (b\<lparr>mouse := m\<lparr>mouse_tail := 0, mouse_middle := 0, mouse_head := 0\<rparr>\<rparr>), s, v))
     else if offset = 0x46 then
       (let m = mouse b in
        Some (b, s, push_bit 12 (mouse_rawx m) OR push_bit 14 (mouse_rawy m) OR (mouse_x m AND 0xFFF)))
     else if offset = 0x48 then Some (b, s, 0)
     else if offset = 0x4A then Some (b, s, iob_csr (kbd b))
     else if offset = 0x50 then
       (let (c, v) = get_us_clock_low now (us_clock b) in Some (b\<lparr>us_clock := c\<rparr>, s, v))
     else if offset = 0x52 then Some (b, s, get_us_clock_high (us_clock b))
     else if offset = 0x54 then Some (b, s, get_60hz_clock)
     else if offset = 0x60 then Some (b, s, chaos_get_csr (chaos b))
     else if offset = 0x62 then Some (b, s, chaos_get_addr (chaos b))
     else if offset = 0x64 then
       do { (c, v) \<leftarrow> chaos_get_rcv_buffer (chaos b); Some (b\<lparr>chaos := c\<rparr>, s, v) }
     else if offset = 0x66 then Some (b, s, chaos_get_bit_count (chaos b))
     else if offset = 0x6A then
       do { (b1, s1) \<leftarrow> xmit_from_iob b s; Some (b1, s1, chaos_get_addr (chaos b)) }
     else do { (b1, s1) \<leftarrow> xmit_from_iob b s; Some (b1, s1, 0) })"

definition iob_unibus_write :: "u32 \<Rightarrow> u32 \<Rightarrow> iob \<Rightarrow> intr \<Rightarrow> (iob \<times> intr) option" where
  "iob_unibus_write offset v b s =
    (if offset = 0x4A then
       Some (b\<lparr>kbd := (kbd b)\<lparr>iob_csr := (iob_csr (kbd b) AND NOT 0xF) OR (v AND 0xF)\<rparr>\<rparr>, s)
     else if offset = 0x60 then
       (let (c, s1) = chaos_set_csr v (chaos b) s in Some (b\<lparr>chaos := c\<rparr>, s1))
     else if offset = 0x62 then
       do { c \<leftarrow> chaos_put_xmit_buffer v (chaos b); Some (b\<lparr>chaos := c\<rparr>, s) }
     else Some (b, s))"

definition iob_init :: "bool \<Rightarrow> (string \<Rightarrow> u32 option) \<Rightarrow> iob \<Rightarrow> iob option" where
  "iob_init char_signed lookup_sym b = do {
     k \<leftarrow> kbd_init char_signed (kbd b);
     Some (b\<lparr>kbd := k, mouse := mouse_sync_init lookup_sym (mouse b)\<rparr>)
   }"

end
