(* ===== verification/Usim_Ether.thy ===== *)
theory Usim_Ether
  imports Usim_Memory
begin

section \<open>The Ethernet controller (ether.c)\<close>

text \<open>
  The registers and the 128 buffer descriptors. \<open>descs\<close> is the C union as 256 words:
  descriptor \<open>i\<close> has its status in the low half of word \<open>2 * i\<close>, its length in the high
  half, and its pointer in word \<open>2 * i + 1\<close> (little-endian host).
\<close>

record ether =
  descs :: "u32 arr"
  moder :: u32
  int_source :: u32
  int_mask :: u32
  ipgt :: u32
  ipgr1 :: u32
  ipgr2 :: u32
  packetlen :: u32
  collconf :: u32
  tx_bd_num :: u32
  ctrlmoder :: u32
  miimoder :: u32
  miicommand :: u32
  miiaddress :: u32
  miitx_data :: u32
  miirx_data :: u32
  miistatus :: u32
  eaddr :: "u8 arr"
  hash0 :: u32
  hash1 :: u32
  txctrl :: u32
  packet :: "u32 arr"
  enabled :: u32

definition ether_init :: "ether \<Rightarrow> ether \<times> int" where
  "ether_init e =
    (e\<lparr>moder := 0xA000, int_source := 0, int_mask := 0, ipgt := 0x12, ipgr1 := 0x0C, ipgr2 := 0x12,
       packetlen := 0x400600, collconf := 0xF003F, tx_bd_num := 0x40, miimoder := 0x64,
       enabled := 0\<rparr>, 0)"

definition ether_xbus_reg_read :: "u32 \<Rightarrow> ether \<Rightarrow> u32" where
  "ether_xbus_reg_read offset e =
    (if offset = 0 then moder e
     else if offset = 1 then int_source e
     else if offset = 2 then int_mask e
     else if offset = 3 then ipgt e
     else if offset = 4 then ipgr1 e
     else if offset = 5 then ipgr2 e
     else if offset = 6 then packetlen e
     else if offset = 7 then collconf e
     else if offset = 8 then tx_bd_num e
     else if offset = 9 then ctrlmoder e
     else if offset = 10 then miimoder e
     else if offset = 11 then miicommand e
     else if offset = 12 then miiaddress e
     else if offset = 13 then miitx_data e
     else if offset = 14 then miirx_data e
     else if offset = 15 then miistatus e
     else if offset = 16 then
       push_bit 24 (ucast (eaddr e 2)) OR push_bit 16 (ucast (eaddr e 3))
         OR push_bit 8 (ucast (eaddr e 4)) OR ucast (eaddr e 5)
     else if offset = 17 then push_bit 8 (ucast (eaddr e 0)) OR ucast (eaddr e 1)
     else if offset = 18 then hash0 e
     else if offset = 19 then hash1 e
     else if offset = 20 then txctrl e
     else 0)"

definition ether_xbus_reg_write :: "u32 \<Rightarrow> u32 \<Rightarrow> ether \<Rightarrow> ether" where
  "ether_xbus_reg_write offset v e =
    (if offset = 0 then e\<lparr>moder := v\<rparr>
     else if offset = 1 then e\<lparr>int_source := int_source e XOR v\<rparr>
     else if offset = 2 then e\<lparr>int_mask := v\<rparr>
     else if offset = 3 then e\<lparr>ipgt := v\<rparr>
     else if offset = 4 then e\<lparr>ipgr1 := v\<rparr>
     else if offset = 5 then e\<lparr>ipgr2 := v\<rparr>
     else if offset = 6 then e\<lparr>packetlen := v\<rparr>
     else if offset = 7 then e\<lparr>collconf := v\<rparr>
     else if offset = 8 then e\<lparr>tx_bd_num := v\<rparr>
     else if offset = 9 then e\<lparr>ctrlmoder := v\<rparr>
     else if offset = 10 then e\<lparr>miimoder := v\<rparr>
     else if offset = 11 then e\<lparr>miicommand := v\<rparr>
     else if offset = 12 then e\<lparr>miiaddress := v\<rparr>
     else if offset = 13 then e\<lparr>miitx_data := v\<rparr>
     else if offset = 16 then
       e\<lparr>eaddr := (eaddr e)(2 := ucast (drop_bit 24 v AND 0xFF), 3 := ucast (drop_bit 16 v AND 0xFF),
                           4 := ucast (drop_bit 8 v AND 0xFF), 5 := ucast (v AND 0xFF))\<rparr>
     else if offset = 17 then
       e\<lparr>eaddr := (eaddr e)(0 := ucast (drop_bit 8 v AND 0xFF), 1 := ucast (v AND 0xFF))\<rparr>
     else if offset = 18 then e\<lparr>hash0 := v\<rparr>
     else if offset = 19 then e\<lparr>hash1 := v\<rparr>
     else if offset = 20 then e\<lparr>txctrl := v\<rparr>
     else e)"

definition ether_xbus_desc_read :: "u32 \<Rightarrow> ether \<Rightarrow> u32 option" where
  "ether_xbus_desc_read offset e = ld 256 (descs e) (unat offset)"

definition ether_xbus_desc_write :: "u32 \<Rightarrow> u32 \<Rightarrow> ether \<Rightarrow> ether option" where
  "ether_xbus_desc_write offset v e = do {
     d \<leftarrow> st 256 (descs e) (unat offset) v;
     Some (e\<lparr>descs := d\<rparr>)
   }"

subsection \<open>Polling the descriptors\<close>

definition desc_status :: "ether \<Rightarrow> nat \<Rightarrow> u16 option" where
  "desc_status e i = map_option ucast (ld 256 (descs e) (2 * i))"

definition desc_len :: "ether \<Rightarrow> nat \<Rightarrow> u16 option" where
  "desc_len e i = map_option (\<lambda>w. ucast (drop_bit 16 w)) (ld 256 (descs e) (2 * i))"

definition desc_ptr :: "ether \<Rightarrow> nat \<Rightarrow> u32 option" where
  "desc_ptr e i = ld 256 (descs e) (2 * i + 1)"

definition set_desc_status :: "nat \<Rightarrow> u16 \<Rightarrow> ether \<Rightarrow> ether option" where
  "set_desc_status i status e = do {
     w \<leftarrow> ld 256 (descs e) (2 * i);
     d \<leftarrow> st 256 (descs e) (2 * i) ((w AND 0xFFFF0000) OR ucast status);
     Some (e\<lparr>descs := d\<rparr>)
   }"

text \<open>The words of a packet are fetched into \<open>packet\<close>; one that cannot be read keeps its old value.\<close>

primrec ether_fetch :: "nat \<Rightarrow> nat \<Rightarrow> u32 \<Rightarrow> ether \<Rightarrow> mem \<Rightarrow> (ether \<times> mem) option" where
  "ether_fetch 0 j ptr e m = Some (e, m)"
| "ether_fetch (Suc n) j ptr e m = do {
     (m1, r) \<leftarrow> read_phy_mem (ptr + of_nat j) m;
     e1 \<leftarrow> (case r of
             None \<Rightarrow> if j < 375 then Some e else None
           | Some v \<Rightarrow> do { p \<leftarrow> st 375 (packet e) j v; Some (e\<lparr>packet := p\<rparr>) });
     ether_fetch n (Suc j) ptr e1 m1
   }"

definition ether_tx_desc :: "nat \<Rightarrow> u16 \<Rightarrow> ether \<Rightarrow> mem \<Rightarrow> (ether \<times> mem \<times> u16) option" where
  "ether_tx_desc i status e m =
    (if status AND 0x8000 \<noteq> 0 then do {
       len \<leftarrow> desc_len e i;
       ptr \<leftarrow> desc_ptr e i;
       (e1, m1) \<leftarrow> ether_fetch ((unat len + 3) div 4) 0 ptr e m;
       let status1 = status AND NOT 0x8000;
       e2 \<leftarrow> set_desc_status i status1 e1;
       Some (if status1 AND 0x4000 \<noteq> 0 then e2\<lparr>int_source := int_source e2 OR 1\<rparr> else e2, m1, status1)
     }
     else Some (e, m, status))"

primrec ether_tx_loop :: "nat \<Rightarrow> nat \<Rightarrow> ether \<Rightarrow> mem \<Rightarrow> (ether \<times> mem) option" where
  "ether_tx_loop 0 i e m = Some (e, m)"
| "ether_tx_loop (Suc n) i e m = do {
     status0 \<leftarrow> desc_status e i;
     (e1, m1, status) \<leftarrow> ether_tx_desc i status0 e m;
     if status AND 0x2000 \<noteq> 0 then Some (e1, m1) else ether_tx_loop n (Suc i) e1 m1
   }"

text \<open>The receive loop only looks: it stops at the first empty or wrapping descriptor.\<close>

primrec ether_rx_loop :: "nat \<Rightarrow> nat \<Rightarrow> ether \<Rightarrow> unit option" where
  "ether_rx_loop 0 i e = Some ()"
| "ether_rx_loop (Suc n) i e = do {
     status \<leftarrow> desc_status e i;
     if status AND 0x8000 \<noteq> 0 then Some ()
     else if status AND 0x2000 \<noteq> 0 then Some ()
     else ether_rx_loop n (Suc i) e
   }"

definition ether_poll :: "ether \<Rightarrow> mem \<Rightarrow> (ether \<times> mem) option" where
  "ether_poll e m =
    (if enabled e = 0 then Some (e, m)
     else do {
       (e1, m1) \<leftarrow> (if moder e AND 2 \<noteq> 0 then ether_tx_loop (unat (tx_bd_num e)) 0 e m else Some (e, m));
       _ \<leftarrow> (if moder e1 AND 1 \<noteq> 0
             then ether_rx_loop (0x80 - unat (tx_bd_num e1)) (unat (tx_bd_num e1)) e1 else Some ());
       Some (e1, m1)
     })"

subsection \<open>Polling keeps the invariant of memory\<close>

lemma ether_fetch_inv: "ether_fetch n j p e m = Some (e', m') \<Longrightarrow> mem_inv m \<Longrightarrow> mem_inv m'"
proof (induction n arbitrary: j e m)
  case (Suc n)
  then show ?case by (auto dest!: read_phy_mem_inv split: bind_splits)
qed simp

lemma ether_tx_desc_inv: "ether_tx_desc i x e m = Some (e', m', x') \<Longrightarrow> mem_inv m \<Longrightarrow> mem_inv m'"
  by (auto simp: ether_tx_desc_def Let_def dest!: ether_fetch_inv split: bind_splits if_splits)

lemma ether_tx_loop_inv: "ether_tx_loop n i e m = Some (e', m') \<Longrightarrow> mem_inv m \<Longrightarrow> mem_inv m'"
proof (induction n arbitrary: i e m)
  case (Suc n)
  then show ?case
    by (auto dest!: ether_tx_desc_inv split: bind_splits if_splits)
qed simp

lemma ether_poll_inv: "ether_poll e m = Some (e', m') \<Longrightarrow> mem_inv m \<Longrightarrow> mem_inv m'"
  by (auto simp: ether_poll_def dest!: ether_tx_loop_inv split: bind_splits if_splits)

end
