(* ===== verification/Usim_Bus.thy ===== *)
theory Usim_Bus
  imports Usim_Disk Usim_Tv Usim_Iob Usim_Ether
begin

section \<open>The machine and its virtual memory accesses (ucode.c, usim.c, uart.c, lashup.c)\<close>

text \<open>
  \<open>cpu\<close> holds the processor's globals of \<open>ucode.c\<close>; \<open>machine\<close> puts it together with the
  devices and the flags of \<open>usim.c\<close>. \<open>world\<close> is what the outside answers during one
  micro-instruction: the clock, the socket, the saved state file, the X events.
\<close>

record cpu =
  prom_ucode :: "u64 arr"
  ucode :: "u64 arr"
  a_memory :: "u32 arr"
  m_memory :: "u32 arr"
  dispatch_memory :: "u32 arr"
  pdl_memory :: "u32 arr"
  pdl_ptr :: u32
  pdl_index :: u32
  lc :: u32
  spc_stack :: "u32 arr"
  spc_stack_ptr :: u32
  cycles :: u64
  u_pc :: u32
  page_fault_flag :: u32
  sequence_break_flag :: u32
  interrupt_enable_flag :: u32
  lc_byte_mode_flag :: u32
  bus_reset_flag :: u32
  md :: u32
  vma :: u32
  q :: u32
  opc :: u32
  new_md :: u32
  new_md_delay :: u32
  write_fault_bit :: u32
  access_fault_bit :: u32
  alu_carry :: u32
  alu_out :: u32
  oa_reg_lo :: u32
  oa_reg_hi :: u32
  oa_reg_lo_set :: u32
  oa_reg_hi_set :: u32
  interrupt_control :: u32
  dispatch_constant :: u32

record machine =
  cpu :: cpu
  intr :: intr
  mem :: mem
  disk :: disk
  tv :: tv
  iob :: iob
  ether :: ether
  uart_out :: "u8 list"
  prom_enabled_flag :: bool
  run_ucode_flag :: bool
  warm_boot_flag :: bool
  save_state_flag :: bool

datatype xevent =
    Expose
  | KeyPress u32 keysym
  | KeyRelease u32 keysym
  | Pointer u32 u32 u32 \<comment> \<open>MotionNotify, ButtonPress, ButtonRelease: x, y, button\<close>
  | OtherEvent

record world =
  now :: "u64 \<times> u64"
  sock :: sock
  state_file :: "u8 list option"
  ximage :: bool
  xevents :: "xevent list"

text \<open>For examples: an outside that answers nothing.\<close>

definition quiet_world :: world where
  "quiet_world = \<lparr>now = (0, 0), sock = \<lparr>socket_ret = -1, bind_ret = 0, chmod_ret = 0, connect_ret = 0, clock_time = 0, poll_ret = 0, header_bytes = None,
     data_bytes = None\<rparr>, state_file = None, ximage = False, xevents = []\<rparr>"

subsection \<open>UART, debug cable\<close>

definition uart_xbus_read :: "u32 \<Rightarrow> u32" where
  "uart_xbus_read offset = 0"

definition uart_xbus_write :: "u32 \<Rightarrow> u32 \<Rightarrow> machine \<Rightarrow> machine" where
  "uart_xbus_write offset v s =
    (if offset = 0 then s\<lparr>uart_out := uart_out s @ [ucast v]\<rparr> else s)"

text \<open>Reading the debug cable prints a message and leaves the caller's variable alone.\<close>

definition lashup_unibus_read :: "u32 \<Rightarrow> u32 \<Rightarrow> u32" where
  "lashup_unibus_read offset pv = pv"

subsection \<open>Reading\<close>

definition clear_faults :: "machine \<Rightarrow> machine" where
  "clear_faults s =
     s\<lparr>cpu := (cpu s)\<lparr>access_fault_bit := 0, write_fault_bit := 0, page_fault_flag := 0\<rparr>\<rparr>"

definition page_fault :: "u32 \<Rightarrow> machine \<Rightarrow> machine" where
  "page_fault pn s = s\<lparr>cpu := (cpu s)\<lparr>page_fault_flag := 1, opc := pn\<rparr>\<rparr>"

definition access_fault :: "u32 \<Rightarrow> machine \<Rightarrow> machine" where
  "access_fault pn s = s\<lparr>cpu := (cpu s)\<lparr>access_fault_bit := 1, page_fault_flag := 1, opc := pn\<rparr>\<rparr>"

definition write_fault :: "u32 \<Rightarrow> machine \<Rightarrow> machine" where
  "write_fault pn s = s\<lparr>cpu := (cpu s)\<lparr>write_fault_bit := 1, page_fault_flag := 1, opc := pn\<rparr>\<rparr>"

text \<open>
  \<open>read_device w vaddr pn offset pv s\<close>: the pages of the I/O space, \<open>None\<close> inside when no
  case of the source returns (the access then goes on to \<open>phy_pages\<close>).
\<close>

definition read_device ::
  "world \<Rightarrow> u32 \<Rightarrow> u32 \<Rightarrow> u32 \<Rightarrow> u32 \<Rightarrow> machine \<Rightarrow> (machine \<times> u32) option option" where
  "read_device w vaddr pn offset pv s =
    (if phys_ram_pages \<le> pn \<and> pn \<le> 0x3BFF then Some (Some (s, 0xFFFFFFFF))
     else if pn = 0x3C00 then
       (if vaddr AND 0xFF8000 = 0xFD0000 then Some (Some (s, 0))
        else do { v \<leftarrow> tv_read (vaddr AND 0x7FFF) (tv s); Some (Some (s, v)) })
     else if pn = 0x3FF4 then do {
       (b, i, v) \<leftarrow> iob_unibus_read (now w) (push_bit 1 offset) (iob s) (intr s);
       Some (Some (s\<lparr>iob := b, intr := i\<rparr>, v))
     }
     else if pn = 0x3FF6 \<and> (offset = 0x20 \<or> offset = 0x24) then Some (Some (s, 0))
     else if pn = 0x3FF6 \<and> (offset = 0x40 \<or> offset = 0x44 \<or> offset = 0x48 \<or> offset = 0x4C) then
       (let unused = lashup_unibus_read offset pv in Some (Some (s, 0)))
     else if pn = 0x3DFF then
       (if offset \<ge> 0xF8 then Some (Some (s, disk_xbus_read offset pv (disk s)))
        else if offset = 0xF0 then Some (Some (s, tv_xbus_read offset (tv s)))
        else Some (Some (s, 0)))
     else if pn = 0x3DFC then Some (Some (s, ether_xbus_reg_read offset (ether s)))
     else if pn = 0x3DFD then do { v \<leftarrow> ether_xbus_desc_read offset (ether s); Some (Some (s, v)) }
     else if pn = 0x3DFE then Some (Some (s, uart_xbus_read offset))
     else Some None)"

text \<open>\<open>read_mem w vaddr pv s = Some (s', v, r)\<close>: \<open>v\<close> is \<open>*pv\<close> afterwards, \<open>r\<close> the value returned.\<close>

definition read_mem :: "world \<Rightarrow> u32 \<Rightarrow> u32 \<Rightarrow> machine \<Rightarrow> (machine \<times> u32 \<times> int) option" where
  "read_mem w vaddr pv s0 = do {
     (m, l2, _, offset) \<leftarrow> map_vtop vaddr (mem s0);
     let s = (clear_faults s0)\<lparr>mem := m\<rparr>;
     let pn = l2 AND 0x3FFF;
     if l2 AND 0x800000 = 0 then Some (access_fault pn s, 0, -1)
     else do {
       page \<leftarrow> ld 16384 (phy_pages m) (unat pn);
       if sint pn < 0x2000 \<and> page \<noteq> None then do {
         v \<leftarrow> page_ld m (the page) offset;
         Some (s, v, 0)
       }
       else do {
         r \<leftarrow> read_device w vaddr pn offset pv s;
         case r of
           Some (s1, v) \<Rightarrow> Some (s1, v, 0)
         | None \<Rightarrow>
            (case page of
               None \<Rightarrow> Some (page_fault pn s, 0, -1)
             | Some a \<Rightarrow> do { v \<leftarrow> page_ld m a offset; Some (s, v, 0) })
       }
     }
   }"

subsection \<open>Writing\<close>

definition spy_write :: "world \<Rightarrow> u32 \<Rightarrow> u32 \<Rightarrow> machine \<Rightarrow> machine option" where
  "spy_write w offset v s =
    (if offset = 0xA \<and> v AND 0x24 = 0x24 then
       (let s1 = s\<lparr>prom_enabled_flag := False\<rparr> in
        if warm_boot_flag s1
        then do { (m, _) \<leftarrow> restore_state (state_file w) (mem s1); Some (s1\<lparr>mem := m\<rparr>) }
        else Some s1)
     else Some s)"

definition unibus_write :: "world \<Rightarrow> u32 \<Rightarrow> u32 \<Rightarrow> machine \<Rightarrow> machine option option" where
  "unibus_write w offset v s =
    (let isr = interrupt_status_reg (intr s) in
     if sint offset \<le> 0x1E then do { s1 \<leftarrow> spy_write w offset v s; Some (Some s1) }
     else if offset = 0x20 then
       Some (Some (s\<lparr>intr := set_interrupt_status_reg ((isr AND NOT 0x3C01) OR (v AND 0x3C01)) (intr s)\<rparr>))
     else if offset = 0x22 then
       Some (Some (s\<lparr>intr := set_interrupt_status_reg ((isr AND NOT 0x83FC) OR (v AND 0x83FC)) (intr s)\<rparr>))
     else if offset = 0x24 then Some (Some s)
     else if offset = 0x40 \<or> offset = 0x44 \<or> offset = 0x48 \<or> offset = 0x4C then Some (Some s)
     else if sint offset \<ge> 0x60 \<and> sint offset \<le> 0x7E then Some (Some s)
     else Some None)"

definition write_device ::
  "world \<Rightarrow> u32 \<Rightarrow> u32 \<Rightarrow> u32 \<Rightarrow> u32 \<Rightarrow> machine \<Rightarrow> machine option option" where
  "write_device w vaddr pn offset v s =
    (if pn = 0x3C00 then
       (if vaddr AND 0xFF8000 = 0xFD0000 then Some (Some s)
        else do { t \<leftarrow> tv_write (vaddr AND 0x7FFF) v (tv s); Some (Some (s\<lparr>tv := t\<rparr>)) })
     else if pn = 0x3FF0 then Some (Some s)
     else if pn = 0x3FF4 then do {
       (b, i) \<leftarrow> iob_unibus_write (push_bit 1 offset) v (iob s) (intr s);
       Some (Some (s\<lparr>iob := b, intr := i\<rparr>))
     }
     else if pn = 0x3FF6 then unibus_write w (push_bit 1 offset) v s
     else if pn = 0x3DFF \<and> offset \<ge> 0xF8 then do {
       (d, m, i) \<leftarrow> disk_xbus_write offset v (disk s) (mem s) (intr s);
       Some (Some (s\<lparr>disk := d, mem := m, intr := i\<rparr>))
     }
     else if pn = 0x3DFF \<and> offset = 0xF0 then
       (let (t, i) = tv_xbus_write offset v (tv s) (intr s) in Some (Some (s\<lparr>tv := t, intr := i\<rparr>)))
     else if pn = 0x3DFC then Some (Some (s\<lparr>ether := ether_xbus_reg_write offset v (ether s)\<rparr>))
     else if pn = 0x3DFD then
       do { e \<leftarrow> ether_xbus_desc_write offset v (ether s); Some (Some (s\<lparr>ether := e\<rparr>)) }
     else if pn = 0x3DFE then Some (Some (uart_xbus_write offset v s))
     else Some None)"

text \<open>
  The offset within the Unibus page is doubled in place, and the doubled offset is the one
  used when the access falls through to \<open>phy_pages\<close>.
\<close>

definition write_mem :: "world \<Rightarrow> u32 \<Rightarrow> u32 \<Rightarrow> machine \<Rightarrow> (machine \<times> int) option" where
  "write_mem w vaddr v s0 = do {
     (m, l2, _, offset) \<leftarrow> map_vtop vaddr (mem s0);
     let s = (clear_faults s0)\<lparr>mem := m\<rparr>;
     let pn = l2 AND 0x3FFF;
     if l2 AND 0x800000 = 0 then Some (access_fault pn s, -1)
     else if l2 AND 0x400000 = 0 then Some (write_fault pn s, -1)
     else do {
       page \<leftarrow> ld 16384 (phy_pages m) (unat pn);
       if sint pn < 0x2000 \<and> page \<noteq> None then do {
         m1 \<leftarrow> page_st m (the page) offset v;
         Some (s\<lparr>mem := m1\<rparr>, 0)
       }
       else do {
         r \<leftarrow> write_device w vaddr pn offset v s;
         case r of
           Some s1 \<Rightarrow> Some (s1, 0)
         | None \<Rightarrow>
            (case page of
               None \<Rightarrow> Some (page_fault pn s, -1)
             | Some a \<Rightarrow> do {
                 m1 \<leftarrow> page_st m a (if pn = 0x3FF6 then push_bit 1 offset else offset) v;
                 Some (s\<lparr>mem := m1\<rparr>, 0)
               })
       }
     }
   }"

subsection \<open>The machine at program start\<close>

text \<open>
  The initial values of the globals; \<open>h\<close> is what the pages the allocator hands out contain.
\<close>

definition machine_start :: "(nat \<Rightarrow> u32 arr) \<Rightarrow> machine" where
  "machine_start h =
    \<lparr>cpu = \<lparr>prom_ucode = (\<lambda>i. 0), ucode = (\<lambda>i. 0), a_memory = (\<lambda>i. 0), m_memory = (\<lambda>i. 0),
       dispatch_memory = (\<lambda>i. 0), pdl_memory = (\<lambda>i. 0), pdl_ptr = 0, pdl_index = 0, lc = 0,
       spc_stack = (\<lambda>i. 0), spc_stack_ptr = 0, cycles = 0, u_pc = 0, page_fault_flag = 0,
       sequence_break_flag = 0, interrupt_enable_flag = 0, lc_byte_mode_flag = 0,
       bus_reset_flag = 0, md = 0, vma = 0, q = 0, opc = 0, new_md = 0, new_md_delay = 0,
       write_fault_bit = 0, access_fault_bit = 0, alu_carry = 0, alu_out = 0, oa_reg_lo = 0,
       oa_reg_hi = 0, oa_reg_lo_set = 0, oa_reg_hi_set = 0, interrupt_control = 0,
       dispatch_constant = 0\<rparr>,
     intr = \<lparr>interrupt_status_reg = 0, interrupt_pending_flag = 0\<rparr>,
     mem = mem_start h,
     disk = \<lparr>disk_fd = 0, disk_mm = (\<lambda>i. 0), disk_mm_words = 0, disk_status = 1, disk_cmd = 0,
       disk_clp = 0, disk_ma = 0, disk_ecc = 0, disk_da = 0, disk_byteswap = 0, cyls = 0,
       heads = 0, blocks_per_track = 0, cur_unit = 0, cur_cyl = 0, cur_head = 0, cur_block = 0,
       disk_interrupt_delay = 0\<rparr>,
     tv = \<lparr>tv_bitmap = (\<lambda>i. 0), tv_csr = 0, u_minh = 0x7FFFFFFF, u_maxh = 0,
       u_minv = 0x7FFFFFFF, u_maxv = 0\<rparr>,
     iob = \<lparr>kbd = \<lparr>iob_csr = 0, kbd_key_scan = 0, okb_to_scancode = (\<lambda>i j. 0),
         key_queue = (\<lambda>i. 0), key_queue_optr = 0, key_queue_iptr = 0,
         key_queue_free = KEY_QUEUE_LEN\<rparr>,
       mouse = \<lparr>mouse_x = 0, mouse_y = 0, mouse_head = 0, mouse_middle = 0, mouse_tail = 0,
         mouse_rawx = 0, mouse_rawy = 0, mouse_sync_amem_x = 0, mouse_sync_amem_y = 0\<rparr>,
       chaos = \<lparr>chaos_csr = 0, chaos_addr = 0x101, chaos_bit_count = 0, chaos_lost_count = 0,
         chaos_xmit_buffer = (\<lambda>i. 0), chaos_xmit_buffer_size = 0, chaos_xmit_buffer_ptr = 0,
         chaos_rcv_buffer = (\<lambda>i. 0), chaos_rcv_buffer_ptr = 0, chaos_rcv_buffer_size = 0,
         chaos_rcv_buffer_empty = 0, chaos_fd = 0, chaos_need_reconnect = 0,
         reconnect_delay = 0, reconnect_time = 0, chaos_sent = []\<rparr>,
       us_clock = \<lparr>tv_sec = 0, tv_usec = 0, cv = 0\<rparr>\<rparr>,
     ether = \<lparr>descs = (\<lambda>i. 0), moder = 0, int_source = 0, int_mask = 0, ipgt = 0, ipgr1 = 0,
       ipgr2 = 0, packetlen = 0, collconf = 0, tx_bd_num = 0, ctrlmoder = 0, miimoder = 0,
       miicommand = 0, miiaddress = 0, miitx_data = 0, miirx_data = 0, miistatus = 0,
       eaddr = (\<lambda>i. 0), hash0 = 0, hash1 = 0, txctrl = 0, packet = (\<lambda>i. 0), enabled = 0\<rparr>,
     uart_out = [], prom_enabled_flag = True, run_ucode_flag = True, warm_boot_flag = False,
     save_state_flag = False\<rparr>"

subsection \<open>What an access leaves alone\<close>

text \<open>An access touches the processor only in the fault flags and in \<open>opc\<close>.\<close>

definition no_faults :: "cpu \<Rightarrow> cpu" where
  "no_faults c = c\<lparr>access_fault_bit := 0, write_fault_bit := 0, page_fault_flag := 0, opc := 0\<rparr>"

definition same_cpu :: "machine \<Rightarrow> machine \<Rightarrow> bool" where
  "same_cpu s s' \<longleftrightarrow> no_faults (cpu s') = no_faults (cpu s)"

lemma same_cpu_fields:
  assumes "same_cpu s s'"
  shows "lc (cpu s') = lc (cpu s)" "lc_byte_mode_flag (cpu s') = lc_byte_mode_flag (cpu s)"
    "vma (cpu s') = vma (cpu s)" "md (cpu s') = md (cpu s)" "u_pc (cpu s') = u_pc (cpu s)"
    "spc_stack_ptr (cpu s') = spc_stack_ptr (cpu s)" "spc_stack (cpu s') = spc_stack (cpu s)"
    "pdl_ptr (cpu s') = pdl_ptr (cpu s)" "pdl_index (cpu s') = pdl_index (cpu s)"
    "new_md (cpu s') = new_md (cpu s)" "new_md_delay (cpu s') = new_md_delay (cpu s)"
  using assms unfolding same_cpu_def no_faults_def by (cases "cpu s"; cases "cpu s'"; simp)+

lemmas fault_defs = clear_faults_def page_fault_def access_fault_def write_fault_def

lemma same_cpu_updates [simp]:
  "same_cpu s s" "same_cpu s (t\<lparr>mem := m\<rparr>) = same_cpu s t" "same_cpu s (t\<lparr>iob := b\<rparr>) = same_cpu s t"
  "same_cpu s (t\<lparr>intr := i\<rparr>) = same_cpu s t" "same_cpu s (t\<lparr>tv := tt\<rparr>) = same_cpu s t"
  "same_cpu s (t\<lparr>disk := d\<rparr>) = same_cpu s t" "same_cpu s (t\<lparr>ether := e\<rparr>) = same_cpu s t"
  "same_cpu s (t\<lparr>uart_out := x\<rparr>) = same_cpu s t"
  "same_cpu s (t\<lparr>prom_enabled_flag := y\<rparr>) = same_cpu s t"
  "same_cpu (s\<lparr>mem := m\<rparr>) t = same_cpu s t"
  by (simp_all add: same_cpu_def)

lemma same_cpu_faults [simp]:
  "same_cpu s (clear_faults t) = same_cpu s t" "same_cpu (clear_faults s) t = same_cpu s t"
  "same_cpu s (access_fault pn t) = same_cpu s t" "same_cpu s (page_fault pn t) = same_cpu s t"
  "same_cpu s (write_fault pn t) = same_cpu s t"
  by (simp_all add: same_cpu_def fault_defs no_faults_def)

lemma read_device_cpu:
  "read_device w vaddr pn off pv s = Some (Some (s', v)) \<Longrightarrow> same_cpu s s' \<and> mem s' = mem s"
  by (auto simp: read_device_def Let_def  split: if_splits bind_splits prod.splits)

lemma read_mem_frame:
  "read_mem w vaddr pv s = Some (s', v, r) \<Longrightarrow> same_cpu s s'"
  by (auto simp: read_mem_def Let_def  split: if_splits bind_splits prod.splits option.splits
      dest!: read_device_cpu)


lemma unibus_write_cpu: "unibus_write w off v s = Some (Some s') \<Longrightarrow> same_cpu s s'"
  by (auto simp: unibus_write_def spy_write_def Let_def split: if_splits bind_splits prod.splits)

lemma write_device_cpu: "write_device w vaddr pn off v s = Some (Some s') \<Longrightarrow> same_cpu s s'"
  by (auto simp: write_device_def Let_def uart_xbus_write_def unibus_write_cpu
      split: if_splits bind_splits prod.splits)

lemma write_mem_frame: "write_mem w vaddr v s = Some (s', r) \<Longrightarrow> same_cpu s s'"
  by (auto simp: write_mem_def Let_def split: if_splits bind_splits prod.splits option.splits
      dest!: write_device_cpu)

end
