(* ===== verification/Usim_Window.thy ===== *)
theory Usim_Window
  imports Usim_Bus
begin

section \<open>Events of the window (x11.c, tv.c)\<close>

text \<open>
  \<open>x11_event\<close>: the collected update goes out, one waiting key moves to the scan register,
  and the pending X events are handled in order. What XPutImage is told is output only and
  is left to \<open>send_accumulated_updates\<close>.
\<close>

definition x11_handle :: "xevent \<Rightarrow> machine \<Rightarrow> machine option" where
  "x11_handle e s =
    (case e of
       Expose \<Rightarrow> Some s
     | KeyPress state ks \<Rightarrow>
        (let (k, i) = process_key state ks True (kbd (iob s)) (intr s)
         in Some (s\<lparr>iob := (iob s)\<lparr>kbd := k\<rparr>, intr := i\<rparr>))
     | KeyRelease state ks \<Rightarrow>
        (let (k, i) = process_key state ks False (kbd (iob s)) (intr s)
         in Some (s\<lparr>iob := (iob s)\<lparr>kbd := k\<rparr>, intr := i\<rparr>))
     | Pointer x y button \<Rightarrow> do {
         (b, i) \<leftarrow> iob_mouse_event x y button (a_memory (cpu s)) (iob s) (intr s);
         Some (s\<lparr>iob := b, intr := i\<rparr>)
       }
     | OtherEvent \<Rightarrow> Some s)"

primrec x11_events :: "xevent list \<Rightarrow> machine \<Rightarrow> machine option" where
  "x11_events [] s = Some s"
| "x11_events (e # es) s = do { s1 \<leftarrow> x11_handle e s; x11_events es s1 }"

definition x11_event :: "world \<Rightarrow> machine \<Rightarrow> machine option" where
  "x11_event w s =
    (if \<not> ximage w then Some s
     else let (t, rect) = send_accumulated_updates True (tv s);
              (k, i) = dequeue_key_event (kbd (iob s)) (intr s)
       in x11_events (xevents w) (s\<lparr>tv := t, iob := (iob s)\<lparr>kbd := k\<rparr>, intr := i\<rparr>))"

definition tv_poll :: "world \<Rightarrow> machine \<Rightarrow> machine option" where
  "tv_poll w s = x11_event w s"

definition sigalrm_handler :: "machine \<Rightarrow> machine" where
  "sigalrm_handler s =
    (let (t, i) = tv_post_60hz_interrupt (tv s) (intr s) in s\<lparr>tv := t, intr := i\<rparr>)"

end
