(* ===== verification/Usim_Datapath.thy ===== *)
theory Usim_Datapath
  imports Usim_Prelude
begin

section \<open>The data path of the processor: rotator, ALU, Q, masks (ucode.c)\<close>

text \<open>
  The pure parts of \<open>run\<close> in \<open>ucode.c\<close>: what one micro-instruction computes from its
  operands. \<open>m\<close> and \<open>a\<close> are \<open>m_src_value\<close> and \<open>a_src_value\<close> (C \<open>int\<close>), \<open>ci\<close> is
  \<open>carry_in\<close> (0 or 1). \<open>lv\<close>, the 64-bit intermediate of most arithmetic operations, is
  an integer: its range is far inside 64 bits. The additions of \<open>add32\<close>, \<open>sub32\<close> wrap
  around, as the compiler emits them. A shift of zero by 32 places (\<open>rotate_left\<close> by 0)
  gives zero.
\<close>

definition ir_field :: "u64 \<Rightarrow> nat \<Rightarrow> u32 \<Rightarrow> u32" where
  "ir_field u p m = ucast (drop_bit p u) AND m"

definition rotate_left :: "u32 \<Rightarrow> nat \<Rightarrow> u32" where
  "rotate_left value bitstorotate =
    (let msk = (if bitstorotate = 0 then 0 else signed_drop_bit bitstorotate 0x80000000);
         tmp = drop_bit (32 - bitstorotate) (value AND msk)
     in push_bit bitstorotate value OR tmp)"

definition add32 :: "u32 \<Rightarrow> u32 \<Rightarrow> u32 \<Rightarrow> u32 \<times> u32" where
  "add32 a b ci =
    (a + b + (if ci \<noteq> 0 then 1 else 0),
     if ci \<noteq> 0 then (if sint b \<ge> sint (NOT a) then 0 else 1)
     else (if sint b > sint (NOT a) then 0 else 1))"

text \<open>
  \<open>add32(alu_out, a, ci, alu_out, alu_carry)\<close> of the remainder correction: the first
  operand is the unsigned output variable itself, so the carry is computed from the new
  value, and the comparison is unsigned.
\<close>

definition add32_in_place :: "u32 \<Rightarrow> u32 \<Rightarrow> u32 \<Rightarrow> u32 \<times> u32" where
  "add32_in_place a b ci =
    (let out = a + b + (if ci \<noteq> 0 then 1 else 0)
     in (out, if ci \<noteq> 0 then (if b \<ge> NOT out then 0 else 1) else (if b > NOT out then 0 else 1)))"

definition sub32 :: "u32 \<Rightarrow> u32 \<Rightarrow> u32 \<Rightarrow> u32 \<times> u32" where
  "sub32 a b ci =
    (let out = a - b - (if ci \<noteq> 0 then 0 else 1) in (out, if out < a then 1 else 0))"

definition lv_result :: "int \<Rightarrow> u32 \<times> u32" where
  "lv_result lv = (word_of_int lv, if drop_bit 32 lv \<noteq> 0 then 1 else 0)"

text \<open>The arithmetic operations, octal 020 to 037.\<close>

definition alu_arith :: "u32 \<Rightarrow> u32 \<Rightarrow> u32 \<Rightarrow> u32 \<Rightarrow> u32 \<times> u32" where
  "alu_arith op m a ci =
    (let c1 = (if ci \<noteq> 0 then 1 else 0 :: int); b1 = (if ci \<noteq> 0 then 0 else 1 :: int) in
     if op = 0x10 then (if ci \<noteq> 0 then 0 else -1, 0)
     else if op = 0x11 then lv_result (sint (m AND a) - b1)
     else if op = 0x12 then lv_result (sint (m AND NOT a) - b1)
     else if op = 0x13 then lv_result (sint m - b1)
     else if op = 0x14 then lv_result (sint (m OR NOT a) + c1)
     else if op = 0x15 then lv_result (sint (m OR NOT a) + sint (m AND a) + c1)
     else if op = 0x16 then sub32 m a ci
     else if op = 0x17 then lv_result (sint (m OR NOT a) + sint m + c1)
     else if op = 0x18 then lv_result (sint (m OR a) + c1)
     else if op = 0x19 then add32 m a ci
     else if op = 0x1A then lv_result (sint (m OR a) + sint (m AND NOT a) + c1)
     else if op = 0x1B then lv_result (sint (m OR a) + sint m + c1)
     else if op = 0x1C then (m + (if ci \<noteq> 0 then 1 else 0), if m = 0xFFFFFFFF \<and> ci \<noteq> 0 then 1 else 0)
     else if op = 0x1D then lv_result (sint m + sint (m AND a) + c1)
     else if op = 0x1E then lv_result (sint m + sint (m OR NOT a) + c1)
     else add32 m m ci)"

text \<open>The boolean operations, octal 000 to 017 (the carry is 0).\<close>

definition alu_bool :: "u32 \<Rightarrow> u32 \<Rightarrow> u32 \<Rightarrow> u32" where
  "alu_bool op m a =
    (if op = 0 then 0
     else if op = 1 then m AND a
     else if op = 2 then m AND NOT a
     else if op = 3 then m
     else if op = 4 then NOT m AND a
     else if op = 5 then a
     else if op = 6 then m XOR a
     else if op = 7 then m OR a
     else if op = 8 then NOT a AND NOT m
     else if op = 9 then (if a = m then 1 else 0)
     else if op = 10 then NOT a
     else if op = 11 then m OR NOT a
     else if op = 12 then NOT m
     else if op = 13 then NOT m OR a
     else if op = 14 then NOT m OR NOT a
     else -1)"

text \<open>
  The conditional operations: multiply step 040, divide step 041, remainder correction
  045, initial divide step 051. Any other code leaves \<open>alu_out\<close> as the last instruction
  left it. \<open>alu_carry\<close> is 0 on entry.
\<close>

definition alu_cond :: "u32 \<Rightarrow> u32 \<Rightarrow> u32 \<Rightarrow> u32 \<Rightarrow> u32 \<Rightarrow> u32 \<Rightarrow> u32 \<times> u32" where
  "alu_cond op m a ci q alu_out =
    (let do_it = q AND 1 \<noteq> 0; not_ci = (if ci \<noteq> 0 then 0 else 1) in
     if op = 0x20 then
       (if do_it then add32 a m ci else (m, if m AND 0x80000000 \<noteq> 0 then 1 else 0))
     else if op = 0x21 then (if do_it then sub32 m a not_ci else add32 m a ci)
     else if op = 0x25 then (if do_it then (alu_out, 0) else add32_in_place alu_out a ci)
     else if op = 0x29 then sub32 m a not_ci
     else (alu_out, 0))"

definition alu :: "u32 \<Rightarrow> u32 \<Rightarrow> u32 \<Rightarrow> u32 \<Rightarrow> u32 \<Rightarrow> u32 \<Rightarrow> u32 \<times> u32" where
  "alu op m a ci q alu_out =
    (if op < 0x10 then (alu_bool op m a, 0)
     else if op < 0x20 then alu_arith op m a ci
     else alu_cond op m a ci q alu_out)"

definition q_control :: "u64 \<Rightarrow> u32 \<Rightarrow> u32 \<Rightarrow> u32" where
  "q_control u q alu_out =
    (let sel = ir_field u 0 3 in
     if sel = 1 then push_bit 1 q OR (if alu_out AND 0x80000000 = 0 then 1 else 0)
     else if sel = 2 then drop_bit 1 q OR (if alu_out AND 1 \<noteq> 0 then 0x80000000 else 0)
     else if sel = 3 then alu_out
     else q)"

definition output_bus :: "u32 \<Rightarrow> u64 \<Rightarrow> u32 \<Rightarrow> u32 \<Rightarrow> u32 \<Rightarrow> u32 \<Rightarrow> u32" where
  "output_bus sel u m alu_out alu_carry old_q =
    (if sel = 0 then rotate_left m (unat (ir_field u 0 0x1F))
     else if sel = 1 then alu_out
     else if sel = 2 then drop_bit 1 alu_out OR (if alu_carry \<noteq> 0 then 0x80000000 else 0)
     else push_bit 1 alu_out OR (if old_q AND 0x80000000 \<noteq> 0 then 1 else 0))"


text \<open>
  Field position: the low five bits of the instruction, or, with miscellaneous function 3,
  bits combined with the location counter (the byte or halfword the macro-instruction
  stream is at).
\<close>

definition misc3_pos :: "u64 \<Rightarrow> u32 \<Rightarrow> u32 \<Rightarrow> u32" where
  "misc3_pos u lc lc_byte_mode_flag =
    (let ir4 = ir_field u 4 1; ir3 = ir_field u 3 1;
         lc1 = drop_bit 1 lc AND 1; lc0 = lc AND 1 in
     if lc_byte_mode_flag \<noteq> 0
     then ir_field u 0 7 OR (push_bit 4 (ir4 XOR (lc1 XOR lc0)) OR push_bit 3 (ir3 XOR lc0))
     else ir_field u 0 0xF OR push_bit 4 (if ir4 XOR lc1 \<noteq> 0 then 0 else 1))"

definition field_pos :: "u64 \<Rightarrow> u32 \<Rightarrow> u32 \<Rightarrow> u32" where
  "field_pos u lc lc_byte_mode_flag =
    (if ir_field u 10 3 = 3 then misc3_pos u lc lc_byte_mode_flag else ir_field u 0 0x1F)"

definition byte_mask :: "u32 \<Rightarrow> u32 \<Rightarrow> u32 \<Rightarrow> u32" where
  "byte_mask mr_sr_bits pos widthm1 =
    (let right_mask_index = (if mr_sr_bits AND 2 \<noteq> 0 then pos else 0);
         left_mask_index = (right_mask_index + widthm1) AND 0x1F;
         left_mask = drop_bit (unat (31 - left_mask_index)) (-1);
         right_mask = push_bit (unat right_mask_index) (-1)
     in left_mask AND right_mask)"

definition byte_op :: "u32 \<Rightarrow> u32 \<Rightarrow> u32 \<Rightarrow> u32 \<Rightarrow> u32 \<Rightarrow> u32" where
  "byte_op mr_sr_bits pos widthm1 m a =
    (let msk = byte_mask mr_sr_bits pos widthm1 in
     if mr_sr_bits = 0 then 0
     else if mr_sr_bits = 1 then (rotate_left m (unat pos) AND msk) OR (a AND NOT msk)
     else if mr_sr_bits = 2 then (m AND msk) OR (a AND NOT msk)
     else (rotate_left m (unat pos) AND msk) OR (a AND NOT msk))"

definition dispatch_mask :: "u32 \<Rightarrow> u32" where
  "dispatch_mask len =
    (if len = 0 then 0 else drop_bit (unat (31 - ((len - 1) AND 0x1F))) (-1))"

text \<open>
  \<open>process_jump\<close>: the jump condition. \<open>take_jump\<close> is a C \<open>char\<close>, so an \<open>int\<close> stored
  into it keeps its low 8 bits only. The other result is the new \<open>m_src_value\<close> (the
  bit-test condition rotates it in place).
\<close>

definition jump_condition ::
  "u64 \<Rightarrow> u8 \<Rightarrow> u32 \<Rightarrow> u32 \<Rightarrow> u32 \<Rightarrow> u32 \<Rightarrow> u32 \<Rightarrow> u32 \<Rightarrow> u8 \<times> u32" where
  "jump_condition u take_jump m a page_fault_flag interrupt_enable_flag
     interrupt_pending_flag sequence_break_flag =
    (if bit u 5 then
      (let c = ir_field u 0 0xF;
           pending = (if interrupt_enable_flag \<noteq> 0 then interrupt_pending_flag else 0) in
       (if c = 1 then (if sint m < sint a then 1 else 0)
        else if c = 2 then (if sint m \<le> sint a then 1 else 0)
        else if c = 3 then (if m = a then 1 else 0)
        else if c = 4 then ucast page_fault_flag
        else if c = 5 then ucast (page_fault_flag OR pending)
        else if c = 6 then ucast (page_fault_flag OR pending OR sequence_break_flag)
        else if c = 7 then 1
        else take_jump, m))
     else (let r = rotate_left m (unat (ir_field u 0 0x1F)) in (ucast (r AND 1), r)))"

subsection \<open>The rotator\<close>

lemma rotl_index:
  assumes "i < 32" and "n < (32::nat)"
  shows "(i + 32 - n) mod 32 = (if n \<le> i then i - n else i + 32 - n)"
proof (cases "n \<le> i")
  case True
  then have eq: "i + 32 - n = (i - n) + 32" using assms by simp
  have "(i + 32 - n) mod 32 = i - n"
    unfolding eq mod_add_self2 using assms by (simp add: less_imp_diff_less)
  with True show ?thesis by simp
qed (use assms in simp)

lemma bit_rotate_left:
  assumes "n < 32" and "i < 32"
  shows "bit (rotate_left v n) i = bit v (if n \<le> i then i - n else i + 32 - n)"
  using assms by (auto simp: rotate_left_def Let_def bit_simps bit_imp_le_length add.commute)

text \<open>The C rotation is the rotation of words.\<close>

lemma rotate_left_rotl: "n < 32 \<Longrightarrow> rotate_left v n = word_rotl n v"
  by (rule bit_word_eqI) (simp add: bit_rotate_left bit_word_rotl_iff rotl_index)

subsection \<open>What the arithmetic codes compute\<close>

text \<open>
  The mnemonics of \<open>alu_arith_op\<close> in \<open>decode.c\<close>, read as exact integers: the 16
  arithmetic functions of the ALU of M and A, plus the carry.
\<close>

definition arith_exact :: "u32 \<Rightarrow> u32 \<Rightarrow> u32 \<Rightarrow> u32 \<Rightarrow> int" where
  "arith_exact op m a ci =
    (let M = sint m; MA = sint (m AND a); MnA = sint (m AND NOT a); MoA = sint (m OR a);
         MonA = sint (m OR NOT a) in
     (if op = 0x10 then -1 else if op = 0x11 then MA - 1 else if op = 0x12 then MnA - 1
      else if op = 0x13 then M - 1 else if op = 0x14 then MonA else if op = 0x15 then MonA + MA
      else if op = 0x16 then M - sint a - 1 else if op = 0x17 then MonA + M
      else if op = 0x18 then MoA else if op = 0x19 then M + sint a else if op = 0x1A then MoA + MnA
      else if op = 0x1B then MoA + M else if op = 0x1C then M else if op = 0x1D then M + MA
      else if op = 0x1E then M + MonA else M + M) + (if ci \<noteq> 0 then 1 else 0))"

lemma word_of_int_sint_add:
  "a + b = word_of_int (sint a + sint b)" "a - b = word_of_int (sint a - sint b)"
  for a b :: u32
  by simp_all

lemma alu_arith_exact: "fst (alu_arith op m a ci) = word_of_int (arith_exact op m a ci)"
  by (simp add: alu_arith_def arith_exact_def lv_result_def add32_def sub32_def Let_def)


lemma sint_bounds: "- (2 ^ 31) \<le> sint w" "sint w < 2 ^ 31" for w :: u32
  using sint_ge [of w] sint_lt [of w] by simp_all

text \<open>
  The carry flag of \<open>add32\<close> is not an unsigned carry: on \<open>int\<close> operands the comparison is
  signed, and the flag is the sign of the exact sum.
\<close>

lemma add32_carry:
  "snd (add32 a b ci) = (if sint a + sint b + (if ci \<noteq> 0 then 1 else 0) < 0 then 1 else 0)"
  by (auto simp: add32_def sint_not)

lemma lv_result_carry:
  assumes "lv < 2 ^ 32"
  shows "snd (lv_result lv) = (if lv < 0 then 1 else 0)"
  using assms by (simp add: lv_result_def drop_bit_eq_div) (simp add: zdiv_eq_0_iff)

definition exact_carry_op :: "u32 \<Rightarrow> bool" where
  "exact_carry_op op \<longleftrightarrow> 0x10 < op \<and> op < 0x20 \<and> op \<noteq> 0x16 \<and> op \<noteq> 0x1C"

lemma sint_range_sums:
  "sint a < 0x100000000" "sint a + 1 < 0x100000000" "sint a - 1 < 0x100000000"
  "sint a + sint b < 0x100000000" "sint a + sint b + 1 < 0x100000000" for a b :: u32
  using sint_bounds [of a] sint_bounds [of b] by simp_all

lemma alu_arith_carry:
  assumes "exact_carry_op op"
  shows "snd (alu_arith op m a ci) = (if arith_exact op m a ci < 0 then 1 else 0)"
  using assms less_irrefl [of "0x10 :: u32"]
  by (cases "op = 0x10")
    (simp_all add: exact_carry_op_def alu_arith_def arith_exact_def Let_def lv_result_carry
      sint_range_sums add32_carry)

lemma arith_exact_range:
  "- (2 ^ 32) \<le> arith_exact op m a ci" "arith_exact op m a ci < 2 ^ 32"
  using sint_bounds [of m] sint_bounds [of a] sint_bounds [of "m AND a"]
    sint_bounds [of "m OR a"] sint_bounds [of "m AND NOT a"] sint_bounds [of "m OR NOT a"]
  by (simp_all add: arith_exact_def Let_def)

lemma shift_in_sign:
  assumes "- (2 ^ 32) \<le> x" and "x < 2 ^ 32"
  shows "drop_bit 1 (word_of_int x :: u32) OR (if x < 0 then 0x80000000 else 0)
    = word_of_int (x div 2)"
proof (rule bit_word_eqI)
  fix n
  assume n: "n < LENGTH(32)"
  have sign: "bit x 32 \<longleftrightarrow> x < 0"
  proof (cases "x < 0")
    case True
    then have "x div 2 ^ 32 = -1" using assms by (simp add: div_eq_minus1)
    with True show ?thesis by (simp add: bit_iff_odd)
  next
    case False
    then have "x div 2 ^ 32 = 0" using assms by simp
    with False show ?thesis by (simp add: bit_iff_odd)
  qed
  have "0x80000000 = (2 ^ 31 :: u32)" by simp
  then have top: "bit (0x80000000 :: u32) n \<longleftrightarrow> n = 31"
    using n by (metis bit_exp_iff possible_bit_word)
  show "bit (drop_bit 1 (word_of_int x :: u32) OR (if x < 0 then 0x80000000 else 0)) n =
    bit (word_of_int (x div 2) :: u32) n"
  proof (cases "n = 31")
    case True
    then show ?thesis using sign by (simp add: bit_simps top flip: bit_Suc)
  next
    case False
    then show ?thesis using n top by (auto simp: bit_simps simp flip: bit_Suc)
  qed
qed


text \<open>
  "ALU output shifted right one, with the correct sign shifted in, regardless of
  overflow": for every arithmetic code but 020, 026 (M-A-1) and 034 (M+1), output bus
  selection 2 gives the exact result of the operation, halved and rounded down.
\<close>

theorem shifted_output_exact:
  assumes "exact_carry_op op"
  shows "output_bus 2 u m (fst (alu_arith op m a ci)) (snd (alu_arith op m a ci)) old_q
    = word_of_int (arith_exact op m a ci div 2)"
proof -
  have "snd (alu_arith op m a ci) \<noteq> 0 \<longleftrightarrow> arith_exact op m a ci < 0"
    using assms by (simp add: alu_arith_carry)
  then show ?thesis
    using shift_in_sign [OF arith_exact_range [of op m a ci]]
    by (simp add: output_bus_def alu_arith_exact)
qed

lemma shifted_output_exact_witness:
  "exact_carry_op 0x19 \<and>
   output_bus 2 0 0x7FFFFFFF (fst (alu_arith 0x19 0x7FFFFFFF 0x7FFFFFFF 1))
     (snd (alu_arith 0x19 0x7FFFFFFF 0x7FFFFFFF 1)) 0 = word_of_int (arith_exact 0x19 0x7FFFFFFF 0x7FFFFFFF 1 div 2)"
proof
  show op: "exact_carry_op 0x19" by (simp add: exact_carry_op_def)
  show "output_bus 2 0 0x7FFFFFFF (fst (alu_arith 0x19 0x7FFFFFFF 0x7FFFFFFF 1))
     (snd (alu_arith 0x19 0x7FFFFFFF 0x7FFFFFFF 1)) 0 = word_of_int (arith_exact 0x19 0x7FFFFFFF 0x7FFFFFFF 1 div 2)"
    by (rule shifted_output_exact [OF op])
qed

lemma bit31_shift_in: "bit (drop_bit 1 w OR (if b then 0x80000000 else 0) :: u32) 31 \<longleftrightarrow> b"
proof -
  have "bit (0x80000000 :: u32) 31"
    using bit_exp_iff [of 31 31, where 'a = u32] by simp
  then show ?thesis by (auto simp: bit_simps bit_imp_le_length dest: bit_imp_le_length)
qed

lemma sub_borrow:
  assumes "0 \<le> sint m" and "0 < sint a"
  shows "m - a < m \<longleftrightarrow> sint a \<le> sint (m :: u32)"
proof -
  have lt: "unat m < 2 ^ 31" "unat a < 2 ^ 31"
    using assms sint_nonneg_small [of m] sint_nonneg_small [of a] by simp_all
  note um = sint_eq_unat [OF lt(1)] and ua = sint_eq_unat [OF lt(2)]
  have "unat (m - a) = (if unat a \<le> unat m then unat m - unat a else unat m + 2 ^ 32 - unat a)"
    by (simp add: unat_sub_if_size word_size)
  moreover have "sint a \<le> sint m \<longleftrightarrow> unat a \<le> unat m"
    by (simp only: um ua of_nat_le_iff)
  moreover have "0 < unat a" using assms(2) by (simp only: ua of_nat_0_less_iff)
  moreover have "m - a < m \<longleftrightarrow> unat (m - a) < unat m" by (rule word_less_nat_alt)
  ultimately show ?thesis using lt by (cases "unat a \<le> unat m") simp_all
qed

text \<open>
  C36. The remark does not hold for the subtraction, code 026: its carry is the unsigned
  comparison of the difference with M, so that for a non-negative M and a positive A the
  sign shifted in is always the wrong one.
\<close>

theorem shifted_subtraction_wrong:
  assumes "0 \<le> sint m" and "0 < sint a"
  shows "output_bus 2 u m (fst (alu_arith 0x16 m a 1)) (snd (alu_arith 0x16 m a 1)) old_q
     \<noteq> word_of_int (arith_exact 0x16 m a 1 div 2)"
proof -
  let ?x = "arith_exact 0x16 m a 1"
  have x: "?x = sint m - sint a" by (simp add: arith_exact_def Let_def)
  have out: "output_bus 2 u m (fst (alu_arith 0x16 m a 1)) (snd (alu_arith 0x16 m a 1)) old_q
      = drop_bit 1 (m - a) OR (if \<not> ?x < 0 then 0x80000000 else 0)"
    using sub_borrow [OF assms]
    by (simp add: output_bus_def alu_arith_def sub32_def x)
  have exact: "word_of_int (?x div 2) = drop_bit 1 (word_of_int ?x :: u32) OR (if ?x < 0 then 0x80000000 else 0)"
    using shift_in_sign [OF arith_exact_range [of "0x16" m a 1]] by simp
  have "bit (drop_bit 1 (m - a) OR (if \<not> ?x < 0 then 0x80000000 else 0) :: u32) 31 \<longleftrightarrow> \<not> ?x < 0"
    by (rule bit31_shift_in)
  moreover have "bit (word_of_int (?x div 2) :: u32) 31 \<longleftrightarrow> ?x < 0"
    unfolding exact by (rule bit31_shift_in)
  ultimately show ?thesis unfolding out by metis
qed

lemma shifted_subtraction_wrong_witness:
  "output_bus 2 0 5 (fst (alu_arith 0x16 5 3 1)) (snd (alu_arith 0x16 5 3 1)) 0
     \<noteq> word_of_int (arith_exact 0x16 5 3 1 div 2)"
  by (rule shifted_subtraction_wrong) simp_all

subsection \<open>Multiplication by 32 multiply steps\<close>

text \<open>
  One multiply-step instruction: ALU code 040 without carry, Q shifted right, the output
  bus taking the ALU shifted right back into M.
\<close>

definition multiply_step :: "u32 \<Rightarrow> u32 \<times> u32 \<Rightarrow> u32 \<times> u32" where
  "multiply_step a mq =
    (let (m, q) = mq; (out, carry) = alu 0x20 m a 0 q 0 in (output_bus 2 2 m out carry q, q_control 2 q out))"

lemma sign_mask: "(w :: u32) AND 0x80000000 = 0 \<longleftrightarrow> 0 \<le> sint w"
proof -
  have "w AND 0x80000000 = 0 \<longleftrightarrow> \<not> bit w 31"
    using and_exp_eq_0_iff_not_bit [of w 31] by simp
  also have "\<dots> \<longleftrightarrow> 0 \<le> sint w"
    using bit_last_iff [of w] by (simp add: not_less)
  finally show ?thesis .
qed

lemma odd_mask: "(w :: u32) AND 1 = 0 \<longleftrightarrow> even (uint w)"
proof -
  have "w AND 1 = 0 \<longleftrightarrow> \<not> bit w 0"
    using and_exp_eq_0_iff_not_bit [of w 0] by simp
  also have "\<dots> \<longleftrightarrow> \<not> bit (uint w) 0" by (simp only: bit_uint_iff) simp
  finally show ?thesis by (simp add: bit_0)
qed

lemma uint_shift_in:
  "uint (drop_bit 1 q OR (if b then 0x80000000 else 0) :: u32) = uint q div 2 + of_bool b * 2 ^ 31"
proof -
  have half: "uint (drop_bit 1 q :: u32) = uint q div 2"
    by (simp only: uint_nat unat_drop_bit zdiv_int of_nat_power of_nat_numeral power_one_right)
  have lt: "uint q div 2 < 2 ^ 31"
    using uint_bounded [of q] by simp
  have "unat (drop_bit 1 q :: u32) < 2 ^ 31"
    using half lt by (simp only: unat_less_uint)
  then have "\<not> bit (drop_bit 1 q :: u32) 31" by (rule not_bit_small) simp
  then have disj: "drop_bit 1 q AND (0x80000000 :: u32) = 0"
    using and_exp_eq_0_iff_not_bit [of "drop_bit 1 q :: u32" 31] by simp
  have "uint (drop_bit 1 q + 0x80000000 :: u32) = uint q div 2 + 2 ^ 31"
    using half lt by (simp add: uint_word_ariths(1))
  then show ?thesis
    using half disj by (simp add: disjunctive_add_eq_or [symmetric])
qed


lemma multiply_step_exact:
  assumes "multiply_step a (m, q) = (m', q')"
    and "S = sint m + (if odd (uint q) then sint a else 0)"
  shows "sint m' = S div 2" "uint q' = uint q div 2 + (S mod 2) * 2 ^ 31"
proof -
  define out where "out = (if odd (uint q) then a + m else m)"
  define carry :: u32 where "carry = (if S < 0 then 1 else 0)"
  have S: "- (2 ^ 32) \<le> S" "S < 2 ^ 32" "out = word_of_int S"
    using assms(2) sint_bounds [of m] sint_bounds [of a] by (auto simp: out_def)
  have alu: "alu 0x20 m a 0 q 0 = (out, carry)"
    using add32_carry [of a m 0] assms(2)
    by (auto simp: alu_def alu_cond_def Let_def out_def carry_def odd_mask sign_mask add32_def
        prod_eq_iff)
  have m': "m' = word_of_int (S div 2)"
    using assms(1) alu shift_in_sign [OF S(1,2)] S(3)
    by (simp add: multiply_step_def output_bus_def carry_def split: if_splits)
  then show "sint m' = S div 2"
    using S(1,2) by (simp add: sint_word_of_int)
  have "odd (uint out) = odd S"
    using S(3) by (simp add: unsigned_of_int even_take_bit_eq)
  then show "uint q' = uint q div 2 + (S mod 2) * 2 ^ 31"
    using assms(1) alu uint_shift_in [of q "odd S"]
    by (auto simp: multiply_step_def q_control_def ir_field_def odd_mask mod_2_eq_odd of_bool_def)
qed

text \<open>
  After \<open>k\<close> steps Q holds the \<open>32 - k\<close> multiplier bits still to come, below the \<open>k\<close> low
  bits of the product; M holds its high part.
\<close>

lemma multiply_steps_inv:
  assumes "k \<le> 32" and "(multiply_step a ^^ k) (m0, q0) = (m, q)"
  shows "\<exists>p. 0 \<le> p \<and> p < 2 ^ k \<and> uint q = uint q0 div 2 ^ k + 2 ^ (32 - k) * p \<and>
    sint m * 2 ^ k + p = sint m0 + sint a * (uint q0 mod 2 ^ k)"
  using assms
proof (induction k arbitrary: m q)
  case 0
  then show ?case by (intro exI [of _ 0]) simp
next
  case (Suc k)
  obtain m1 q1 where k: "(multiply_step a ^^ k) (m0, q0) = (m1, q1)"
    by (cases "(multiply_step a ^^ k) (m0, q0)")
  with Suc.prems(2) have step: "multiply_step a (m1, q1) = (m, q)" by simp
  from Suc.IH [OF _ k] Suc.prems(1) obtain p where p: "0 \<le> p" "p < 2 ^ k"
    and q1: "uint q1 = uint q0 div 2 ^ k + 2 ^ (32 - k) * p"
    and m1: "sint m1 * 2 ^ k + p = sint m0 + sint a * (uint q0 mod 2 ^ k)"
    by auto
  define S where "S = sint m1 + (if odd (uint q1) then sint a else 0)"
  note exact = multiply_step_exact [OF step S_def]
  have twice: "(2::int) ^ (32 - k) = 2 * 2 ^ (31 - k)"
    using Suc.prems(1) by (simp flip: power_Suc add: Suc_diff_le)
  have low: "odd (uint q1) \<longleftrightarrow> odd (uint q0 div 2 ^ k)"
    by (simp add: q1 twice)
  have half: "uint q1 div 2 = uint q0 div 2 ^ Suc k + 2 ^ (31 - k) * p"
  proof -
    have "uint q1 div 2 = (uint q0 div 2 ^ k + 2 * (2 ^ (31 - k) * p)) div 2"
      by (simp add: q1 twice mult.assoc)
    also have "\<dots> = uint q0 div 2 ^ k div 2 + 2 ^ (31 - k) * p" by simp
    also have "uint q0 div 2 ^ k div 2 = uint q0 div (2 ^ k * 2)"
      by (rule zdiv_zmult2_eq [symmetric]) simp
    finally show ?thesis by (simp add: mult.commute)
  qed
  define p' where "p' = p + 2 ^ k * (S mod 2)"
  have "(2::int) ^ 31 = 2 ^ (31 - k) * 2 ^ k"
    using Suc.prems(1) by (simp flip: power_add)
  then have "uint q = uint q0 div 2 ^ Suc k + 2 ^ (32 - Suc k) * p'"
    using exact(2) half by (simp add: p'_def algebra_simps)
  moreover have "0 \<le> p'" "p' < 2 ^ Suc k"
    using p by (auto simp: p'_def mod_2_eq_odd)
  moreover have "sint m * 2 ^ Suc k + p' = sint m0 + sint a * (uint q0 mod 2 ^ Suc k)"
  proof -
    have "sint m * 2 ^ Suc k + p' = 2 ^ k * (2 * (S div 2) + S mod 2) + p"
      unfolding exact(1) p'_def power_Suc distrib_left by (simp only: ac_simps)
    also have "2 * (S div 2) + S mod 2 = S" by simp
    finally have lhs: "sint m * 2 ^ Suc k + p' = 2 ^ k * S + p" .
    have "uint q0 mod (2 ^ k * 2) = 2 ^ k * (uint q0 div 2 ^ k mod 2) + uint q0 mod 2 ^ k"
      by (rule zmod_zmult2_eq) simp
    then have rhs: "uint q0 mod 2 ^ Suc k = uint q0 mod 2 ^ k + 2 ^ k * of_bool (odd (uint q1))"
      by (simp add: low mod_2_eq_odd mult.commute)
    show ?thesis
      unfolding lhs rhs using m1 by (simp add: S_def algebra_simps)
  qed
  ultimately show ?case by blast
qed

text \<open>
  C10. Thirty-two multiply-step instructions, started with M = 0 and the multiplier in Q,
  leave the exact 64-bit product: M is its signed high half, Q its low half, for a signed
  multiplicand A and an unsigned multiplier.
\<close>

theorem multiply_32_steps:
  "case (multiply_step a ^^ 32) (0, q0) of
     (hi, lo) \<Rightarrow> sint hi * 2 ^ 32 + uint lo = sint a * uint q0"
proof -
  obtain hi lo where steps: "(multiply_step a ^^ 32) (0, q0) = (hi, lo)"
    by (cases "(multiply_step a ^^ 32) (0, q0)")
  obtain p where "uint lo = uint q0 div 2 ^ 32 + 2 ^ (32 - 32) * p"
    "sint hi * 2 ^ 32 + p = sint (0 :: u32) + sint a * (uint q0 mod 2 ^ 32)"
    using multiply_steps_inv [OF _ steps] by auto
  then show ?thesis using uint_bounded [of q0] by (simp add: steps)
qed


subsection \<open>Byte fields\<close>

text \<open>The bits a byte instruction takes from M: from the right index to the left index.\<close>

definition in_field :: "u32 \<Rightarrow> u32 \<Rightarrow> u32 \<Rightarrow> nat \<Rightarrow> bool" where
  "in_field mr_sr_bits pos widthm1 i =
    (let r = (if mr_sr_bits AND 2 \<noteq> 0 then unat pos else 0)
     in r \<le> i \<and> i \<le> (r + unat widthm1) mod 32)"

lemma unat_add_and_31:
  assumes "unat (a :: u32) < 32" and "unat b < 32"
  shows "unat ((a + b) AND 0x1F) = (unat a + unat b) mod 32"
proof -
  have "unat ((a + b) AND mask 5) = unat (a + b) mod 32"
    by (simp only: unat_and_mask) simp
  also have "unat (a + b) = unat a + unat b"
    using assms by (simp add: unat_word_ariths)
  finally show ?thesis by (simp add: mask_eq_exp_minus_1)
qed

lemma unat_31_minus: "unat (l :: u32) < 32 \<Longrightarrow> 32 - unat (31 - l) = Suc (unat l)"
  by (simp add: unat_sub word_le_nat_alt)

lemma bit_byte_mask:
  assumes "unat pos < 32" and "unat widthm1 < 32" and "i < 32"
  shows "bit (byte_mask mr pos widthm1) i \<longleftrightarrow> in_field mr pos widthm1 i"
proof (cases "mr AND 2 \<noteq> 0")
  case True
  then show ?thesis
    using assms by (auto simp: byte_mask_def in_field_def Let_def bit_and_iff bit_mask_iff
        bit_not_iff unat_31_minus unat_add_and_31)
next
  case False
  then have "unat (widthm1 AND 0x1F) = unat widthm1"
    using unat_add_and_31 [of 0 widthm1] assms by simp
  with False show ?thesis
    using assms by (auto simp: byte_mask_def in_field_def Let_def bit_and_iff bit_mask_iff unat_31_minus)
qed

lemma bit_byte_op:
  assumes "unat pos < 32" and "unat widthm1 < 32" and "i < 32" and "mr \<in> {1, 2, 3}"
  shows "bit (byte_op mr pos widthm1 m a) i =
    (if in_field mr pos widthm1 i
     then bit (if mr = 2 then m else word_rotl (unat pos) m) i else bit a i)"
  using assms
  by (auto simp: byte_op_def Let_def bit_or_iff bit_and_iff bit_not_iff bit_byte_mask rotate_left_rotl)

text \<open>
  C30. The deposit instruction: when the field does not wrap around, the low bits of M land
  in the field at the given position and width, and every other bit is that of A.
\<close>

theorem dpb_deposits:
  assumes "unat pos + unat w < 32"
  shows "byte_op 3 pos w m a =
    push_bit (unat pos) (take_bit (Suc (unat w)) m) OR (a AND NOT (push_bit (unat pos) (mask (Suc (unat w)))))"
proof (rule bit_word_eqI)
  fix i
  assume "i < LENGTH(32)"
  with assms show "bit (byte_op 3 pos w m a) i =
    bit (push_bit (unat pos) (take_bit (Suc (unat w)) m) OR
      (a AND NOT (push_bit (unat pos) (mask (Suc (unat w)))))) i"
    by (auto simp: bit_byte_op in_field_def Let_def bit_or_iff bit_and_iff bit_not_iff
        bit_push_bit_iff bit_take_bit_iff bit_mask_iff bit_word_rotl_iff rotl_index)
qed

lemma dpb_deposits_witness:
  "byte_op 3 8 3 0x5A 0xFFFF = push_bit 8 (take_bit 4 0x5A) OR (0xFFFF AND NOT (push_bit 8 (mask 4)))"
  using dpb_deposits [of 8 3 "0x5A" "0xFFFF"] by simp

text \<open>Load: the field of M rotated down to the right end; the rest from A.\<close>

lemma ldb_loads:
  assumes "unat pos < 32" and "unat w < 32"
  shows "byte_op 1 pos w m a =
    take_bit (Suc (unat w)) (word_rotl (unat pos) m) OR (a AND NOT (mask (Suc (unat w))))"
proof (rule bit_word_eqI)
  fix i
  assume "i < LENGTH(32)"
  with assms show "bit (byte_op 1 pos w m a) i =
    bit (take_bit (Suc (unat w)) (word_rotl (unat pos) m) OR (a AND NOT (mask (Suc (unat w))))) i"
    by (auto simp: bit_byte_op in_field_def Let_def bit_or_iff bit_and_iff bit_not_iff
        bit_take_bit_iff bit_mask_iff)
qed

text \<open>
  Loading the field that was just deposited, with the rotation that brings it back to
  the right end, gives the low bits of what was deposited.
\<close>

theorem ldb_after_dpb:
  assumes "unat pos + unat w < 32" and "unat rot = (32 - unat pos) mod 32"
  shows "byte_op 1 rot w (byte_op 3 pos w m a) 0 = take_bit (Suc (unat w)) m"
proof (rule bit_word_eqI)
  fix i
  assume i: "i < LENGTH(32)"
  have rot: "unat rot < 32" using assms(2) by simp
  show "bit (byte_op 1 rot w (byte_op 3 pos w m a) 0) i = bit (take_bit (Suc (unat w)) m) i"
  proof (cases "i \<le> unat w")
    case True
    have idx: "(i + 32 - unat rot) mod 32 = i + unat pos"
      using assms True by (cases "unat pos = 0") auto
    show ?thesis
      using True i assms rot idx
      by (simp add: bit_byte_op in_field_def Let_def bit_word_rotl_iff bit_take_bit_iff rotl_index)
  next
    case False
    then show ?thesis
      using i assms rot by (simp add: bit_byte_op in_field_def Let_def bit_take_bit_iff)
  qed
qed

lemma ldb_after_dpb_witness:
  "byte_op 1 24 3 (byte_op 3 8 3 0x5A 0xFFFF) 0 = take_bit 4 0x5A"
  using ldb_after_dpb [of 8 3 24 "0x5A" "0xFFFF"] by simp

subsection \<open>The sequence break is never seen\<close>

lemma ucast_drops_bit26: "ucast (p OR (x AND 0x4000000) :: u32) = (ucast p :: u8)"
proof (rule bit_word_eqI)
  fix n
  assume n: "n < LENGTH(8)"
  have "\<not> bit (0x4000000 :: u32) n"
    using n bit_exp_iff [of 26 n, where 'a = u32] by auto
  with n show "bit (ucast (p OR (x AND 0x4000000) :: u32) :: u8) n = bit (ucast p :: u8) n"
    by (simp add: bit_simps)
qed

text \<open>
  \<open>sequence_break_flag\<close> is \<open>interrupt_control & (1 << 26)\<close>, and \<open>take_jump\<close> is a \<open>char\<close>:
  no jump condition, number 6 included, depends on the sequence break.
\<close>

theorem sequence_break_lost:
  "jump_condition u take_jump m a pf ie ip (ic AND 0x4000000) = jump_condition u take_jump m a pf ie ip 0"
  using ucast_drops_bit26 [of "pf OR ip" ic]
  by (simp add: jump_condition_def Let_def ucast_drops_bit26 or.assoc)

end
