(* ===== verification/Usim_Micro.thy ===== *)
theory Usim_Micro
  imports Usim_Window Usim_Datapath
begin

section \<open>The micro-instruction interpreter (ucode.c)\<close>

text \<open>
  Memories and stacks, the decoded destinations, the functional sources, the four kinds of
  instruction, and the loop of \<open>run\<close>.
\<close>

subsection \<open>Memories, PDL and SPC\<close>

definition write_a_mem :: "u32 \<Rightarrow> u32 \<Rightarrow> machine \<Rightarrow> machine option" where
  "write_a_mem loc v s = do {
     a \<leftarrow> st 1024 (a_memory (cpu s)) (unat loc) v;
     Some (s\<lparr>cpu := (cpu s)\<lparr>a_memory := a\<rparr>\<rparr>)
   }"

definition read_a_mem :: "u32 \<Rightarrow> machine \<Rightarrow> u32 option" where
  "read_a_mem loc s = ld 1024 (a_memory (cpu s)) (unat loc)"

definition read_m_mem :: "u32 \<Rightarrow> machine \<Rightarrow> u32 option" where
  "read_m_mem loc s = ld 32 (m_memory (cpu s)) (unat loc)"

definition write_m_mem :: "u32 \<Rightarrow> u32 \<Rightarrow> machine \<Rightarrow> machine option" where
  "write_m_mem loc v s = do {
     m \<leftarrow> st 32 (m_memory (cpu s)) (unat loc) v;
     a \<leftarrow> st 1024 (a_memory (cpu s)) (unat loc) v;
     Some (s\<lparr>cpu := (cpu s)\<lparr>m_memory := m, a_memory := a\<rparr>\<rparr>)
   }"

text \<open>\<open>write_pdl_mem use_index v s\<close>: \<open>USE_PDL_INDEX\<close> if \<open>use_index\<close>, else \<open>USE_PDL_PTR\<close>.\<close>

definition write_pdl_mem :: "bool \<Rightarrow> u32 \<Rightarrow> machine \<Rightarrow> machine option" where
  "write_pdl_mem use_index v s =
    (let p = (if use_index then pdl_index (cpu s) else pdl_ptr (cpu s)) in
     if sint p > 1024 then Some s
     else do {
       d \<leftarrow> st 1024 (pdl_memory (cpu s)) (unat p) v;
       Some (s\<lparr>cpu := (cpu s)\<lparr>pdl_memory := d\<rparr>\<rparr>)
     })"

definition push_spc :: "u32 \<Rightarrow> machine \<Rightarrow> machine option" where
  "push_spc pc s = do {
     let p = (spc_stack_ptr (cpu s) + 1) AND 0x1F;
     d \<leftarrow> st 32 (spc_stack (cpu s)) (unat p) pc;
     Some (s\<lparr>cpu := (cpu s)\<lparr>spc_stack_ptr := p, spc_stack := d\<rparr>\<rparr>)
   }"

definition pop_spc :: "machine \<Rightarrow> (machine \<times> u32) option" where
  "pop_spc s = do {
     v \<leftarrow> ld 32 (spc_stack (cpu s)) (unat (spc_stack_ptr (cpu s)));
     Some (s\<lparr>cpu := (cpu s)\<lparr>spc_stack_ptr := (spc_stack_ptr (cpu s) - 1) AND 0x1F\<rparr>\<rparr>, v)
   }"

text \<open>Start of a main memory read: the data arrives in \<open>new_md\<close> and moves to \<open>md\<close> later.\<close>

definition start_read :: "world \<Rightarrow> u32 \<Rightarrow> machine \<Rightarrow> machine option" where
  "start_read w vaddr s = do {
     (s1, v, _) \<leftarrow> read_mem w vaddr (new_md (cpu s)) s;
     Some (s1\<lparr>cpu := (cpu s1)\<lparr>new_md := v, new_md_delay := 2\<rparr>\<rparr>)
   }"

subsection \<open>The location counter\<close>

definition NEED_FETCH :: u32 where
  "NEED_FETCH = 0x80000000"

text \<open>
  \<open>advance_lc w ppc s\<close>: \<open>ppc\<close> is the program counter passed by reference, \<open>None\<close> for the null
  pointer; the second result is its value afterwards.
\<close>

definition advance_lc :: "world \<Rightarrow> u32 option \<Rightarrow> machine \<Rightarrow> (machine \<times> u32 option) option" where
  "advance_lc w ppc s = do {
     let byte_mode = lc_byte_mode_flag (cpu s) \<noteq> 0;
     let old_lc = lc (cpu s) AND 0x3FFFFFF;
     let lc1 = lc (cpu s) + (if byte_mode then 1 else 2);
     (s1, ppc1) \<leftarrow>
       (if lc1 AND NEED_FETCH \<noteq> 0 then do {
          s' \<leftarrow> start_read w (drop_bit 2 old_lc)
                 (s\<lparr>cpu := (cpu s)\<lparr>lc := lc1 AND NOT NEED_FETCH, vma := drop_bit 2 old_lc\<rparr>\<rparr>);
          Some (s', ppc)
        }
        else Some (s\<lparr>cpu := (cpu s)\<lparr>lc := lc1\<rparr>\<rparr>, map_option (\<lambda>pc. pc OR 2) ppc));
     let lc2 = lc (cpu s1);
     let lc0b = byte_mode \<and> lc2 AND 1 \<noteq> 0;
     let last_byte_in_word = (\<not> lc0b \<and> lc2 AND 2 = 0);
     Some (if last_byte_in_word then s1\<lparr>cpu := (cpu s1)\<lparr>lc := lc2 OR NEED_FETCH\<rparr>\<rparr> else s1, ppc1)
   }"

subsection \<open>Destinations\<close>

definition write_lc :: "u32 \<Rightarrow> machine \<Rightarrow> machine" where
  "write_lc out_bus s =
    (let lc1 = (lc (cpu s) AND NOT 0x3FFFFFF) OR (out_bus AND 0x3FFFFFF);
         lc2 = (if lc_byte_mode_flag (cpu s) \<noteq> 0 then lc1 else lc1 AND NOT 1)
     in s\<lparr>cpu := (cpu s)\<lparr>lc := lc2 OR NEED_FETCH\<rparr>\<rparr>)"

definition write_interrupt_control :: "u32 \<Rightarrow> machine \<Rightarrow> machine" where
  "write_interrupt_control out_bus s =
     s\<lparr>cpu := (cpu s)\<lparr>interrupt_control := out_bus,
         lc_byte_mode_flag := out_bus AND 0x20000000,
         bus_reset_flag := out_bus AND 0x10000000,
         interrupt_enable_flag := out_bus AND 0x8000000,
         sequence_break_flag := out_bus AND 0x4000000,
         lc := (lc (cpu s) AND NOT 0x3C000000) OR (out_bus AND 0x3C000000)\<rparr>\<rparr>"

definition write_map :: "machine \<Rightarrow> machine option" where
  "write_map s = do {
     let v = vma (cpu s);
     let d = md (cpu s);
     let l1_index = drop_bit 13 d AND 0x7FF;
     m1 \<leftarrow> (if drop_bit 26 v AND 1 \<noteq> 0 then do {
              l1 \<leftarrow> st 2048 (l1_map (mem s)) (unat l1_index) (drop_bit 27 v AND 0x1F);
              Some (invalidate_vtop_cache ((mem s)\<lparr>l1_map := l1\<rparr>))
            }
            else Some (mem s));
     m2 \<leftarrow> (if drop_bit 25 v AND 1 \<noteq> 0 then do {
              l1_data \<leftarrow> ld 2048 (l1_map m1) (unat l1_index);
              let l2_index = push_bit 5 l1_data OR (drop_bit 8 d AND 0x1F);
              l2 \<leftarrow> st 1024 (l2_map m1) (unat l2_index) v;
              (m', _) \<leftarrow> add_new_page_no (v AND 0x3FFF) (invalidate_vtop_cache (m1\<lparr>l2_map := l2\<rparr>));
              Some m'
            }
            else Some m1);
     Some (s\<lparr>mem := m2\<rparr>)
   }"

definition write_functional_dest :: "world \<Rightarrow> u32 \<Rightarrow> u32 \<Rightarrow> machine \<Rightarrow> machine option" where
  "write_functional_dest w code out_bus s =
    (if code = 1 then Some (write_lc out_bus s)
     else if code = 2 then Some (write_interrupt_control out_bus s)
     else if code = 8 then write_pdl_mem False out_bus s
     else if code = 9 then
       write_pdl_mem False out_bus (s\<lparr>cpu := (cpu s)\<lparr>pdl_ptr := (pdl_ptr (cpu s) + 1) AND 0x3FF\<rparr>\<rparr>)
     else if code = 10 then write_pdl_mem True out_bus s
     else if code = 11 then Some (s\<lparr>cpu := (cpu s)\<lparr>pdl_index := out_bus AND 0x3FF\<rparr>\<rparr>)
     else if code = 12 then Some (s\<lparr>cpu := (cpu s)\<lparr>pdl_ptr := out_bus AND 0x3FF\<rparr>\<rparr>)
     else if code = 13 then push_spc out_bus s
     else if code = 14 then
       Some (s\<lparr>cpu := (cpu s)\<lparr>oa_reg_lo := out_bus AND 0x3FFFFFF, oa_reg_lo_set := 1\<rparr>\<rparr>)
     else if code = 15 then Some (s\<lparr>cpu := (cpu s)\<lparr>oa_reg_hi := out_bus, oa_reg_hi_set := 1\<rparr>\<rparr>)
     else if code = 16 then Some (s\<lparr>cpu := (cpu s)\<lparr>vma := out_bus\<rparr>\<rparr>)
     else if code = 17 then start_read w out_bus (s\<lparr>cpu := (cpu s)\<lparr>vma := out_bus\<rparr>\<rparr>)
     else if code = 18 then do {
       (s1, _) \<leftarrow> write_mem w out_bus (md (cpu s)) (s\<lparr>cpu := (cpu s)\<lparr>vma := out_bus\<rparr>\<rparr>);
       Some s1
     }
     else if code = 19 then write_map (s\<lparr>cpu := (cpu s)\<lparr>vma := out_bus\<rparr>\<rparr>)
     else if code = 24 then Some (s\<lparr>cpu := (cpu s)\<lparr>md := out_bus\<rparr>\<rparr>)
     else if code = 25 then start_read w (vma (cpu s)) (s\<lparr>cpu := (cpu s)\<lparr>md := out_bus\<rparr>\<rparr>)
     else if code = 26 then do {
       (s1, _) \<leftarrow> write_mem w (vma (cpu s)) out_bus (s\<lparr>cpu := (cpu s)\<lparr>md := out_bus\<rparr>\<rparr>);
       Some s1
     }
     else if code = 27 then write_map (s\<lparr>cpu := (cpu s)\<lparr>md := out_bus\<rparr>\<rparr>)
     else Some s)"

definition write_dest :: "world \<Rightarrow> u32 \<Rightarrow> u32 \<Rightarrow> machine \<Rightarrow> machine option" where
  "write_dest w dest out_bus s =
    (if dest AND 0x800 \<noteq> 0 then write_a_mem (dest AND 0x7FF) out_bus s
     else do {
       s1 \<leftarrow> write_functional_dest w (drop_bit 5 dest) out_bus s;
       write_m_mem (dest AND 0x1F) out_bus s1
     })"

subsection \<open>M sources\<close>

definition spc_word :: "machine \<Rightarrow> u32 option" where
  "spc_word s = do {
     v \<leftarrow> ld 32 (spc_stack (cpu s)) (unat (spc_stack_ptr (cpu s)));
     Some (push_bit 24 (spc_stack_ptr (cpu s)) OR (v AND 0x7FFFF))
   }"

text \<open>\<open>functional_source code m s\<close>: \<open>m\<close> is the value an unused code leaves in \<open>m_src_value\<close>.\<close>

definition functional_source :: "u32 \<Rightarrow> u32 \<Rightarrow> machine \<Rightarrow> (machine \<times> u32) option" where
  "functional_source code m s =
    (if code = 0 then Some (s, dispatch_constant (cpu s))
     else if code = 1 then do { v \<leftarrow> spc_word s; Some (s, v) }
     else if code = 2 then Some (s, pdl_ptr (cpu s) AND 0x3FF)
     else if code = 3 then Some (s, pdl_index (cpu s) AND 0x3FF)
     else if code = 5 then
       do { v \<leftarrow> ld 1024 (pdl_memory (cpu s)) (unat (pdl_index (cpu s))); Some (s, v) }
     else if code = 6 then Some (s, opc (cpu s))
     else if code = 7 then Some (s, q (cpu s))
     else if code = 8 then Some (s, vma (cpu s))
     else if code = 9 then do {
       (m', l2, l1, _) \<leftarrow> map_vtop (md (cpu s)) (mem s);
       let l1_data = (case l1 of None \<Rightarrow> 0 | Some x \<Rightarrow> x);
       Some (s\<lparr>mem := m'\<rparr>,
             push_bit 31 (write_fault_bit (cpu s)) OR push_bit 30 (access_fault_bit (cpu s))
             OR push_bit 24 (l1_data AND 0x1F) OR (l2 AND 0xFFFFFF))
     }
     else if code = 10 then Some (s, md (cpu s))
     else if code = 11 then
       Some (s, if lc_byte_mode_flag (cpu s) \<noteq> 0 then lc (cpu s) else lc (cpu s) AND NOT 1)
     else if code = 12 then do {
       v \<leftarrow> spc_word s;
       Some (s\<lparr>cpu := (cpu s)\<lparr>spc_stack_ptr := (spc_stack_ptr (cpu s) - 1) AND 0x1F\<rparr>\<rparr>, v)
     }
     else if code = 20 then do {
       v \<leftarrow> ld 1024 (pdl_memory (cpu s)) (unat (pdl_ptr (cpu s)));
       Some (s\<lparr>cpu := (cpu s)\<lparr>pdl_ptr := (pdl_ptr (cpu s) - 1) AND 0x3FF\<rparr>\<rparr>, v)
     }
     else if code = 21 then
       do { v \<leftarrow> ld 1024 (pdl_memory (cpu s)) (unat (pdl_ptr (cpu s))); Some (s, v) }
     else Some (s, m))"

definition m_source :: "u32 \<Rightarrow> u32 \<Rightarrow> machine \<Rightarrow> (machine \<times> u32) option" where
  "m_source m_src m s =
    (if m_src AND 0x20 \<noteq> 0 then functional_source (m_src AND 0x1F) m s
     else do { v \<leftarrow> read_m_mem m_src s; Some (s, v) })"

subsection \<open>The two stacks\<close>

text \<open>
  SPC (return addresses, 32 cells) and PDL (1024 cells) keep the contract of a circular
  stack. The PDL is pushed through functional destination 011 and popped through functional
  source 024 (octal), which move \<open>pdl_ptr\<close>.
\<close>

definition spc_nth :: "machine \<Rightarrow> nat \<Rightarrow> u32" where
  "spc_nth s k = spc_stack (cpu s) ((unat (spc_stack_ptr (cpu s)) + 32 - k) mod 32)"

definition spc_ok :: "machine \<Rightarrow> bool" where
  "spc_ok s \<longleftrightarrow> unat (spc_stack_ptr (cpu s)) < 32"

interpretation spc: circular_stack push_spc pop_spc spc_nth 32 spc_ok
proof
  fix s v
  assume "spc_ok s"
  then have p: "unat (spc_stack_ptr (cpu s)) < 2 ^ 5" by (simp add: spc_ok_def)
  note up = ring_up [OF p, simplified] and down = ring_down [OF p, simplified]
  show "\<exists>s'. push_spc v s = Some s' \<and> spc_ok s' \<and> spc_nth s' 0 = v \<and>
      (\<forall>k. Suc k < 32 \<longrightarrow> spc_nth s' (Suc k) = spc_nth s k)"
    using up p ring_cells(1,3) [of "unat (spc_stack_ptr (cpu s))" 32]
    by (simp add: push_spc_def Let_def spc_ok_def spc_nth_def mask_num(1))
  show "\<exists>s'. pop_spc s = Some (s', spc_nth s 0) \<and> spc_ok s' \<and>
      (\<forall>k. Suc k < 32 \<longrightarrow> spc_nth s' k = spc_nth s (Suc k))"
    using down p ring_cells(2) [of "unat (spc_stack_ptr (cpu s))" 32]
    by (simp add: pop_spc_def spc_ok_def spc_nth_def mask_num(1))
qed

definition pdl_nth :: "machine \<Rightarrow> nat \<Rightarrow> u32" where
  "pdl_nth s k = pdl_memory (cpu s) ((unat (pdl_ptr (cpu s)) + 1024 - k) mod 1024)"

definition pdl_ok :: "machine \<Rightarrow> bool" where
  "pdl_ok s \<longleftrightarrow> unat (pdl_ptr (cpu s)) < 1024"

interpretation pdl: circular_stack "write_functional_dest w 9" "functional_source 20 m" pdl_nth 1024 pdl_ok
  for w m
proof
  fix s v
  assume "pdl_ok s"
  then have p: "unat (pdl_ptr (cpu s)) < 2 ^ 10" by (simp add: pdl_ok_def)
  note up = ring_up [OF p, simplified] and down = ring_down [OF p, simplified]
  have "\<not> sint ((pdl_ptr (cpu s) + 1) AND mask 10) > 1024"
    using up sint_eq_unat [of "(pdl_ptr (cpu s) + 1) AND mask 10"] by (simp only: not_less) simp
  then show "\<exists>s'. write_functional_dest w 9 v s = Some s' \<and> pdl_ok s' \<and> pdl_nth s' 0 = v \<and>
      (\<forall>k. Suc k < 1024 \<longrightarrow> pdl_nth s' (Suc k) = pdl_nth s k)"
    using up p ring_cells(1,3) [of "unat (pdl_ptr (cpu s))" 1024]
    by (simp add: write_functional_dest_def write_pdl_mem_def Let_def pdl_ok_def pdl_nth_def mask_num)
  show "\<exists>s'. functional_source 20 m s = Some (s', pdl_nth s 0) \<and> pdl_ok s' \<and>
      (\<forall>k. Suc k < 1024 \<longrightarrow> pdl_nth s' k = pdl_nth s (Suc k))"
    using down p ring_cells(2) [of "unat (pdl_ptr (cpu s))" 1024]
    by (simp add: functional_source_def pdl_ok_def pdl_nth_def mask_num)
qed

text \<open>
  The SPC stack is last in, first out: up to 32 return addresses pushed are popped in the
  reverse order, unchanged.
\<close>

theorem spc_last_in_first_out:
  assumes "spc_ok s" and "length pcs \<le> 32"
  shows "\<exists>s1 s2. push_all push_spc pcs s = Some s1 \<and> pop_all pop_spc (length pcs) s1 = Some (s2, rev pcs)"
  by (rule spc.last_in_first_out [OF assms])

lemma spc_last_in_first_out_witness:
  "\<exists>s1 s2. push_all push_spc [5, 6, 7] (machine_start (\<lambda>a i. 0)) = Some s1 \<and>
     pop_all pop_spc 3 s1 = Some (s2, [7, 6, 5])"
  using spc_last_in_first_out [of "machine_start (\<lambda>a i. 0)" "[5, 6, 7]"]
  by (simp add: spc_ok_def machine_start_def eval_nat_numeral del: pop_all.simps push_all.simps)

text \<open>
  The pushdown list (PDL) is last in, first out: up to 1024 words pushed through the
  functional destination that increments \<open>pdl_ptr\<close> are popped in the reverse order, unchanged,
  by the functional source that decrements it.
\<close>

theorem pdl_last_in_first_out:
  assumes "pdl_ok s" and "length vs \<le> 1024"
  shows "\<exists>s1 s2. push_all (write_functional_dest w 9) vs s = Some s1 \<and>
    pop_all (functional_source 20 m) (length vs) s1 = Some (s2, rev vs)"
  by (rule pdl.last_in_first_out [OF assms])

lemma pdl_last_in_first_out_witness:
  "\<exists>s1 s2. push_all (write_functional_dest quiet_world 9) [5, 6, 7] (machine_start (\<lambda>a i. 0)) = Some s1 \<and>
     pop_all (functional_source 20 0) 3 s1 = Some (s2, [7, 6, 5])"
  using pdl_last_in_first_out [of "machine_start (\<lambda>a i. 0)" "[5, 6, 7]" quiet_world 0]
  by (simp add: pdl_ok_def machine_start_def eval_nat_numeral del: pop_all.simps push_all.simps)

subsection \<open>Writing the map\<close>

lemma write_map_mapped:
  assumes "bit (vma (cpu s)) 26" and "bit (vma (cpu s)) 25"
  shows "\<exists>s'. write_map s = Some s' \<and> cpu s' = cpu s \<and>
    l1_map (mem s') = (l1_map (mem s))(unat (drop_bit 13 (md (cpu s)) AND 0x7FF) := drop_bit 27 (vma (cpu s)) AND 0x1F) \<and>
    l2_map (mem s') = (l2_map (mem s))(unat (push_bit 5 (drop_bit 27 (vma (cpu s)) AND 0x1F) OR (drop_bit 8 (md (cpu s)) AND 0x1F)) := vma (cpu s)) \<and>
    phy_pages (mem s') (unat (vma (cpu s) AND 0x3FFF)) \<noteq> None"
proof -
  define v where "v = vma (cpu s)"
  define d where "d = md (cpu s)"
  define i1 where "i1 = unat (drop_bit 13 d AND 0x7FF)"
  define e1 where "e1 = drop_bit 27 v AND 0x1F"
  define i2 where "i2 = unat (push_bit 5 e1 OR (drop_bit 8 d AND 0x1F))"
  have "i1 < 2048" by (simp add: i1_def)
  moreover have "i2 < 1024" unfolding i2_def e1_def by (rule l2_index_less)
  moreover have "drop_bit 26 v AND 1 \<noteq> 0" "drop_bit 25 v AND 1 \<noteq> 0"
    using assms by (simp_all add: v_def and_one_eq bit_iff_odd_drop_bit odd_iff_mod_2_eq_one)
  moreover define m where "m = invalidate_vtop_cache (invalidate_vtop_cache ((mem s)\<lparr>l1_map := (l1_map (mem s))(i1 := e1)\<rparr>)
    \<lparr>l2_map := (l2_map (mem s))(i2 := v)\<rparr>)"
  obtain m' r where add: "add_new_page_no (v AND 0x3FFF) m = Some (m', r)"
    using add_new_page_no_safe [of "v AND 0x3FFF" m] by auto
  ultimately have "write_map s = Some (s\<lparr>mem := m'\<rparr>)"
    by (simp add: write_map_def Let_def invalidate_vtop_cache_def m_def
        flip: v_def d_def i1_def e1_def i2_def)
  moreover have "l1_map m' = (l1_map (mem s))(i1 := e1)" "l2_map m' = (l2_map (mem s))(i2 := v)"
    using add_new_page_no_frame [OF add] by (simp_all add: m_def invalidate_vtop_cache_def)
  moreover note add_new_page_no_present [OF add]
  ultimately show ?thesis by (simp add: v_def d_def i1_def e1_def i2_def)
qed


text \<open>
  A map write that sets both levels (bits 26 and 25 of VMA) is what translation uses from
  then on: the address in MD, unless it bypasses the map, translates to the page word in VMA,
  and the physical page exists. Addresses of other 8K blocks that do not share the level-2
  slot translate as before.
\<close>

theorem written_map_translates:
  assumes "bit (vma (cpu s)) 26" and "bit (vma (cpu s)) 25" and "\<not> unmapped_area (md (cpu s))"
  shows "\<exists>s' m'. write_map s = Some s' \<and>
    map_vtop (md (cpu s)) (mem s') = Some (m', vma (cpu s), Some (drop_bit 27 (vma (cpu s)) AND 0x1F), md (cpu s) AND 0xFF) \<and>
    phy_pages m' (unat (vma (cpu s) AND 0x3FFF)) \<noteq> None \<and>
    (\<forall>x. \<not> unmapped_area x \<longrightarrow> drop_bit 13 x AND 0x7FF \<noteq> drop_bit 13 (md (cpu s)) AND 0x7FF \<longrightarrow>
       l2_slot (mem s) x \<noteq> l2_slot (mem s') (md (cpu s)) \<longrightarrow>
       map_option (\<lambda>(_, r). r) (map_vtop x (mem s')) = map_option (\<lambda>(_, r). r) (map_vtop x (mem s)))"
proof -
  obtain s' where s': "write_map s = Some s'"
    "l1_map (mem s') = (l1_map (mem s))(unat (drop_bit 13 (md (cpu s)) AND 0x7FF) := drop_bit 27 (vma (cpu s)) AND 0x1F)"
    "l2_map (mem s') = (l2_map (mem s))(unat (push_bit 5 (drop_bit 27 (vma (cpu s)) AND 0x1F) OR (drop_bit 8 (md (cpu s)) AND 0x1F)) := vma (cpu s))"
    "phy_pages (mem s') (unat (vma (cpu s) AND 0x3FFF)) \<noteq> None"
    using write_map_mapped [OF assms(1,2)] by blast
  have e: "l1_entry (mem s') (md (cpu s)) = drop_bit 27 (vma (cpu s)) AND 0x1F"
    by (simp add: l1_entry_def s'(2) and.assoc)
  then have slot: "l2_slot (mem s') (md (cpu s))
      = unat (push_bit 5 (drop_bit 27 (vma (cpu s)) AND 0x1F) OR (drop_bit 8 (md (cpu s)) AND 0x1F))"
    by (simp only: l2_slot_def)
  obtain m' where m': "map_vtop (md (cpu s)) (mem s') = Some (m', vma (cpu s), Some (drop_bit 27 (vma (cpu s)) AND 0x1F), md (cpu s) AND 0xFF)"
    using map_vtop_mapped [OF assms(3), of "mem s'"] e slot by (auto simp: s'(3))
  have "map_option (\<lambda>(_, r). r) (map_vtop x (mem s')) = map_option (\<lambda>(_, r). r) (map_vtop x (mem s))"
    if x: "\<not> unmapped_area x" "drop_bit 13 x AND 0x7FF \<noteq> drop_bit 13 (md (cpu s)) AND 0x7FF"
      "l2_slot (mem s) x \<noteq> l2_slot (mem s') (md (cpu s))" for x
  proof -
    have "unat (drop_bit 13 x AND 0x7FF) \<noteq> unat (drop_bit 13 (md (cpu s)) AND 0x7FF)"
      using x(2) by (simp only: word_unat_eq_iff not_False_eq_True)
    then have "l1_entry (mem s') x = l1_entry (mem s) x"
      unfolding l1_entry_def s'(2) by (simp only: fun_upd_def if_False)
    then have "l2_slot (mem s') x = l2_slot (mem s) x" "l1_entry (mem s') x = l1_entry (mem s) x"
      by (simp_all only: l2_slot_def)
    moreover have "l2_map (mem s') (l2_slot (mem s) x) = l2_map (mem s) (l2_slot (mem s) x)"
      using x(3) unfolding slot s'(3) by (rule fun_upd_other)
    ultimately show ?thesis
      using map_vtop_mapped [OF x(1), of "mem s"] map_vtop_mapped [OF x(1), of "mem s'"] by auto
  qed
  moreover have "phy_pages m' = phy_pages (mem s')" by (rule map_vtop_frame(1) [OF m'])
  ultimately show ?thesis using s'(1,4) m' by (intro exI [of _ s'] exI [of _ m']) simp
qed

definition map_example :: machine where
  "map_example = (machine_start (\<lambda>a i. 0))\<lparr>cpu := (cpu (machine_start (\<lambda>a i. 0)))\<lparr>vma := 0x1EC00005, md := 0x4321\<rparr>\<rparr>"

lemma written_map_translates_witness:
  "\<exists>s' m'. write_map map_example = Some s' \<and>
     map_vtop 0x4321 (mem s') = Some (m', 0x1EC00005, Some 3, 0x21) \<and> phy_pages m' 5 \<noteq> None"
  using written_map_translates [of map_example]
    bit_take_bit_iff [of 27 "0x1EC00005 :: u32" 26] bit_take_bit_iff [of 26 "0x1EC00005 :: u32" 25]
  by (fastforce simp: map_example_def unmapped_area_def)

lemma start_read_frame:
  assumes "start_read w vaddr s = Some s'"
  shows "lc (cpu s') = lc (cpu s)" "lc_byte_mode_flag (cpu s') = lc_byte_mode_flag (cpu s)"
    "vma (cpu s') = vma (cpu s)" "new_md_delay (cpu s') = 2"
  using assms by (auto simp: start_read_def Let_def same_cpu_fields dest!: read_mem_frame
      split: bind_splits prod.splits)

subsection \<open>The location counter\<close>

definition lc_count :: "machine \<Rightarrow> u32" where
  "lc_count s = lc (cpu s) AND 0x3FFFFFF"

definition need_fetch :: "machine \<Rightarrow> bool" where
  "need_fetch s \<longleftrightarrow> bit (lc (cpu s)) 31"

definition lc_unit :: "machine \<Rightarrow> u32" where
  "lc_unit s = (if lc_byte_mode_flag (cpu s) \<noteq> 0 then 1 else 2)"

lemma need_fetch_mask: "(x :: u32) AND NEED_FETCH = 0 \<longleftrightarrow> \<not> bit x 31"
  using and_exp_eq_0_iff_not_bit [of x 31] by (simp add: NEED_FETCH_def)

lemma bit_need_fetch: "bit NEED_FETCH n \<longleftrightarrow> n = 31"
  using bit_exp_iff [of 31 n, where 'a = u32] by (auto simp: NEED_FETCH_def)


text \<open>Counting in the low 26 bits leaves the flags above alone.\<close>

lemma add_in_field:
  assumes "unat (x AND mask 26) + unat c < 2 ^ 26"
  shows "(x + c) AND mask 26 = (x AND mask 26) + (c :: u32)"
    "26 \<le> n \<Longrightarrow> n < 32 \<Longrightarrow> bit (x + c) n = bit x n"
proof -
  have less: "unat x mod 2 ^ 26 + unat c < 2 ^ 26"
    using assms by (simp only: unat_and_mask)
  define d where "d = unat x div 2 ^ 26"
  define r where "r = unat x mod 2 ^ 26"
  have "d \<le> 63" using unsigned_less [of x, where 'a = nat] by (simp add: d_def)
  moreover have x: "unat x = r + 2 ^ 26 * d"
    unfolding d_def r_def by (rule mod_mult_div_eq [symmetric])
  moreover have rc: "r + unat c < 2 ^ 26" using less by (simp only: r_def)
  ultimately have "unat x + unat c < 2 ^ 32" by simp
  then have sum_eq: "unat (x + c) = unat x + unat c"
    by (subst unat_plus_simple [THEN iffD1]) (auto simp: no_olen_add_nat)
  have "(unat x + unat c) mod 2 ^ 26 = unat x mod 2 ^ 26 + unat c"
    using less by (metis mod_add_left_eq mod_less)
  moreover have "unat ((x AND mask 26) + c) = unat x mod 2 ^ 26 + unat c"
    using less by (subst unat_plus_simple [THEN iffD1]) (auto simp: no_olen_add_nat unat_and_mask)
  ultimately show "(x + c) AND mask 26 = (x AND mask 26) + c"
    by (simp only: word_unat_eq_iff unat_and_mask sum_eq)
  have "unat x + unat c = (r + unat c) + 2 ^ 26 * d" using x by simp
  then have "(unat x + unat c) div 2 ^ 26 = unat x div 2 ^ 26"
    using rc unfolding d_def [symmetric] by simp
  then have "drop_bit 26 (x + c) = drop_bit 26 x"
    by (simp only: word_unat_eq_iff unat_drop_bit sum_eq)
  then have "bit (drop_bit 26 (x + c)) (n - 26) = bit (drop_bit 26 x) (n - 26)" by simp
  then show "26 \<le> n \<Longrightarrow> n < 32 \<Longrightarrow> bit (x + c) n = bit x n"
    by (simp add: bit_drop_bit_eq)
qed


lemma low_bits:
  "(x :: u32) AND 1 = 0 \<longleftrightarrow> \<not> bit x 0" "x AND 2 = 0 \<longleftrightarrow> \<not> bit x 1"
  "x AND 3 = 0 \<longleftrightarrow> \<not> bit x 0 \<and> \<not> bit x 1"
proof -
  show a: "x AND 1 = 0 \<longleftrightarrow> \<not> bit x 0" and b: "x AND 2 = 0 \<longleftrightarrow> \<not> bit x 1"
    using and_exp_eq_0_iff_not_bit [of x 0] and_exp_eq_0_iff_not_bit [of x 1] by simp_all
  have "x AND 3 = (x AND 1) OR (x AND 2)" by (simp flip: bit.conj_disj_distrib)
  then show "x AND 3 = 0 \<longleftrightarrow> \<not> bit x 0 \<and> \<not> bit x 1"
    by (simp add: or_eq_0_iff a b)
qed

text \<open>The end of \<open>advance_lc\<close>: NEED-FETCH goes up at a word boundary.\<close>

lemma lc_tail:
  assumes "L AND mask 26 = c" and "\<not> bit L 31" and "\<not> byte \<Longrightarrow> \<not> bit c 0"
    and "L' = (if \<not> (byte \<and> L AND 1 \<noteq> 0) \<and> L AND 2 = 0 then L OR NEED_FETCH else (L :: u32))"
  shows "L' AND mask 26 = c" "bit L' 31 \<longleftrightarrow> c AND 3 = 0"
proof -
  have low: "bit L 0 = bit c 0" "bit L 1 = bit c 1" using assms(1) by (auto simp: bit_simps)
  have "NEED_FETCH AND mask 26 = 0"
    by (simp add: NEED_FETCH_def mask_eq_exp_minus_1)
  then show "L' AND mask 26 = c" using assms(1,4) by (simp add: bit.conj_disj_distrib2)
  show "bit L' 31 \<longleftrightarrow> c AND 3 = 0"
    using assms(2-4) low by (auto simp: low_bits bit_or_iff bit_need_fetch)
qed

text \<open>
  Advancing the location counter counts one byte or one halfword within its 26 bits. With
  NEED-FETCH set it starts the memory read of the word the counter was at (and comes back
  without a result only if that read does); otherwise it touches no memory and sets bit 1
  of the program counter it is given. NEED-FETCH is set afterwards exactly when the counter
  has reached a word boundary.
\<close>

theorem advance_lc_fetches:
  assumes "unat (lc_count s) + 2 < 2 ^ 26" and "lc_byte_mode_flag (cpu s) = 0 \<Longrightarrow> \<not> bit (lc_count s) 0"
  shows "case advance_lc w ppc s of
      None \<Rightarrow> need_fetch s
    | Some (s', ppc') \<Rightarrow>
        lc_count s' = lc_count s + lc_unit s \<and>
        (need_fetch s' \<longleftrightarrow> lc_count s' AND 3 = 0) \<and>
        (if need_fetch s
         then vma (cpu s') = drop_bit 2 (lc_count s) \<and> new_md_delay (cpu s') = 2 \<and> ppc' = ppc
         else vma (cpu s') = vma (cpu s) \<and> mem s' = mem s \<and> ppc' = map_option (\<lambda>pc. pc OR 2) ppc)"
proof -
  define u where "u = lc_unit s"
  define lc1 where "lc1 = lc (cpu s) + u"
  have u: "unat u \<le> 2" "u = (if lc_byte_mode_flag (cpu s) \<noteq> 0 then 1 else 2)"
    by (simp_all add: u_def lc_unit_def)
  have c26: "lc_count x = lc (cpu x) AND mask 26" for x by (simp add: lc_count_def mask_num)
  have "unat (lc (cpu s) AND mask 26) + unat u < 2 ^ 26"
    using assms(1) u(1) unfolding c26 by linarith
  note add = add_in_field [OF this]
  have cnt: "lc1 AND mask 26 = lc_count s + u" unfolding lc1_def c26 by (rule add(1))
  have b31: "bit lc1 31 = need_fetch s" using add(2) [of 31] by (simp add: lc1_def need_fetch_def)
  define byte where "byte \<longleftrightarrow> lc_byte_mode_flag (cpu s) \<noteq> 0"
  have even_cnt: "\<not> bit (lc_count s + u) 0" if "\<not> byte"
    using assms(2) that u(2) by (simp add: byte_def bit_0)
  have nf: "NOT NEED_FETCH AND mask 26 = mask 26"
    by (simp add: NEED_FETCH_def mask_eq_exp_minus_1)
  have clr: "(lc1 AND NOT NEED_FETCH) AND mask 26 = lc_count s + u" "\<not> bit (lc1 AND NOT NEED_FETCH) 31"
    by (simp_all add: and.assoc nf cnt bit_and_iff bit_not_iff bit_need_fetch)
  have lc1_eq: "lc (cpu s) + (if byte then 1 else 2) = lc1" by (simp add: lc1_def u(2) byte_def)
  have old: "lc (cpu s) AND 0x3FFFFFF = lc_count s" by (simp add: lc_count_def)
  show ?thesis
  proof (cases "need_fetch s")
    case True
    then have nz: "lc1 AND NEED_FETCH \<noteq> 0" by (simp add: need_fetch_mask b31)
    define s0 where "s0 = s\<lparr>cpu := (cpu s)\<lparr>lc := lc1 AND NOT NEED_FETCH, vma := drop_bit 2 (lc_count s)\<rparr>\<rparr>"
    show ?thesis
    proof (cases "start_read w (drop_bit 2 (lc_count s)) s0")
      case None
      then show ?thesis using True nz
        by (simp add: advance_lc_def Let_def old lc1_eq flip: byte_def s0_def)
    next
      case (Some s1)
      note fr = start_read_frame [OF Some]
      have L: "lc (cpu s1) = lc1 AND NOT NEED_FETCH" using fr(1) by (simp add: s0_def)
      define L' where "L' = (if \<not> (byte \<and> lc (cpu s1) AND 1 \<noteq> 0) \<and> lc (cpu s1) AND 2 = 0 then lc (cpu s1) OR NEED_FETCH else lc (cpu s1))"
      define s2 where "s2 = s1\<lparr>cpu := (cpu s1)\<lparr>lc := L'\<rparr>\<rparr>"
      have "advance_lc w ppc s = Some (s2, ppc)"
        using Some nz by (simp add: advance_lc_def Let_def old lc1_eq s2_def L'_def flip: byte_def s0_def)
      moreover note lc_tail [OF clr(1,2) even_cnt L'_def [unfolded L]]
      ultimately show ?thesis
        using True fr by (simp add: s2_def s0_def c26 need_fetch_def flip: u_def)
    qed
  next
    case False
    then have z: "lc1 AND NEED_FETCH = 0" and nb: "\<not> bit lc1 31" by (simp_all add: need_fetch_mask b31)
    define L' where "L' = (if \<not> (byte \<and> lc1 AND 1 \<noteq> 0) \<and> lc1 AND 2 = 0 then lc1 OR NEED_FETCH else lc1)"
    define s2 where "s2 = s\<lparr>cpu := (cpu s)\<lparr>lc := L'\<rparr>\<rparr>"
    have "advance_lc w ppc s = Some (s2, map_option (\<lambda>pc. pc OR 2) ppc)"
      using z by (simp add: advance_lc_def Let_def old lc1_eq s2_def L'_def flip: byte_def)
    moreover note lc_tail [OF cnt nb even_cnt L'_def]
    ultimately show ?thesis
      using False by (simp add: s2_def c26 need_fetch_def flip: u_def)
  qed
qed

lemma advance_lc_fetches_witness:
  "\<exists>s' ppc'. advance_lc quiet_world (Some 0x4000) (write_lc 0x102 (machine_start (\<lambda>a i. 0))) = Some (s', ppc') \<and>
     lc_count s' = 0x104 \<and> vma (cpu s') = 0x40 \<and> need_fetch s'"
proof -
  let ?s = "write_lc 0x102 (machine_start (\<lambda>a i. 0))"
  have f: "lc (cpu ?s) = 0x80000102" "lc_byte_mode_flag (cpu ?s) = 0"
    by (simp_all add: write_lc_def machine_start_def NEED_FETCH_def)
  have "need_fetch ?s" using bit_exp_iff [of 31 31, where 'a = u32] need_fetch_mask [of "lc (cpu ?s)"]
    by (simp add: need_fetch_def f NEED_FETCH_def)
  moreover have "lc_count ?s = 0x102" "lc_unit ?s = 2" by (simp_all add: lc_count_def lc_unit_def f)
  moreover have "advance_lc quiet_world (Some 0x4000) ?s \<noteq> None"
    by (simp add: advance_lc_def start_read_def read_mem_def map_vtop_def write_lc_def machine_start_def
        mem_start_def NEED_FETCH_def Let_def fault_defs)
  ultimately show ?thesis
    using advance_lc_fetches [where s = ?s and w = quiet_world and ppc = "Some 0x4000"] low_bits(1) [of "0x102"]
    by (auto simp: f split: option.splits)
qed

end
