(* ===== verification/Usim_Exec.thy ===== *)
theory Usim_Exec
  imports Usim_Micro
begin

section \<open>Instruction execution and the main loop (run in ucode.c)\<close>

text \<open>
  Each \<open>exec_\<close> function is one case of the switch on \<open>op_code\<close>. \<open>locals\<close> holds the
  variables of \<open>run\<close> that survive from one instruction to the next; \<open>at_next\<close> says that
  control is at the label \<open>next\<close>, reached by \<open>goto\<close> from a no-op, and not at the top of the
  \<open>while\<close> loop.
\<close>

record locals =
  p1 :: u64
  p0_pc :: u32
  p1_pc :: u32
  no_exec_next :: bool
  m_src_value :: u32
  at_next :: bool

text \<open>What an instruction tells the loop: is the POPJ bit inhibited, is the next one skipped.\<close>

record outcome =
  after :: machine
  inhibit_popj :: bool
  skip_next :: bool

definition plain :: "machine \<Rightarrow> outcome" where
  "plain s = \<lparr>after = s, inhibit_popj = False, skip_next = False\<rparr>"

definition NOP_MASK :: u64 where
  "NOP_MASK = 0x7FFFFFFFEFFF"

subsection \<open>ALU\<close>

definition exec_alu :: "world \<Rightarrow> u64 \<Rightarrow> u32 \<Rightarrow> u32 \<Rightarrow> machine \<Rightarrow> outcome option" where
  "exec_alu w u m a s = do {
     let dest = ir_field u 14 0xFFF;
     let carry_in = ir_field u 2 1;
     let aluop = ir_field u 3 0x3F;
     let old_q = q (cpu s);
     let (out, carry) = alu aluop m a carry_in old_q (alu_out (cpu s));
     let s1 = s\<lparr>cpu := (cpu s)\<lparr>alu_out := out, alu_carry := carry, q := q_control u old_q out\<rparr>\<rparr>;
     s2 \<leftarrow> write_dest w dest (output_bus (ir_field u 12 3) u m out carry old_q) s1;
     Some (plain s2)
   }"

subsection \<open>JUMP, and the jump part shared with DISPATCH\<close>

definition write_ucode :: "u32 \<Rightarrow> u32 \<Rightarrow> u32 \<Rightarrow> machine \<Rightarrow> machine option" where
  "write_ucode new_pc a m s = do {
     c \<leftarrow> st 16384 (ucode (cpu s)) (unat new_pc) (push_bit 32 (ucast (a AND 0xFFFF)) OR ucast m);
     Some (s\<lparr>cpu := (cpu s)\<lparr>ucode := c\<rparr>\<rparr>)
   }"

definition return_pc :: "world \<Rightarrow> machine \<Rightarrow> (machine \<times> u32) option" where
  "return_pc w s = do {
     (s1, pc) \<leftarrow> pop_spc s;
     (s2, pc2) \<leftarrow> (if drop_bit 14 pc AND 1 \<noteq> 0 then do {
                     (s', ppc) \<leftarrow> advance_lc w (Some pc) s1;
                     Some (s', the ppc)
                   }
                   else Some (s1, pc));
     Some (s2, pc2 AND 0x3FFF)
   }"

definition process_jump ::
  "world \<Rightarrow> bool \<Rightarrow> u64 \<Rightarrow> u32 \<Rightarrow> bool \<Rightarrow> bool \<Rightarrow> bool \<Rightarrow> bool \<Rightarrow> u8 \<Rightarrow> u32 \<Rightarrow> u32 \<Rightarrow> machine \<Rightarrow> outcome option" where
  "process_jump w is_jump u new_pc r_bit p_bit n_bit invert_sense take0 m a s = do {
     let c = cpu s;
     let (take1, m1) = jump_condition u take0 m a (page_fault_flag c) (interrupt_enable_flag c)
                         (interrupt_pending_flag (intr s)) (sequence_break_flag c);
     let take_jump = (if invert_sense then take1 = 0 else take1 \<noteq> 0);
     s1 \<leftarrow> (if p_bit \<and> take_jump
            then push_spc (if \<not> n_bit then u_pc c else u_pc c - 1) s else Some s);
     s2 \<leftarrow> (if p_bit \<and> r_bit \<and> is_jump then write_ucode new_pc a m1 s1 else Some s1);
     (s3, new_pc3) \<leftarrow> (if r_bit \<and> take_jump then return_pc w s2 else Some (s2, new_pc));
     Some (if take_jump
           then \<lparr>after = s3\<lparr>cpu := (cpu s3)\<lparr>u_pc := new_pc3\<rparr>\<rparr>, inhibit_popj = True, skip_next = n_bit\<rparr>
           else plain s3)
   }"

definition exec_jump :: "world \<Rightarrow> u64 \<Rightarrow> u32 \<Rightarrow> u32 \<Rightarrow> machine \<Rightarrow> outcome option" where
  "exec_jump w u m a s =
    (if ir_field u 10 3 = 1 then Some (plain (s\<lparr>run_ucode_flag := False\<rparr>))
     else process_jump w True u (ir_field u 12 0x3FFF) (bit u 9) (bit u 8) (bit u 7) (bit u 6) 0 m a s)"

subsection \<open>DISPATCH\<close>

definition dispatch_map_bits :: "u32 \<Rightarrow> machine \<Rightarrow> (machine \<times> u32) option" where
  "dispatch_map_bits map_sel s =
    (if map_sel = 0 then Some (s, 0)
     else do {
       (m', l2, _, _) \<leftarrow> map_vtop (md (cpu s)) (mem s);
       let bit19 = (if bit l2 19 then 1 else 0);
       let bit18 = (if bit l2 18 then 1 else 0);
       Some (s\<lparr>mem := m'\<rparr>,
             if map_sel = 1 then bit18 else if map_sel = 2 then bit19 else bit18 OR bit19)
     })"

definition exec_dispatch :: "world \<Rightarrow> u64 \<Rightarrow> u32 \<Rightarrow> u32 \<Rightarrow> machine \<Rightarrow> outcome option" where
  "exec_dispatch w u m a s = do {
     let disp_addr0 = ir_field u 12 0x7FF;
     if ir_field u 10 3 = 2 then do {
       d \<leftarrow> st 2048 (dispatch_memory (cpu s)) (unat disp_addr0) a;
       Some (plain (s\<lparr>cpu := (cpu s)\<lparr>dispatch_memory := d\<rparr>\<rparr>))
     }
     else do {
       let pos = field_pos u (lc (cpu s)) (lc_byte_mode_flag (cpu s));
       let m1 = rotate_left m (unat pos);
       (s1, map_bits) \<leftarrow> dispatch_map_bits (ir_field u 8 3) s;
       let disp_addr = (disp_addr0 OR (m1 AND dispatch_mask (ir_field u 5 7)) OR map_bits) AND 0x7FF;
       entry \<leftarrow> ld 2048 (dispatch_memory (cpu s1)) (unat disp_addr);
       let n_bit = bit entry 14;
       let p_bit = bit entry 15;
       let r_bit = bit entry 16;
       let s2 = s1\<lparr>cpu := (cpu s1)\<lparr>dispatch_constant := ir_field u 32 0x3FF,
                     u_pc := (if bit u 25 \<and> n_bit then u_pc (cpu s1) - 1 else u_pc (cpu s1))\<rparr>\<rparr>;
       s3 \<leftarrow> (if bit u 24 then do { (s', _) \<leftarrow> advance_lc w None s2; Some s' } else Some s2);
       if p_bit \<and> r_bit then Some \<lparr>after = s3, inhibit_popj = False, skip_next = n_bit\<rparr>
       else process_jump w False 0x20 (entry AND 0x3FFF) r_bit p_bit n_bit False 1 m1 a s3
     }
   }"

subsection \<open>BYTE\<close>

definition exec_byte :: "world \<Rightarrow> u64 \<Rightarrow> u32 \<Rightarrow> u32 \<Rightarrow> machine \<Rightarrow> outcome option" where
  "exec_byte w u m a s = do {
     let dest = ir_field u 14 0xFFF;
     let pos = field_pos u (lc (cpu s)) (lc_byte_mode_flag (cpu s));
     s1 \<leftarrow> write_dest w dest (byte_op (ir_field u 12 3) pos (ir_field u 5 0x1F) m a) s;
     Some (plain s1)
   }"

subsection \<open>One trip through the loop\<close>

definition fetch :: "machine \<Rightarrow> u64 option" where
  "fetch s = (if prom_enabled_flag s then ld 512 (prom_ucode (cpu s)) (unat (u_pc (cpu s)))
              else ld 16384 (ucode (cpu s)) (unat (u_pc (cpu s))))"

text \<open>Shift the pipeline: the fetched word becomes the next instruction.\<close>

definition advance_pipe :: "machine \<times> locals \<Rightarrow> (machine \<times> locals \<times> u64) option" where
  "advance_pipe sl = do {
     let (s, l) = sl;
     next_word \<leftarrow> fetch s;
     Some (s\<lparr>cpu := (cpu s)\<lparr>u_pc := u_pc (cpu s) + 1\<rparr>\<rparr>,
           l\<lparr>p0_pc := p1_pc l, p1 := next_word, p1_pc := u_pc (cpu s)\<rparr>, p1 l)
   }"

definition step_new_md :: "machine \<Rightarrow> machine" where
  "step_new_md s =
    (let c = cpu s in
     if new_md_delay c \<noteq> 0
     then s\<lparr>cpu := c\<lparr>new_md_delay := new_md_delay c - 1,
                     md := (if new_md_delay c - 1 = 0 then new_md c else md c)\<rparr>\<rparr>
     else s)"

definition merge_oa :: "u64 \<Rightarrow> machine \<Rightarrow> machine \<times> u64" where
  "merge_oa u s =
    (let c = cpu s;
         u1 = (if oa_reg_lo_set c \<noteq> 0 then u OR ucast (oa_reg_lo c) else u);
         u2 = (if oa_reg_hi_set c \<noteq> 0 then u1 OR push_bit 26 (ucast (oa_reg_hi c)) else u1)
     in (s\<lparr>cpu := c\<lparr>oa_reg_lo_set := 0, oa_reg_hi_set := 0\<rparr>\<rparr>, u2))"

definition poll_devices :: "world \<Rightarrow> machine \<Rightarrow> machine option" where
  "poll_devices w s = do {
     let (d, i) = disk_poll (disk s) (intr s);
     let s1 = s\<lparr>disk := d, intr := i\<rparr>;
     if cycles (cpu s1) AND 0xFFFF = 0 then do {
       s2 \<leftarrow> tv_poll w s1;
       (c, i2, _) \<leftarrow> chaos_poll (sock w) (chaos (iob s2)) (intr s2);
       let s3 = s2\<lparr>iob := (iob s2)\<lparr>chaos := c\<rparr>, intr := i2\<rparr>;
       (e, m) \<leftarrow> ether_poll (ether s3) (mem s3);
       Some (s3\<lparr>ether := e, mem := m\<rparr>)
     }
     else Some s1
   }"

definition count_cycle :: "machine \<Rightarrow> machine" where
  "count_cycle s =
    (let c = cycles (cpu s) + 1 in s\<lparr>cpu := (cpu s)\<lparr>cycles := (if c = 0 then 1 else c)\<rparr>\<rparr>)"

definition loop_top :: "machine \<times> locals \<Rightarrow> machine \<times> locals" where
  "loop_top sl =
    (let (s, l) = sl in
     if at_next l then (s, l\<lparr>at_next := False\<rparr>)
     else (s, if cycles (cpu s) = 0
              then l\<lparr>m_src_value := 0, p1 := 0, p1_pc := 0, no_exec_next := False\<rparr>
              else l\<lparr>m_src_value := 0\<rparr>))"

text \<open>Fetch, stall, delayed memory data and instruction modification: the instruction to execute.\<close>

definition next_instruction :: "machine \<times> locals \<Rightarrow> (machine \<times> locals \<times> u64) option" where
  "next_instruction sl = do {
     (s1, l1, u1) \<leftarrow> advance_pipe sl;
     let s2 = step_new_md s1;
     (s3, l3, u3) \<leftarrow> (if no_exec_next l1 then advance_pipe (s2, l1\<lparr>no_exec_next := False\<rparr>)
                      else Some (s2, l1, u1));
     let (s4, u4) = merge_oa u3 s3;
     Some (count_cycle s4, l3, u4)
   }"

definition execute :: "world \<Rightarrow> u64 \<Rightarrow> u32 \<Rightarrow> u32 \<Rightarrow> machine \<Rightarrow> outcome option" where
  "execute w u m a s =
    (let op_code = ir_field u 43 3 in
     if op_code = 0 then exec_alu w u m a s
     else if op_code = 1 then exec_jump w u m a s
     else if op_code = 2 then exec_dispatch w u m a s
     else exec_byte w u m a s)"

definition finish :: "world \<Rightarrow> u64 \<Rightarrow> outcome \<Rightarrow> machine option" where
  "finish w u r =
    (if bit u 42 \<and> \<not> inhibit_popj r then do {
       (s1, pc) \<leftarrow> return_pc w (after r);
       Some (s1\<lparr>cpu := (cpu s1)\<lparr>u_pc := pc\<rparr>\<rparr>)
     }
     else Some (after r))"

definition is_nop :: "u64 \<Rightarrow> bool" where
  "is_nop u \<longleftrightarrow> ir_field u 43 3 = 0 \<and> u AND NOP_MASK = 0"

definition step :: "world \<Rightarrow> machine \<times> locals \<Rightarrow> (machine \<times> locals) option" where
  "step w sl = do {
     let (s0, l0) = loop_top sl;
     s1 \<leftarrow> poll_devices w s0;
     (s2, l2, u) \<leftarrow> next_instruction (s1, l0);
     a \<leftarrow> read_a_mem (ir_field u 32 0x3FF) s2;
     (s3, m) \<leftarrow> m_source (ir_field u 26 0x3F) (m_src_value l2) s2;
     if is_nop u then Some (s3, l2\<lparr>m_src_value := m, at_next := True\<rparr>)
     else do {
       r \<leftarrow> execute w u m a s3;
       s4 \<leftarrow> finish w u r;
       Some (s4, l2\<lparr>m_src_value := m, no_exec_next := no_exec_next l2 \<or> skip_next r\<rparr>)
     }
   }"

text \<open>
  The loop, one element of the list for each trip; \<open>SIGVTALRM\<close> may run its handler between
  two trips. The loop condition is not tested at the label \<open>next\<close>.
\<close>

definition keeps_running :: "machine \<times> locals \<Rightarrow> bool" where
  "keeps_running sl \<longleftrightarrow> at_next (snd sl) \<or> run_ucode_flag (fst sl)"

primrec run_loop :: "(world \<times> bool) list \<Rightarrow> machine \<times> locals \<Rightarrow> (machine \<times> locals) option" where
  "run_loop [] sl = Some sl"
| "run_loop (x # xs) sl =
     (if keeps_running sl then do {
        sl1 \<leftarrow> step (fst x) (if snd x then (sigalrm_handler (fst sl), snd sl) else sl);
        run_loop xs sl1
      }
      else Some sl)"

definition run_start :: "machine \<Rightarrow> (machine \<times> locals) option" where
  "run_start s = do {
     (m, _) \<leftarrow> write_phy_mem 0 0 (mem s);
     Some (s\<lparr>cpu := (cpu s)\<lparr>u_pc := 0\<rparr>, mem := m\<rparr>,
           \<lparr>p1 = 0, p0_pc = 0, p1_pc = 0, no_exec_next = False, m_src_value = 0, at_next = False\<rparr>)
   }"

text \<open>\<open>run xs s\<close>: where \<open>run\<close> is after the trips \<open>xs\<close>; the flag says that it has returned.\<close>

definition run :: "(world \<times> bool) list \<Rightarrow> machine \<Rightarrow> (machine \<times> bool) option" where
  "run xs s = do {
     sl \<leftarrow> run_start s;
     r \<leftarrow> run_loop xs sl;
     Some (fst r, \<not> keeps_running r)
   }"

end
