(* ===== verification/Usim_Invariant.thy ===== *)
theory Usim_Invariant
  imports Usim_Exec
begin

section \<open>The invariant of the machine\<close>

text \<open>
  \<open>machine_inv\<close> puts the invariants of the components together with the bounds of the stack
  pointers. Each operation of the bus, of the window and of the processor keeps it, and so
  does every trip through the loop; \<open>reachable\<close> is the transition system of that loop.
\<close>

subsection \<open>The I/O board\<close>
definition iob_inv :: "iob \<Rightarrow> intr \<Rightarrow> bool" where
  "iob_inv b s \<longleftrightarrow> ring_inv (kbd b) \<and> intr_inv s"

lemma iob_inv_updates [simp]:
  "iob_inv (b\<lparr>mouse := x\<rparr>) s = iob_inv b s" "iob_inv (b\<lparr>chaos := c\<rparr>) s = iob_inv b s"
  "iob_inv (b\<lparr>us_clock := u\<rparr>) s = iob_inv b s"
  "iob_inv (b\<lparr>kbd := (kbd b)\<lparr>iob_csr := y\<rparr>\<rparr>) s = iob_inv b s"
  by (simp_all add: iob_inv_def kbd_csr_ring_inv)

lemma iob_mouse_event_inv:
  "iob_mouse_event x y n a b s = Some (b', s') \<Longrightarrow> iob_inv b s \<Longrightarrow> iob_inv b' s'"
  by (auto simp: iob_mouse_event_def Let_def iob_inv_def kbd_csr_ring_inv intr_ops_inv split: bind_splits)

lemma iob_unibus_read_inv:
  "iob_unibus_read t off b s = Some (b', s', v) \<Longrightarrow> iob_inv b s \<Longrightarrow> iob_inv b' s'"
  by (auto simp: iob_unibus_read_def clear_csr_bits_def xmit_from_iob_def Let_def iob_inv_def kbd_csr_ring_inv
      dest!: chaos_xmit_pkt_inv split: if_splits bind_splits prod.splits)

lemma iob_unibus_write_inv:
  "iob_unibus_write off v b s = Some (b', s') \<Longrightarrow> iob_inv b s \<Longrightarrow> iob_inv b' s'"
  by (auto simp: iob_unibus_write_def Let_def iob_inv_def kbd_csr_ring_inv
      dest!: chaos_set_csr_inv split: if_splits bind_splits prod.splits)

subsection \<open>Memory accesses\<close>
definition device_inv :: "machine \<Rightarrow> bool" where
  "device_inv s \<longleftrightarrow> intr_inv (intr s) \<and> mem_inv (mem s) \<and> ring_inv (kbd (iob s))"

lemma device_inv_updates [simp]:
  "device_inv (s\<lparr>cpu := c\<rparr>) = device_inv s" "device_inv (s\<lparr>tv := t\<rparr>) = device_inv s"
  "device_inv (s\<lparr>disk := d\<rparr>) = device_inv s" "device_inv (s\<lparr>ether := e\<rparr>) = device_inv s"
  "device_inv (s\<lparr>uart_out := o'\<rparr>) = device_inv s" "device_inv (s\<lparr>prom_enabled_flag := x\<rparr>) = device_inv s"
  "device_inv (s\<lparr>run_ucode_flag := x\<rparr>) = device_inv s"
  "device_inv (clear_faults s) = device_inv s" "device_inv (access_fault pn s) = device_inv s"
  "device_inv (page_fault pn s) = device_inv s" "device_inv (write_fault pn s) = device_inv s"
  by (simp_all add: device_inv_def fault_defs)

lemma device_inv_mem:
  "device_inv s \<Longrightarrow> device_inv ((clear_faults s)\<lparr>mem := m\<rparr>) = mem_inv m" "device_inv s \<Longrightarrow> mem_inv (mem s)"
  by (simp_all add: device_inv_def clear_faults_def)

lemma device_inv_iob: "device_inv s \<Longrightarrow> iob_inv b i \<Longrightarrow> device_inv (s\<lparr>iob := b, intr := i\<rparr>)"
  by (simp add: device_inv_def iob_inv_def)

lemma device_iob_inv: "device_inv s \<Longrightarrow> iob_inv (iob s) (intr s)"
  by (simp add: device_inv_def iob_inv_def)

lemma read_device_inv:
  "read_device w vaddr pn off pv s = Some (Some (s', v)) \<Longrightarrow> device_inv s \<Longrightarrow> device_inv s'"
  using device_iob_inv [of s]
  by (auto simp: read_device_def Let_def dest!: iob_unibus_read_inv intro: device_inv_iob
      split: if_splits bind_splits prod.splits)

lemma read_mem_inv: "read_mem w vaddr pv s = Some (s', v, r) \<Longrightarrow> device_inv s \<Longrightarrow> device_inv s'"
  by (auto simp: read_mem_def Let_def device_inv_mem map_vtop_inv dest!: read_device_inv
      split: if_splits bind_splits prod.splits option.splits)

lemma unibus_write_inv: "unibus_write w off v s = Some (Some s') \<Longrightarrow> device_inv s \<Longrightarrow> device_inv s'"
  by (auto simp: unibus_write_def spy_write_def Let_def device_inv_def set_interrupt_status_reg_inv
      dest!: restore_state_inv split: if_splits bind_splits prod.splits)

lemma write_device_inv:
  "write_device w vaddr pn off v s = Some (Some s') \<Longrightarrow> device_inv s \<Longrightarrow> device_inv s'"
  using device_iob_inv [of s]
  by (auto simp: write_device_def Let_def uart_xbus_write_def tv_xbus_write_def intr_ops_inv device_inv_def iob_inv_def
      dest!: iob_unibus_write_inv unibus_write_inv disk_xbus_write_inv intro: device_inv_iob
      split: if_splits bind_splits prod.splits)

lemma write_mem_inv: "write_mem w vaddr v s = Some (s', r) \<Longrightarrow> device_inv s \<Longrightarrow> device_inv s'"
  by (auto simp: write_mem_def Let_def device_inv_mem map_vtop_inv page_st_inv dest!: write_device_inv
      split: if_splits bind_splits prod.splits option.splits)


subsection \<open>X events and polling\<close>
lemma x11_handle_inv: "x11_handle e s = Some s' \<Longrightarrow> device_inv s \<Longrightarrow> device_inv s'"
  by (auto simp: x11_handle_def Let_def device_inv_def iob_inv_def
      dest!: process_key_inv iob_mouse_event_inv split: xevent.splits bind_splits prod.splits)

lemma x11_events_inv: "x11_events es s = Some s' \<Longrightarrow> device_inv s \<Longrightarrow> device_inv s'"
  by (induction es arbitrary: s) (auto dest!: x11_handle_inv split: bind_splits)

lemma tv_poll_inv: "tv_poll w s = Some s' \<Longrightarrow> device_inv s \<Longrightarrow> device_inv s'"
proof -
  assume a: "tv_poll w s = Some s'" "device_inv s"
  obtain k i where deq: "dequeue_key_event (kbd (iob s)) (intr s) = (k, i)"
    by (cases "dequeue_key_event (kbd (iob s)) (intr s)")
  then have "device_inv (s\<lparr>tv := t, iob := (iob s)\<lparr>kbd := k\<rparr>, intr := i\<rparr>)" for t
    using a(2) dequeue_key_event_inv [OF deq] by (simp add: device_inv_def)
  then show ?thesis
    using a deq by (auto simp: tv_poll_def x11_event_def Let_def dest!: x11_events_inv split: if_splits prod.splits)
qed

lemma sigalrm_handler_inv: "device_inv s \<Longrightarrow> device_inv (sigalrm_handler s)"
  by (simp add: sigalrm_handler_def tv_post_60hz_interrupt_def device_inv_def intr_ops_inv)

lemma poll_devices_inv: "poll_devices w s = Some s' \<Longrightarrow> device_inv s \<Longrightarrow> device_inv s'"
proof -
  assume a: "poll_devices w s = Some s'" "device_inv s"
  obtain d i where dp: "disk_poll (disk s) (intr s) = (d, i)" by (cases "disk_poll (disk s) (intr s)")
  have "device_inv (s\<lparr>disk := d, intr := i\<rparr>)"
    using a(2) disk_poll_inv [OF dp] by (simp add: device_inv_def)
  then show ?thesis
    using a(1) by (auto simp: poll_devices_def dp Let_def dest!: tv_poll_inv split: if_splits bind_splits prod.splits)
     (auto simp: device_inv_def dest!: chaos_poll_inv ether_poll_inv)
qed

subsection \<open>The processor\<close>

definition cpu_inv :: "cpu \<Rightarrow> bool" where
  "cpu_inv c \<longleftrightarrow> unat (spc_stack_ptr c) < 32 \<and> unat (pdl_ptr c) < 1024 \<and> unat (pdl_index c) < 1024"

definition machine_inv :: "machine \<Rightarrow> bool" where
  "machine_inv s \<longleftrightarrow> device_inv s \<and> cpu_inv (cpu s)"

lemma same_cpu_inv: "same_cpu s s' \<Longrightarrow> cpu_inv (cpu s') = cpu_inv (cpu s)"
  by (simp add: cpu_inv_def same_cpu_fields)

lemma cpu_inv_updates [simp]:
  "cpu_inv (c\<lparr>lc := x\<rparr>) = cpu_inv c" "cpu_inv (c\<lparr>vma := x\<rparr>) = cpu_inv c"
  "cpu_inv (c\<lparr>md := x\<rparr>) = cpu_inv c" "cpu_inv (c\<lparr>new_md := x\<rparr>) = cpu_inv c"
  "cpu_inv (c\<lparr>new_md_delay := x\<rparr>) = cpu_inv c" "cpu_inv (c\<lparr>q := x\<rparr>) = cpu_inv c"
  "cpu_inv (c\<lparr>u_pc := x\<rparr>) = cpu_inv c" "cpu_inv (c\<lparr>alu_out := x\<rparr>) = cpu_inv c"
  "cpu_inv (c\<lparr>alu_carry := x\<rparr>) = cpu_inv c" "cpu_inv (c\<lparr>cycles := y\<rparr>) = cpu_inv c"
  "cpu_inv (c\<lparr>a_memory := a\<rparr>) = cpu_inv c" "cpu_inv (c\<lparr>m_memory := a\<rparr>) = cpu_inv c"
  "cpu_inv (c\<lparr>dispatch_memory := a\<rparr>) = cpu_inv c" "cpu_inv (c\<lparr>pdl_memory := a\<rparr>) = cpu_inv c"
  "cpu_inv (c\<lparr>spc_stack := a\<rparr>) = cpu_inv c" "cpu_inv (c\<lparr>ucode := b\<rparr>) = cpu_inv c"
  "cpu_inv (c\<lparr>oa_reg_lo := x\<rparr>) = cpu_inv c" "cpu_inv (c\<lparr>oa_reg_hi := x\<rparr>) = cpu_inv c"
  "cpu_inv (c\<lparr>oa_reg_lo_set := x\<rparr>) = cpu_inv c" "cpu_inv (c\<lparr>oa_reg_hi_set := x\<rparr>) = cpu_inv c"
  "cpu_inv (c\<lparr>interrupt_control := x\<rparr>) = cpu_inv c" "cpu_inv (c\<lparr>dispatch_constant := x\<rparr>) = cpu_inv c"
  "cpu_inv (c\<lparr>lc_byte_mode_flag := x\<rparr>) = cpu_inv c" "cpu_inv (c\<lparr>bus_reset_flag := x\<rparr>) = cpu_inv c"
  "cpu_inv (c\<lparr>interrupt_enable_flag := x\<rparr>) = cpu_inv c" "cpu_inv (c\<lparr>sequence_break_flag := x\<rparr>) = cpu_inv c"
  by (simp_all add: cpu_inv_def)

lemma cpu_inv_pointers [simp]:
  "cpu_inv c \<Longrightarrow> cpu_inv (c\<lparr>spc_stack_ptr := x AND 0x1F\<rparr>)" "cpu_inv c \<Longrightarrow> cpu_inv (c\<lparr>pdl_ptr := x AND 0x3FF\<rparr>)"
  "cpu_inv c \<Longrightarrow> cpu_inv (c\<lparr>pdl_index := x AND 0x3FF\<rparr>)"
  by (simp_all add: cpu_inv_def)

lemma machine_inv_cpu [simp]: "machine_inv (s\<lparr>cpu := c\<rparr>) \<longleftrightarrow> device_inv s \<and> cpu_inv c"
  by (simp add: machine_inv_def)

lemma machine_invD: "machine_inv s \<Longrightarrow> device_inv s \<and> cpu_inv (cpu s)"
  by (simp add: machine_inv_def)

lemma read_mem_machine: "read_mem w va pv s = Some (s', v, r) \<Longrightarrow> machine_inv s \<Longrightarrow> machine_inv s'"
  using same_cpu_inv [OF read_mem_frame] read_mem_inv by (simp add: machine_inv_def)

lemma write_mem_machine: "write_mem w va v s = Some (s', r) \<Longrightarrow> machine_inv s \<Longrightarrow> machine_inv s'"
  using same_cpu_inv [OF write_mem_frame] write_mem_inv by (simp add: machine_inv_def)

lemma start_read_machine: "start_read w va s = Some s' \<Longrightarrow> machine_inv s \<Longrightarrow> machine_inv s'"
  by (auto simp: machine_inv_def start_read_def dest!: read_mem_machine split: bind_splits)

lemma advance_lc_machine: "advance_lc w ppc s = Some (s', ppc') \<Longrightarrow> machine_inv s \<Longrightarrow> machine_inv s'"
  by (auto simp: machine_inv_def advance_lc_def Let_def dest!: start_read_machine split: bind_splits if_splits)

lemma push_spc_machine: "push_spc v s = Some s' \<Longrightarrow> machine_inv s \<Longrightarrow> machine_inv s'"
  by (auto simp: machine_inv_def push_spc_def Let_def dest!: split: bind_splits)

lemma pop_spc_machine: "pop_spc s = Some (s', v) \<Longrightarrow> machine_inv s \<Longrightarrow> machine_inv s'"
  by (auto simp: machine_inv_def pop_spc_def Let_def dest!: split: bind_splits)

lemma write_pdl_mem_machine: "write_pdl_mem b v s = Some s' \<Longrightarrow> machine_inv s \<Longrightarrow> machine_inv s'"
  by (auto simp: machine_inv_def write_pdl_mem_def Let_def dest!: split: bind_splits if_splits)

lemma mem_inv_map_updates:
  "mem_inv (invalidate_vtop_cache m) = mem_inv m" "mem_inv (m\<lparr>l2_map := x\<rparr>) = mem_inv m"
  by (rule mem_inv_cong; simp add: invalidate_vtop_cache_def)+

lemma mem_inv_l1: "mem_inv m \<Longrightarrow> unat e < 32 \<Longrightarrow> mem_inv (m\<lparr>l1_map := (l1_map m)(i := e)\<rparr>)"
  by (simp add: mem_inv_def block_ok_def pages_distinct_def pages_below_def next_free_def l1_ok_def
      split: option.splits)

lemma write_map_machine: "write_map s = Some s' \<Longrightarrow> machine_inv s \<Longrightarrow> machine_inv s'"
  by (auto simp: machine_inv_def device_inv_def write_map_def Let_def mem_inv_map_updates mem_inv_l1
      dest!: add_new_page_no_inv [rotated] split: bind_splits if_splits)

lemma write_functional_dest_machine:
  "write_functional_dest w code v s = Some s' \<Longrightarrow> machine_inv s \<Longrightarrow> machine_inv s'"
  unfolding write_functional_dest_def
  by (auto simp: machine_inv_def write_lc_def write_interrupt_control_def Let_def
      dest!: write_pdl_mem_machine push_spc_machine start_read_machine write_map_machine write_mem_machine
      dest: split: bind_splits if_splits)


lemma write_dest_machine: "write_dest w d v s = Some s' \<Longrightarrow> machine_inv s \<Longrightarrow> machine_inv s'"
  by (auto simp: machine_inv_def write_dest_def write_a_mem_def write_m_mem_def
      dest!: write_functional_dest_machine split: bind_splits if_splits)

lemma functional_source_same:
  "functional_source c m s = Some (s', v) \<Longrightarrow> c \<noteq> 9 \<Longrightarrow> c \<noteq> 12 \<Longrightarrow> c \<noteq> 20 \<Longrightarrow> s' = s"
  by (auto simp: functional_source_def split: if_split_asm bind_splits)

lemma functional_source_machine:
  assumes "functional_source c m s = Some (s', v)" and "machine_inv s"
  shows "machine_inv s'"
proof -
  consider "c = 9" | "c = 12" | "c = 20" | "c \<noteq> 9" "c \<noteq> 12" "c \<noteq> 20" by blast
  then show ?thesis
  proof cases
    case 1
    then show ?thesis using assms
      by (auto simp: machine_inv_def device_inv_def functional_source_def Let_def dest!: map_vtop_inv
          split: bind_splits)
  next
    case 2
    then show ?thesis using assms
      by (auto simp: machine_inv_def functional_source_def spc_word_def split: bind_splits)
  next
    case 3
    then show ?thesis using assms by (auto simp: machine_inv_def functional_source_def split: bind_splits)
  next
    case 4
    then show ?thesis using functional_source_same [OF assms(1)] assms(2) by simp
  qed
qed

lemma m_source_machine: "m_source c m s = Some (s', v) \<Longrightarrow> machine_inv s \<Longrightarrow> machine_inv s'"
  by (auto simp: m_source_def functional_source_machine split: bind_splits if_splits)

lemma return_pc_machine: "return_pc w s = Some (s', pc) \<Longrightarrow> machine_inv s \<Longrightarrow> machine_inv s'"
  by (auto simp: return_pc_def dest!: pop_spc_machine advance_lc_machine split: bind_splits if_splits)

lemma exec_alu_machine: "exec_alu w u m a s = Some r \<Longrightarrow> machine_inv s \<Longrightarrow> machine_inv (after r)"
  by (auto simp: machine_inv_def exec_alu_def plain_def Let_def dest!: write_dest_machine
      split: bind_splits prod.splits)

lemma write_ucode_machine: "write_ucode pc a m s = Some s' \<Longrightarrow> machine_inv s \<Longrightarrow> machine_inv s'"
  by (auto simp: machine_inv_def write_ucode_def split: bind_splits)

lemma process_jump_machine:
  assumes "process_jump w j u pc r p n i t m a s = Some x" and "machine_inv s"
  shows "machine_inv (after x)"
proof -
  obtain take1 m1 where tm: "jump_condition u t m a (page_fault_flag (cpu s)) (interrupt_enable_flag (cpu s))
      (interrupt_pending_flag (intr s)) (sequence_break_flag (cpu s)) = (take1, m1)"
    by (meson surj_pair)
  define taken where "taken = (if i then take1 = 0 else take1 \<noteq> 0)"
  obtain s1 s2 s3 pc3 where
    s1: "(if p \<and> taken then push_spc (if \<not> n then u_pc (cpu s) else u_pc (cpu s) - 1) s else Some s) = Some s1"
    and s2: "(if p \<and> r \<and> j then write_ucode pc a m1 s1 else Some s1) = Some s2"
    and s3: "(if r \<and> taken then return_pc w s2 else Some (s2, pc)) = Some (s3, pc3)"
    and x: "x = (if taken then \<lparr>after = s3\<lparr>cpu := (cpu s3)\<lparr>u_pc := pc3\<rparr>\<rparr>, inhibit_popj = True, skip_next = n\<rparr> else plain s3)"
    using assms(1) unfolding process_jump_def Let_def tm prod.case taken_def [symmetric]
    by (auto split: bind_splits)
  have "machine_inv s1" using s1 assms(2) push_spc_machine by (auto split: if_splits)
  then have "machine_inv s2" using s2 write_ucode_machine by (auto split: if_splits)
  then have "machine_inv s3" using s3 return_pc_machine by (auto split: if_splits)
  then show ?thesis by (simp add: x plain_def machine_inv_def)
qed

lemma exec_jump_machine: "exec_jump w u m a s = Some r \<Longrightarrow> machine_inv s \<Longrightarrow> machine_inv (after r)"
  by (auto simp: machine_inv_def exec_jump_def plain_def dest!: process_jump_machine split: if_splits)

lemma dispatch_map_bits_machine: "dispatch_map_bits b s = Some (s', v) \<Longrightarrow> machine_inv s \<Longrightarrow> machine_inv s'"
  by (auto simp: machine_inv_def device_inv_def dispatch_map_bits_def map_vtop_inv Let_def
      split: bind_splits if_splits)

lemma exec_dispatch_machine: "exec_dispatch w u m a s = Some r \<Longrightarrow> machine_inv s \<Longrightarrow> machine_inv (after r)"
  unfolding exec_dispatch_def Let_def
  by (auto simp: machine_inv_def plain_def dest!: dispatch_map_bits_machine advance_lc_machine process_jump_machine
      split: bind_splits if_splits)

lemma exec_byte_machine: "exec_byte w u m a s = Some r \<Longrightarrow> machine_inv s \<Longrightarrow> machine_inv (after r)"
  by (auto simp: exec_byte_def plain_def Let_def dest!: write_dest_machine split: bind_splits)

lemma execute_machine: "execute w u m a s = Some r \<Longrightarrow> machine_inv s \<Longrightarrow> machine_inv (after r)"
  by (auto simp: execute_def Let_def exec_alu_machine exec_jump_machine exec_dispatch_machine exec_byte_machine
      split: if_splits)

lemma finish_machine: "finish w u r = Some s' \<Longrightarrow> machine_inv (after r) \<Longrightarrow> machine_inv s'"
  by (auto simp: machine_inv_def finish_def dest!: return_pc_machine split: bind_splits if_splits)


subsection \<open>One trip, and every reachable state\<close>

lemma poll_devices_cpu: "poll_devices w s = Some s' \<Longrightarrow> cpu s' = cpu s"
proof -
  have ev: "x11_events es t = Some t' \<Longrightarrow> cpu t' = cpu t" for es t t'
    by (induction es arbitrary: t)
      (auto simp: x11_handle_def Let_def split: xevent.splits bind_splits prod.splits)
  show "poll_devices w s = Some s' \<Longrightarrow> cpu s' = cpu s"
    by (auto simp: poll_devices_def tv_poll_def x11_event_def Let_def dest!: ev
        split: if_splits bind_splits prod.splits)
qed

lemma poll_devices_machine: "poll_devices w s = Some s' \<Longrightarrow> machine_inv s \<Longrightarrow> machine_inv s'"
  using poll_devices_cpu poll_devices_inv by (simp add: machine_inv_def)

lemma next_instruction_machine:
  "next_instruction (s, l) = Some (s', l', u) \<Longrightarrow> machine_inv s \<Longrightarrow> machine_inv s'"
  by (auto simp: machine_inv_def next_instruction_def advance_pipe_def step_new_md_def merge_oa_def
      count_cycle_def Let_def split: bind_splits if_splits prod.splits)

lemma step_machine:
  assumes "step w (s, l) = Some (s', l')" and "machine_inv s"
  shows "machine_inv s'"
proof -
  obtain l0 where top: "loop_top (s, l) = (s, l0)" by (cases "at_next l") (auto simp: loop_top_def)
  obtain s1 s2 l2 u s3 m where poll: "poll_devices w s = Some s1"
    and nxt: "next_instruction (s1, l0) = Some (s2, l2, u)"
    and src: "m_source (ir_field u 26 0x3F) (m_src_value l2) s2 = Some (s3, m)"
    and rest: "s' = s3 \<or> (\<exists>a r. execute w u m a s3 = Some r \<and> finish w u r = Some s')"
    using assms(1) unfolding step_def top
    by (auto split: bind_splits if_splits) blast+
  have "machine_inv s3"
    by (rule m_source_machine [OF src next_instruction_machine [OF nxt poll_devices_machine [OF poll assms(2)]]])
  then show ?thesis
    using rest execute_machine finish_machine by blast
qed

text \<open>The states of the loop of \<open>run\<close>, for any answers of the outside and any timer signals.\<close>

inductive reachable :: "machine \<Rightarrow> machine \<times> locals \<Rightarrow> bool" for s0 where
  start: "run_start s0 = Some sl \<Longrightarrow> reachable s0 sl"
| trip: "reachable s0 sl \<Longrightarrow> keeps_running sl \<Longrightarrow> step w sl = Some sl' \<Longrightarrow> reachable s0 sl'"
| alarm: "reachable s0 (s, l) \<Longrightarrow> reachable s0 (sigalrm_handler s, l)"

lemma run_loop_reachable: "run_loop xs sl = Some sl' \<Longrightarrow> reachable s0 sl \<Longrightarrow> reachable s0 sl'"
proof (induction xs arbitrary: sl)
  case (Cons x xs)
  define sl1 where "sl1 = (if snd x then (sigalrm_handler (fst sl), snd sl) else sl)"
  have r1: "reachable s0 sl1"
    using Cons.prems(2) reachable.alarm [of s0 "fst sl" "snd sl"] by (simp add: sl1_def)
  have k: "keeps_running sl1 = keeps_running sl"
    by (simp add: sl1_def keeps_running_def sigalrm_handler_def tv_post_60hz_interrupt_def)
  show ?case
    using Cons.prems Cons.IH r1 k reachable.trip [OF r1] by (auto simp flip: sl1_def split: if_splits bind_splits)
qed simp

lemma run_reachable:
  "run xs s = Some (s', b) \<Longrightarrow> \<exists>l. reachable s (s', l)"
  by (auto simp: run_def split: bind_splits dest!: run_loop_reachable reachable.start)

lemma run_start_machine: "run_start s = Some sl \<Longrightarrow> machine_inv s \<Longrightarrow> machine_inv (fst sl)"
  by (auto simp: run_start_def machine_inv_def device_inv_def dest!: write_phy_mem_inv split: bind_splits)

text \<open>
  Whatever the microcode, the devices and the outside do, every state of the main loop keeps
  the invariant: the stack pointers and the PDL index stay inside their memories, no two
  physical page numbers share a page and level-1 map entries are five bits wide, the key
  ring is well formed, and the pending flag agrees with the interrupt status register.
\<close>

lemma reachable_invariant:
  assumes "reachable s0 sl" and "machine_inv s0"
  shows "machine_inv (fst sl)"
  using assms
proof (induction rule: reachable.induct)
  case (start sl)
  then show ?case by (rule run_start_machine)
next
  case (trip sl w sl')
  then show ?case using step_machine [of w "fst sl" "snd sl" "fst sl'" "snd sl'"] by simp
next
  case (alarm s l)
  moreover have "cpu (sigalrm_handler s) = cpu s" by (simp add: sigalrm_handler_def split_beta)
  ultimately show ?case using sigalrm_handler_inv by (simp add: machine_inv_def)
qed

lemma machine_start_inv: "machine_inv (machine_start h)"
  by (simp add: machine_inv_def device_inv_def cpu_inv_def machine_start_def mem_start_inv intr_inv_def
      intr_defs ring_inv_def queue_items_def KEY_QUEUE_LEN_def)

end
