(* ===== verification/Usim_Virtual.thy ===== *)
theory Usim_Virtual
  imports Usim_Bus
begin

section \<open>Virtual memory as the processor sees it (ucode.c)\<close>

text \<open>
  Facts on \<open>read_mem\<close> and \<open>write_mem\<close>: what an access through the map reads, writes and refuses.
  The page word the map has for an address, the two permission bits of it, and the word of
  RAM the address stands for, when it is mapped to an existing page of RAM.
\<close>

definition page_word :: "mem \<Rightarrow> u32 \<Rightarrow> u32" where
  "page_word m va = l2_map m (l2_slot m va)"

definition physical :: "mem \<Rightarrow> u32 \<Rightarrow> u32" where
  "physical m va = push_bit 8 (page_word m va AND 0x3FFF) OR (va AND 0xFF)"

definition mapped_to_ram :: "mem \<Rightarrow> u32 \<Rightarrow> bool" where
  "mapped_to_ram m va \<longleftrightarrow> \<not> unmapped_area va \<and> page_word m va AND 0x3FFF < 0x2000 \<and>
     phy_pages m (unat (page_word m va AND 0x3FFF)) \<noteq> None"

definition readable :: "mem \<Rightarrow> u32 \<Rightarrow> bool" where
  "readable m va \<longleftrightarrow> page_word m va AND 0x800000 \<noteq> 0"

definition writable :: "mem \<Rightarrow> u32 \<Rightarrow> bool" where
  "writable m va \<longleftrightarrow> page_word m va AND 0x400000 \<noteq> 0"

lemma physical_split:
  "unat (physical m va) div 256 = unat (page_word m va AND 0x3FFF)"
  "unat (physical m va) mod 256 = unat (va AND 0xFF)"
proof -
  define p where "p = page_word m va AND 0x3FFF"
  have p: "unat p < 2 ^ 14" by (simp add: p_def)
  have "push_bit 8 p AND (va AND 0xFF) = 0"
    by (rule bit_word_eqI) (simp only: mask_num, auto simp: bit_simps simp del: push_bit_eq_mult)
  then have "physical m va = push_bit 8 p + (va AND 0xFF)"
    by (simp add: physical_def p_def disjunctive_add_eq_or)
  moreover have shift: "unat (push_bit 8 p) = unat p * 256"
    using p by (simp only: unsigned_push_bit_eq) (simp add: push_bit_eq_mult take_bit_nat_eq_self)
  moreover have "unat (push_bit 8 p + (va AND 0xFF)) = unat (push_bit 8 p) + unat (va AND 0xFF)"
    using p shift by (intro unat_plus_small) simp_all
  ultimately have "unat (physical m va) = unat p * 256 + unat va mod 256" by simp
  then show "unat (physical m va) div 256 = unat (page_word m va AND 0x3FFF)"
    "unat (physical m va) mod 256 = unat (va AND 0xFF)"
    by (simp_all add: p_def)
qed

lemma phys_word_mapped:
  "phys_word m (physical m va) =
     map_option (\<lambda>a. heap m a (unat (va AND 0xFF))) (phy_pages m (unat (page_word m va AND 0x3FFF)))"
  by (simp only: phys_word_def physical_split)

lemma translate:
  "\<not> unmapped_area va \<Longrightarrow> \<exists>m'. map_vtop va m = Some (m', page_word m va, Some (l1_entry m va), va AND 0xFF)"
  using map_vtop_mapped by (simp add: page_word_def)

lemma page_word_cong:
  "l1_map m' = l1_map m \<Longrightarrow> l2_map m' = l2_map m \<Longrightarrow> page_word m' va = page_word m va"
  by (simp add: page_word_def l2_slot_def l1_entry_def)

lemma ram_page_number: "p AND 0x3FFF < (0x2000 :: u32) \<Longrightarrow> sint (p AND 0x3FFF) < 0x2000"
proof -
  assume "p AND 0x3FFF < (0x2000 :: u32)"
  then have "unat (p AND 0x3FFF) < 0x2000" by (simp add: word_less_nat_alt)
  moreover from this have "sint (p AND 0x3FFF) = int (unat (p AND 0x3FFF))" by (intro sint_eq_unat) simp
  ultimately show ?thesis by (simp only: of_nat_less_numeral_iff)
qed

lemma read_mem_ram:
  assumes "mapped_to_ram (mem s) va" and "readable (mem s) va"
    and "phys_word (mem s) (physical (mem s) va) = Some v"
  shows "\<exists>s'. read_mem w va pv s = Some (s', v, 0) \<and> page_fault_flag (cpu s') = 0 \<and>
    phys_word (mem s') = phys_word (mem s) \<and> l1_map (mem s') = l1_map (mem s) \<and> l2_map (mem s') = l2_map (mem s)"
proof -
  obtain m' where tr: "map_vtop va (mem s) = Some (m', page_word (mem s) va, Some (l1_entry (mem s) va), va AND 0xFF)"
    using translate assms(1) by (auto simp: mapped_to_ram_def)
  note fr = map_vtop_frame [OF tr] and pw = map_vtop_phys_word [OF tr]
  obtain a where a: "phy_pages m' (unat (page_word (mem s) va AND 0x3FFF)) = Some a"
    using assms(1) by (auto simp: mapped_to_ram_def fr)
  then have v: "page_ld m' a (va AND 0xFF) = Some v"
    using assms(3) unfolding phys_word_mapped by (simp add: page_ld_def fr)
  have "read_mem w va pv s = Some ((clear_faults s)\<lparr>mem := m'\<rparr>, v, 0)"
    using assms(1,2) tr a v ram_page_number [of "page_word (mem s) va"]
    by (simp add: read_mem_def Let_def readable_def mapped_to_ram_def)
  then show ?thesis by (simp add: fr pw clear_faults_def)
qed

lemma write_mem_ram:
  assumes "mem_inv (mem s)" and "mapped_to_ram (mem s) va" and "readable (mem s) va" and "writable (mem s) va"
  shows "\<exists>s'. write_mem w va v s = Some (s', 0) \<and> page_fault_flag (cpu s') = 0 \<and> mem_inv (mem s') \<and>
    phys_word (mem s') (physical (mem s) va) = Some v \<and>
    (\<forall>p x. p \<noteq> physical (mem s) va \<longrightarrow> phys_word (mem s) p = Some x \<longrightarrow> phys_word (mem s') p = Some x) \<and>
    l1_map (mem s') = l1_map (mem s) \<and> l2_map (mem s') = l2_map (mem s) \<and> phy_pages (mem s') = phy_pages (mem s)"
proof -
  let ?p = "physical (mem s) va"
  obtain m' where tr: "map_vtop va (mem s) = Some (m', page_word (mem s) va, Some (l1_entry (mem s) va), va AND 0xFF)"
    using translate assms(2) by (auto simp: mapped_to_ram_def)
  note fr = map_vtop_frame [OF tr] and pw = map_vtop_phys_word [OF tr] and inv = map_vtop_inv [OF tr]
  obtain a where a: "phy_pages m' (unat (page_word (mem s) va AND 0x3FFF)) = Some a"
    using assms(2) by (auto simp: mapped_to_ram_def fr)
  have "unat (page_word (mem s) va AND 0x3FFF) < 2 ^ 13"
    using assms(2) by (simp add: mapped_to_ram_def word_less_nat_alt)
  then have "unat ?p div 256 < 2 ^ 13" by (simp only: physical_split)
  then have "unat ?p < 2 ^ 21" by (simp add: div_less_iff_less_mult)
  then obtain m2 where m2: "write_phy_mem ?p v m' = Some (m2, 0)" "mem_inv m2" "phys_word m2 ?p = Some v"
    "\<And>q x. q \<noteq> ?p \<Longrightarrow> phys_word m' q = Some x \<Longrightarrow> phys_word m2 q = Some x"
    using write_phy_mem_ram [of m' ?p v] assms(1) inv by (auto simp: ram_addr_def)
  have pp: "phys_page ?p m' = Some (m', Some a)"
    using a \<open>unat ?p < 2 ^ 21\<close> by (intro phys_page_present) (simp_all only: physical_split, simp)
  have "?p AND 0xFF = va AND 0xFF"
    by (rule bit_word_eqI) (auto simp: physical_def bit_simps mask_num)
  then have st: "page_st m' a (va AND 0xFF) v = Some m2"
    using m2(1) pp by (auto simp: write_phy_mem_def split: bind_splits)
  then have "l1_map m2 = l1_map m'" "l2_map m2 = l2_map m'" "phy_pages m2 = phy_pages m'"
    by (auto simp: page_st_def split: bind_splits)
  moreover have "write_mem w va v s = Some ((clear_faults s)\<lparr>mem := m2\<rparr>, 0)"
    using assms tr a st ram_page_number [of "page_word (mem s) va"]
    by (simp add: write_mem_def Let_def readable_def writable_def mapped_to_ram_def)
  ultimately show ?thesis using m2 by (simp add: fr pw clear_faults_def)
qed

text \<open>
  A memory for the examples: pages 5 and 0x3FF6 exist; the level-2 entries 1 to 4 map
  virtual pages 1 to 4 to page 5 (all permissions), to the Unibus page (all permissions), to page 5
  for reading only, and nowhere.
\<close>

definition vm_example :: machine where
  "vm_example = (machine_start (\<lambda>a i. 0))\<lparr>mem :=
     (mem_start (\<lambda>a i. 0))\<lparr>phy_pages := (\<lambda>i. None)(5 := Some 0, 0x3FF6 := Some 1),
        page_block := Some 2, page_block_count := 1022, heap_brk := 1024,
        l2_map := (\<lambda>i. 0)(1 := 0xC00005, 2 := 0xC03FF6, 3 := 0x800005)\<rparr>\<rparr>"

lemma vm_example_inv: "mem_inv (mem vm_example)"
  by (simp add: vm_example_def mem_inv_def block_ok_def pages_distinct_def pages_below_def
      next_free_def l1_ok_def mem_start_def)

lemma vm_example_words:
  "page_word (mem vm_example) 0x107 = 0xC00005" "page_word (mem vm_example) 0x2F0 = 0xC03FF6"
  "page_word (mem vm_example) 0x307 = 0x800005" "page_word (mem vm_example) 0x400 = 0"
  "page_word (mem vm_example) 0x108 = 0xC00005"
  by (simp_all add: page_word_def l2_slot_def l1_entry_def vm_example_def mem_start_def)

lemma vm_example_pages: "phy_pages (mem vm_example) = (\<lambda>i. None)(5 := Some 0, 0x3FF6 := Some 1)"
  by (simp add: vm_example_def)

lemmas vm_example_facts = vm_example_words vm_example_pages mapped_to_ram_def readable_def writable_def
  unmapped_area_def

text \<open>
  C5. Virtual memory is an array of words behind the map: a write to an address mapped to RAM
  with read and write permission succeeds without a fault; afterwards every readable
  address mapped to RAM reads the new word if it stands for the same physical word, and its
  old word otherwise.
\<close>

theorem virtual_memory_is_array:
  assumes "mem_inv (mem s)" and "mapped_to_ram (mem s) va" and "readable (mem s) va" and "writable (mem s) va"
  shows "\<exists>s'. write_mem w va v s = Some (s', 0) \<and> page_fault_flag (cpu s') = 0 \<and>
    (\<forall>vb x pv w'. mapped_to_ram (mem s) vb \<longrightarrow> readable (mem s) vb \<longrightarrow>
       phys_word (mem s) (physical (mem s) vb) = Some x \<longrightarrow>
       (\<exists>s2. read_mem w' vb pv s' =
          Some (s2, if physical (mem s) vb = physical (mem s) va then v else x, 0)))"
proof -
  obtain s' where s': "write_mem w va v s = Some (s', 0)" "page_fault_flag (cpu s') = 0"
    "phys_word (mem s') (physical (mem s) va) = Some v"
    "\<And>p x. p \<noteq> physical (mem s) va \<Longrightarrow> phys_word (mem s) p = Some x \<Longrightarrow> phys_word (mem s') p = Some x"
    "l1_map (mem s') = l1_map (mem s)" "l2_map (mem s') = l2_map (mem s)" "phy_pages (mem s') = phy_pages (mem s)"
    using write_mem_ram [OF assms] by blast
  note same = page_word_cong [OF s'(5,6)]
  have "\<exists>s2. read_mem w' vb pv s' = Some (s2, if physical (mem s) vb = physical (mem s) va then v else x, 0)"
    if vb: "mapped_to_ram (mem s) vb" "readable (mem s) vb" "phys_word (mem s) (physical (mem s) vb) = Some x"
    for vb x pv w'
  proof -
    have "mapped_to_ram (mem s') vb" "readable (mem s') vb" "physical (mem s') vb = physical (mem s) vb"
      using vb(1,2) by (simp_all add: mapped_to_ram_def readable_def physical_def same s'(7))
    moreover have "phys_word (mem s') (physical (mem s) vb)
        = Some (if physical (mem s) vb = physical (mem s) va then v else x)"
      using s'(3,4) vb(3) by simp
    ultimately show ?thesis using read_mem_ram [of s' vb] by fastforce
  qed
  with s'(1,2) show ?thesis by blast
qed

lemma virtual_memory_is_array_witness:
  "\<exists>s'. write_mem quiet_world 0x107 42 vm_example = Some (s', 0) \<and>
     (\<exists>s2. read_mem quiet_world 0x307 0 s' = Some (s2, 42, 0)) \<and>
     (\<exists>s2. read_mem quiet_world 0x108 0 s' = Some (s2, 0, 0))"
proof -
  have w: "phys_word (mem vm_example) (physical (mem vm_example) va) = Some 0"
    if "page_word (mem vm_example) va AND 0x3FFF = 5" for va
    using that by (simp add: phys_word_mapped vm_example_pages) (simp add: vm_example_def mem_start_def)
  obtain s' where s': "write_mem quiet_world 0x107 42 vm_example = Some (s', 0)"
    and rd: "\<forall>vb x pv w'. mapped_to_ram (mem vm_example) vb \<longrightarrow> readable (mem vm_example) vb \<longrightarrow>
       phys_word (mem vm_example) (physical (mem vm_example) vb) = Some x \<longrightarrow>
       (\<exists>s2. read_mem w' vb pv s' = Some (s2,
          if physical (mem vm_example) vb = physical (mem vm_example) 0x107 then 42 else x, 0))"
    using virtual_memory_is_array [of vm_example "0x107" quiet_world 42]
    by (auto simp: vm_example_inv vm_example_facts)
  have "\<exists>s2. read_mem quiet_world 0x307 0 s' = Some (s2, 42, 0)"
    using rd [rule_format, of "0x307" 0 quiet_world 0] w [of "0x307"]
    by (simp add: vm_example_facts physical_def)
  moreover have "\<exists>s2. read_mem quiet_world 0x108 0 s' = Some (s2, 0, 0)"
    using rd [rule_format, of "0x108" 0 quiet_world 0] w [of "0x108"]
    by (simp add: vm_example_facts physical_def)
  ultimately show ?thesis using s' by blast
qed

text \<open>What a refused access leaves: all of memory and every device.\<close>

definition untouched :: "machine \<Rightarrow> machine \<Rightarrow> bool" where
  "untouched s s' \<longleftrightarrow> phys_word (mem s') = phys_word (mem s) \<and> l1_map (mem s') = l1_map (mem s) \<and>
     l2_map (mem s') = l2_map (mem s) \<and> intr s' = intr s \<and> disk s' = disk s \<and> tv s' = tv s \<and>
     iob s' = iob s \<and> ether s' = ether s"



text \<open>
  The Unibus page: the word offset is doubled before the register is looked up, and it is
  the doubled offset that reaches \<open>page->w\<close> when no register matches. A write to the upper
  half of the page lands outside the 256 words of the page.
\<close>

theorem unibus_write_escapes:
  assumes "\<not> unmapped_area va" and "readable (mem s) va" and "writable (mem s) va"
    and "page_word (mem s) va AND 0x3FFF = 0x3FF6" and "phy_pages (mem s) 0x3FF6 \<noteq> None"
    and "128 \<le> unat (va AND 0xFF)"
  shows "write_mem w va v s = None"
proof -
  define off where "off = va AND 0xFF"
  have off: "128 \<le> unat off" "unat off < 256" using assms(6) by (simp_all add: off_def)
  have "unat (push_bit 1 off) = 2 * unat off"
    using off by (simp only: unsigned_push_bit_eq) (simp add: push_bit_eq_mult take_bit_nat_eq_self)
  then have d: "256 \<le> unat (push_bit 1 off)" "sint (push_bit 1 off) = int (2 * unat off)"
    using off sint_eq_unat [of "push_bit 1 off"] by simp_all
  obtain m' where tr: "map_vtop va (mem s) = Some (m', page_word (mem s) va, Some (l1_entry (mem s) va), off)"
    using translate [OF assms(1)] by (auto simp: off_def)
  have ne: "push_bit 1 off \<noteq> c" if "unat c < 256" for c using d(1) that by auto
  have range: "\<not> sint (push_bit 1 off) \<le> 0x1E" "\<not> sint (push_bit 1 off) \<le> 0x7E"
    using d off by (simp_all only: of_nat_le_numeral_iff)
  have "write_device w va 0x3FF6 off v ((clear_faults s)\<lparr>mem := m'\<rparr>) = Some None"
    using range ne [of "0x20"] ne [of "0x22"] ne [of "0x24"] ne [of "0x40"] ne [of "0x44"] ne [of "0x48"] ne [of "0x4C"]
    by (simp add: write_device_def unibus_write_def Let_def del: push_bit_eq_mult push_bit_of_Suc_0)
  then show ?thesis
    using assms(2-5) tr d(1) map_vtop_frame(1) [OF tr]
    by (auto simp: write_mem_def Let_def readable_def writable_def page_st_def simp del: push_bit_eq_mult push_bit_of_Suc_0)
qed

lemma unibus_write_escapes_witness: "write_mem quiet_world 0x2F0 1 vm_example = None"
  by (rule unibus_write_escapes) (simp_all add: vm_example_facts)

end
