(* ===== verification/Usim_Division.thy ===== *)
theory Usim_Division
  imports Usim_Datapath
begin

section \<open>Division by divide-step instructions\<close>

text \<open>
  The microcode divides with 34 ALU instructions: an initial divide step (051), 31 divide
  steps (041) that shift the partial remainder and the quotient left, a last divide step
  that shifts the quotient only, and a remainder correction (045). The proof that this
  non-restoring scheme is a long division covers the ALU, the Q register and the output bus
  together.
\<close>

subsection \<open>The instruction sequence\<close>

text \<open>
  An ALU instruction without carry-in, as it acts on the M operand (which is also its
  destination), on Q and on \<open>alu_out\<close>.
\<close>

definition alu_instruction :: "u32 \<Rightarrow> u32 \<Rightarrow> u64 \<Rightarrow> u32 \<Rightarrow> u32 \<times> u32 \<times> u32 \<Rightarrow> u32 \<times> u32 \<times> u32" where
  "alu_instruction op out_sel q_sel a mqo =
    (let (m, q, alu_out) = mqo; (out, carry) = alu op m a 0 q alu_out
     in (output_bus out_sel q_sel m out carry q, q_control q_sel q out, out))"

text \<open>The sequence for the divisor \<open>a\<close>; \<open>divide_steps k\<close> stops after \<open>k\<close> divide steps.\<close>

definition divide_steps :: "nat \<Rightarrow> u32 \<Rightarrow> u32 \<times> u32 \<times> u32 \<Rightarrow> u32 \<times> u32 \<times> u32" where
  "divide_steps k a mqo = (alu_instruction 0x21 3 1 a ^^ k) (alu_instruction 0x29 3 1 a mqo)"

definition divide :: "u32 \<Rightarrow> u32 \<times> u32 \<times> u32 \<Rightarrow> u32 \<times> u32 \<times> u32" where
  "divide a mqo =
    alu_instruction 0x25 1 0 a (alu_instruction 0x21 1 1 a (divide_steps 31 a mqo))"

subsection \<open>One digit\<close>

lemma shift_left_in:
  "push_bit 1 w OR (if b then 1 else 0) = (2 * w + of_bool b :: u32)"
proof -
  have "push_bit 1 w AND (1 :: u32) = 0"
    by (rule bit_word_eqI) (simp only: bit_and_iff bit_push_bit_iff bit_1_iff, auto)
  then show ?thesis
    by (simp add: disjunctive_add_eq_or [symmetric] push_bit_eq_mult mult.commute)
qed

text \<open>One digit of a long division: \<open>t\<close> is twice the remainder plus the next dividend bit.\<close>

lemma long_division_step:
  fixes D a b :: int
  assumes "0 < a" and "0 \<le> b" "b \<le> 1" and t: "t = 2 * (D mod a) + b"
  shows "(2 * D + b) div a = 2 * (D div a) + of_bool (a \<le> t)"
    "(2 * D + b) mod a = t - a * of_bool (a \<le> t)" "0 \<le> t" "t < 2 * a"
proof -
  have "0 \<le> D mod a" "D mod a < a" using assms(1) by simp_all
  then show bounds: "0 \<le> t" "t < 2 * a" using assms(2,3) t by linarith+
  define r where "r = t - a * of_bool (a \<le> t)"
  have r: "0 \<le> r" "r < a" using bounds by (auto simp: r_def)
  have "D = a * (D div a) + D mod a" by simp
  then have "2 * D + b = 2 * (a * (D div a)) + t" using t by linarith
  then have D: "2 * D + b = a * (2 * (D div a) + of_bool (a \<le> t)) + r"
    by (simp add: r_def distrib_left)
  show "(2 * D + b) div a = 2 * (D div a) + of_bool (a \<le> t)"
    by (rule int_div_pos_eq [OF D r])
  show "(2 * D + b) mod a = t - a * of_bool (a \<le> t)"
    using int_mod_pos_eq [OF D r] by (simp add: r_def)
qed


lemma divide_digit:
  assumes A: "A = sint a" "0 < A" and R: "0 \<le> R" "R < A" and t: "t = 2 * R + of_bool b"
    and out: "out = word_of_int (R - (if odd (uint q) then 0 else A))"
    and m: "m = 2 * out + of_bool b"
  shows "fst (alu 0x21 m a 0 q x) = word_of_int (t - A)"
    "q_control 1 q (fst (alu 0x21 m a 0 q x)) = 2 * q + of_bool (A \<le> t)"
proof -
  have aw: "a = word_of_int A" by (simp add: A)
  have "fst (alu 0x21 m a 0 q x) = (if odd (uint q) then m - a else m + a)"
    by (simp add: alu_def alu_cond_def Let_def odd_mask sub32_def add32_def)
  also have "\<dots> = word_of_int (t - A)"
    by (simp add: m out t aw)
  finally show fst_eq: "fst (alu 0x21 m a 0 q x) = word_of_int (t - A)" .
  have "A < 2 ^ 31" using A sint_bounds [of a] by simp
  then have "sint (word_of_int (t - A) :: u32) = t - A"
    using R t by (intro sint_word_of_int) auto
  then show "q_control 1 q (fst (alu 0x21 m a 0 q x)) = 2 * q + of_bool (A \<le> t)"
    using shift_left_in [of q "A \<le> t"]
    unfolding fst_eq by (simp add: q_control_def ir_field_def sign_mask)
qed

subsection \<open>The invariant of the sequence\<close>

text \<open>
  \<open>dividend_prefix m0 q0 k\<close>: the dividend without its last \<open>32 - k\<close> bits. After \<open>k\<close> steps Q holds the dividend
  bits still to come above the quotient of the prefix; \<open>alu_out\<close> is the remainder of the
  prefix, less the divisor where the quotient digit is 0 (the scheme does not restore); M
  is \<open>alu_out\<close> shifted left with the next dividend bit.
\<close>

definition dividend_prefix :: "u32 \<Rightarrow> u32 \<Rightarrow> nat \<Rightarrow> int" where
  "dividend_prefix m0 q0 k = uint m0 * 2 ^ k + uint q0 div 2 ^ (32 - k)"

definition dividing :: "int \<Rightarrow> u32 \<Rightarrow> u32 \<Rightarrow> nat \<Rightarrow> u32 \<times> u32 \<times> u32 \<Rightarrow> bool" where
  "dividing A m0 q0 k mqo \<longleftrightarrow>
    (case mqo of (m, q, out) \<Rightarrow>
       let R = dividend_prefix m0 q0 k mod A; Q = dividend_prefix m0 q0 k div A in
       out = word_of_int (R - (if odd Q then 0 else A)) \<and>
       m = 2 * out + of_bool (odd (uint q0 div 2 ^ (31 - k))) \<and>
       uint q = (uint q0 mod 2 ^ (31 - k)) * 2 ^ Suc k + Q)"

lemma dividend_prefix_Suc:
  assumes "k \<le> 31"
  shows "dividend_prefix m0 q0 (Suc k) = 2 * dividend_prefix m0 q0 k + of_bool (odd (uint q0 div 2 ^ (31 - k)))"
proof -
  have "uint q0 div 2 ^ (32 - k) = uint q0 div (2 ^ (31 - k) * 2)"
    using assms by (simp only: Suc_diff_le [of k 31, simplified] power_Suc2 [symmetric])
  also have "\<dots> = uint q0 div 2 ^ (31 - k) div 2" by (rule zdiv_zmult2_eq) simp
  finally have "uint q0 div 2 ^ (31 - k)
      = 2 * (uint q0 div 2 ^ (32 - k)) + of_bool (odd (uint q0 div 2 ^ (31 - k)))"
    using mult_div_mod_eq [of 2 "uint q0 div 2 ^ (31 - k)"] by (simp add: mod_2_eq_odd)
  then show ?thesis by (simp add: dividend_prefix_def)
qed

lemma zdiv_less: "0 < c \<Longrightarrow> x < c * y \<Longrightarrow> x div c < (y :: int)"
proof (rule ccontr)
  assume c: "0 < c" and less: "x < c * y" and "\<not> x div c < y"
  then have "c * y \<le> c * (x div c)" by simp
  also have "\<dots> \<le> x" using c by (simp add: mult_div_mod_eq [symmetric] minus_mod_eq_mult_div [symmetric])
  finally show False using less by simp
qed

lemma dividend_prefix_quotient:
  assumes "0 < A" and "uint m0 < A" and "k \<le> 32"
  shows "0 \<le> dividend_prefix m0 q0 k div A" "dividend_prefix m0 q0 k div A < 2 ^ k"
proof -
  have "uint q0 < 2 ^ 32" using uint_bounded [of q0] by simp
  also have "(2::int) ^ 32 = 2 ^ (32 - k) * 2 ^ k"
    using assms(3) by (simp flip: power_add)
  finally have "uint q0 div 2 ^ (32 - k) < 2 ^ k"
    by (rule zdiv_less [rotated]) simp
  then have "dividend_prefix m0 q0 k < (uint m0 + 1) * 2 ^ k"
    by (simp add: dividend_prefix_def distrib_right)
  also have "\<dots> \<le> A * 2 ^ k" using assms(2) by (intro mult_right_mono) auto
  finally show "dividend_prefix m0 q0 k div A < 2 ^ k"
    by (rule zdiv_less [OF assms(1)])
  show "0 \<le> dividend_prefix m0 q0 k div A"
    using assms(1) by (simp add: dividend_prefix_def pos_imp_zdiv_nonneg_iff)
qed

lemma top_bit: "(w :: u32) AND 0x80000000 \<noteq> 0 \<longleftrightarrow> odd (uint w div 2 ^ 31)"
proof -
  have "w AND 0x80000000 = 0 \<longleftrightarrow> \<not> bit w 31"
    using and_exp_eq_0_iff_not_bit [of w 31] by simp
  also have "\<dots> \<longleftrightarrow> \<not> bit (uint w) 31" by (simp only: bit_uint_iff) simp
  finally show ?thesis by (simp add: bit_iff_odd)
qed


lemma dividing_step:
  assumes A: "A = sint a" "0 < A" and m0: "uint m0 < A" and k: "k \<le> 31"
    and d: "dividing A m0 q0 k (m, q, out)"
    and out': "out' = fst (alu 0x21 m a 0 q out)"
  shows "out' = word_of_int (dividend_prefix m0 q0 (Suc k) mod A - (if odd (dividend_prefix m0 q0 (Suc k) div A) then 0 else A))"
    "uint (q_control 1 q out') = (uint q0 mod 2 ^ (31 - k) * 2 ^ Suc (Suc k) + dividend_prefix m0 q0 (Suc k) div A) mod 2 ^ 32"
proof -
  define b where "b \<longleftrightarrow> odd (uint q0 div 2 ^ (31 - k))"
  define t where "t = 2 * (dividend_prefix m0 q0 k mod A) + of_bool b"
  have par: "odd (uint q) = odd (dividend_prefix m0 q0 k div A)"
    using d by (simp add: dividing_def Let_def)
  have outeq: "out = word_of_int (dividend_prefix m0 q0 k mod A - (if odd (uint q) then 0 else A))"
    and meq: "m = 2 * out + of_bool b"
    using d by (simp_all add: dividing_def Let_def par b_def)
  have digit: "out' = word_of_int (t - A)" "q_control 1 q out' = 2 * q + of_bool (A \<le> t)"
    using divide_digit [OF A _ _ t_def outeq meq, of out] A(2) by (simp_all add: out')
  note nxt = long_division_step [OF A(2), of "of_bool b" t "dividend_prefix m0 q0 k"]
  have pS: "dividend_prefix m0 q0 (Suc k) = 2 * dividend_prefix m0 q0 k + of_bool b"
    using dividend_prefix_Suc [OF k] by (simp add: b_def)
  have R': "dividend_prefix m0 q0 (Suc k) mod A = t - A * of_bool (A \<le> t)"
    and Q': "dividend_prefix m0 q0 (Suc k) div A = 2 * (dividend_prefix m0 q0 k div A) + of_bool (A \<le> t)"
    using nxt by (simp_all add: pS t_def)
  show "out' = word_of_int (dividend_prefix m0 q0 (Suc k) mod A - (if odd (dividend_prefix m0 q0 (Suc k) div A) then 0 else A))"
    by (cases "A \<le> t") (simp_all add: digit R' Q')
  have "uint (q_control 1 q out') = (2 * uint q + of_bool (A \<le> t)) mod 2 ^ 32"
    unfolding digit(2) by (simp add: uint_word_ariths mod_simps)
  also have "2 * uint q + of_bool (A \<le> t)
      = uint q0 mod 2 ^ (31 - k) * 2 ^ Suc (Suc k) + dividend_prefix m0 q0 (Suc k) div A"
    using d by (simp add: dividing_def Let_def Q')
  finally show "uint (q_control 1 q out') = (uint q0 mod 2 ^ (31 - k) * 2 ^ Suc (Suc k) + dividend_prefix m0 q0 (Suc k) div A) mod 2 ^ 32" .
qed

lemma fields_apart:
  fixes x y :: int
  assumes "k \<le> 30" and "0 \<le> y" "y < 2 ^ Suc k" and q: "q = x mod 2 ^ (31 - k) * 2 ^ Suc k + y"
  shows "odd (q div 2 ^ 31) = odd (x div 2 ^ (30 - k))"
    "0 \<le> z \<Longrightarrow> z < 2 ^ Suc (Suc k) \<Longrightarrow>
     (x mod 2 ^ (31 - k) * 2 ^ Suc (Suc k) + z) mod 2 ^ 32 = x mod 2 ^ (30 - k) * 2 ^ Suc (Suc k) + z"
proof -
  have twice: "(2::int) ^ (31 - k) = 2 ^ (30 - k) * 2"
    using assms(1) by (simp only: Suc_diff_le [of k 30, simplified] power_Suc2)
  have split: "x mod 2 ^ (31 - k) = 2 ^ (30 - k) * (x div 2 ^ (30 - k) mod 2) + x mod 2 ^ (30 - k)"
    unfolding twice by (rule zmod_zmult2_eq) simp
  have p31: "(2::int) ^ 31 = 2 ^ (30 - k) * 2 ^ Suc k" "(2::int) ^ 32 = 2 ^ (30 - k) * 2 ^ Suc (Suc k)"
    using assms(1) by (simp_all flip: power_add power_Suc)
  define h where "h = x div 2 ^ (30 - k) mod 2"
  define l where "l = x mod 2 ^ (30 - k)"
  have l: "0 \<le> l" "l < 2 ^ (30 - k)" by (simp_all add: l_def)
  have bound: "0 \<le> l * c + w" "l * c + w < 2 ^ (30 - k) * c" if "0 \<le> w" "w < c" for c w :: int
  proof -
    show "0 \<le> l * c + w" using l that by simp
    have "l * c + w < l * c + c" using that by simp
    also have "\<dots> = (l + 1) * c" by (simp add: distrib_right)
    also have "\<dots> \<le> 2 ^ (30 - k) * c" using l that by (intro mult_right_mono) auto
    finally show "l * c + w < 2 ^ (30 - k) * c" .
  qed
  have "q = 2 ^ 31 * h + (l * 2 ^ Suc k + y)"
    unfolding q split p31 h_def l_def by (simp add: algebra_simps)
  moreover have "l * 2 ^ Suc k + y < 2 ^ 31" unfolding p31 by (rule bound(2) [OF assms(2,3)])
  ultimately have "q div 2 ^ 31 = h"
    by (rule int_div_pos_eq [OF _ bound(1) [OF assms(2,3)]])
  then show "odd (q div 2 ^ 31) = odd (x div 2 ^ (30 - k))"
    by (simp add: h_def)
  assume z: "0 \<le> z" "z < 2 ^ Suc (Suc k)"
  have "x mod 2 ^ (31 - k) * 2 ^ Suc (Suc k) + z = 2 ^ 32 * h + (l * 2 ^ Suc (Suc k) + z)"
    unfolding split p31 h_def l_def by (simp add: algebra_simps)
  moreover have "l * 2 ^ Suc (Suc k) + z < 2 ^ 32" unfolding p31 by (rule bound(2) [OF z])
  ultimately show "(x mod 2 ^ (31 - k) * 2 ^ Suc (Suc k) + z) mod 2 ^ 32 = x mod 2 ^ (30 - k) * 2 ^ Suc (Suc k) + z"
    unfolding l_def [symmetric] by (rule int_mod_pos_eq [OF _ bound(1) [OF z]])
qed


lemma alu_instruction_dividing:
  assumes A: "A = sint a" "0 < A" and m0: "uint m0 < A" and k: "k \<le> 30"
    and d: "dividing A m0 q0 k mqo"
  shows "dividing A m0 q0 (Suc k) (alu_instruction 0x21 3 1 a mqo)"
proof -
  obtain m q out where mqo: "mqo = (m, q, out)" by (cases mqo)
  define out' where "out' = fst (alu 0x21 m a 0 q out)"
  note st = dividing_step [OF A m0 _ d [unfolded mqo] out'_def]
  have k31: "k \<le> 31" "Suc k \<le> 32" "k \<le> 32" using k by simp_all
  note Qk = dividend_prefix_quotient [OF A(2) m0 k31(3), of q0]
    and QS = dividend_prefix_quotient [OF A(2) m0 k31(2), of q0]
  have q: "uint q = uint q0 mod 2 ^ (31 - k) * 2 ^ Suc k + dividend_prefix m0 q0 k div A"
    using d by (simp add: mqo dividing_def Let_def)
  have "dividend_prefix m0 q0 k div A < 2 ^ Suc k" "dividend_prefix m0 q0 (Suc k) div A < 2 ^ Suc (Suc k)"
    using Qk QS by simp_all
  note fields = fields_apart(1) [OF k Qk(1) this(1) q] fields_apart(2) [OF k Qk(1) this(1) q QS(1) this(2)]
  have "uint (q_control 1 q out') = uint q0 mod 2 ^ (31 - Suc k) * 2 ^ Suc (Suc k) + dividend_prefix m0 q0 (Suc k) div A"
    using st(2) fields(2) k31 by simp
  moreover have "output_bus 3 1 m out' c q = 2 * out' + of_bool (odd (uint q0 div 2 ^ (31 - Suc k)))" for c
    using shift_left_in [of out' "q AND 0x80000000 \<noteq> 0"] fields(1)
    by (simp add: output_bus_def top_bit)
  ultimately show ?thesis
    using st(1) k31 by (simp add: mqo alu_instruction_def dividing_def Let_def split_beta flip: out'_def)
qed


subsection \<open>The whole sequence\<close>

lemma dividing_start:
  assumes A: "A = sint a" "0 < A" and m0: "uint m0 < A"
  shows "dividing A m0 q0 0 (alu_instruction 0x29 3 1 a (m0, q0, x))"
proof -
  have a: "a = word_of_int A" by (simp add: A)
  have A31: "A < 2 ^ 31" using A sint_bounds [of a] by simp
  have neg: "fst (alu 0x29 m0 a 0 q0 x) = word_of_int (uint m0 - A)"
    by (simp add: alu_def alu_cond_def Let_def sub32_def a)
  have "sint (word_of_int (uint m0 - A) :: u32) = uint m0 - A"
    using m0 A31 uint_ge_0 [of m0] by (intro sint_word_of_int) linarith+
  then have s: "(word_of_int (uint m0 - A) :: u32) AND 0x80000000 \<noteq> 0"
    using m0 by (simp add: sign_mask)
  have q0: "uint q0 div 2 ^ 32 = 0" using uint_bounded [of q0] by simp
  have p0: "dividend_prefix m0 q0 0 mod A = uint m0" "dividend_prefix m0 q0 0 div A = 0"
    using m0 q0 by (simp_all add: dividend_prefix_def)
  have "uint (push_bit 1 q0) = uint q0 mod 2 ^ 31 * 2"
    using shift_left_in [of q0 False] by (simp add: uint_word_ariths mult_mod_right mult.commute)
  moreover have "output_bus 3 1 m0 v c q0 = 2 * v + of_bool (odd (uint q0 div 2 ^ 31))" for v c
    using shift_left_in [of v "q0 AND 0x80000000 \<noteq> 0"] by (simp add: output_bus_def top_bit)
  ultimately show ?thesis
    using s by (simp add: alu_instruction_def dividing_def Let_def split_beta neg p0 q_control_def
        ir_field_def)
qed

lemma divide_steps_dividing:
  assumes "A = sint a" "0 < A" and "uint m0 < A" and "k \<le> 31"
  shows "dividing A m0 q0 k (divide_steps k a (m0, q0, x))"
  using assms(4)
proof (induction k)
  case 0
  then show ?case using dividing_start [OF assms(1-3)] by (simp add: divide_steps_def)
next
  case (Suc k)
  then show ?case
    using alu_instruction_dividing [OF assms(1-3)] by (simp add: divide_steps_def)
qed

text \<open>
  An initial divide step, 31 divide steps, a last divide step and a remainder
  correction leave the quotient in Q and the remainder in M, for every 64-bit dividend (M,
  Q) and every positive divisor A larger than M (so that the quotient fits Q).
\<close>

lemma divide_correct:
  assumes "0 < sint a" and "uint m0 < sint a"
  shows "case divide a (m0, q0, x) of (r, quot, _) \<Rightarrow>
    uint quot = (uint m0 * 2 ^ 32 + uint q0) div sint a \<and> uint r = (uint m0 * 2 ^ 32 + uint q0) mod sint a"
proof -
  define D where "D = uint m0 * 2 ^ 32 + uint q0"
  obtain m q out where mqo: "divide_steps 31 a (m0, q0, x) = (m, q, out)"
    by (cases "divide_steps 31 a (m0, q0, x)")
  have d: "dividing (sint a) m0 q0 31 (m, q, out)"
    using divide_steps_dividing [OF refl assms, of 31 q0 x] by (simp add: mqo)
  define out' where "out' = fst (alu 0x21 m a 0 q out)"
  have S31: "Suc 31 = 32" by simp
  note st = dividing_step [OF refl assms _ d out'_def, unfolded S31]
  have p32: "dividend_prefix m0 q0 32 = D" by (simp add: dividend_prefix_def D_def)
  have quot: "0 \<le> D div sint a" "D div sint a < 2 ^ 32"
    using dividend_prefix_quotient [OF assms, of 32 q0] by (simp_all add: dividend_prefix_def D_def)
  have q': "uint (q_control 1 q out') = D div sint a"
    using st(2) quot by (simp add: p32)
  have "sint a < 2 ^ 31" using sint_bounds [of a] by simp
  then have "D mod sint a < 2 ^ 32" using pos_mod_bound [OF assms(1), of D] by simp
  then have r: "uint (word_of_int (D mod sint a) :: u32) = D mod sint a"
    using assms(1) by (simp add: uint_word_of_int_eq take_bit_int_eq_self)
  have par: "odd (uint (q_control 1 q out')) = odd (D div sint a)" by (simp only: q')
  have fin: "fst (alu 0x25 out' a 0 (q_control 1 q out') out') = word_of_int (D mod sint a)"
    using st(1) par
    by (auto simp: alu_def alu_cond_def Let_def odd_mask add32_in_place_def p32)
  show ?thesis
    using q' r fin
    by (simp add: divide_def mqo alu_instruction_def split_beta output_bus_def q_control_def [of 0]
        ir_field_def D_def flip: out'_def)
qed

end
