(* ===== verification/Usim_Control.thy ===== *)
theory Usim_Control
  imports Usim_Invariant Usim_Virtual Usim_Division
begin

section \<open>Flow of control and pipeline (run in ucode.c)\<close>

text \<open>
  What the instructions of \<open>Usim_Exec\<close> do in sequence: call and return through the SPC, the
  delay slot of a jump, HALT, the delay of memory data, and the division routine executed by
  whole ALU instructions.
\<close>

subsection \<open>Call and return\<close>

text \<open>\<open>taken u m a s\<close>: the condition of a JUMP instruction holds.\<close>

definition taken :: "u64 \<Rightarrow> u32 \<Rightarrow> u32 \<Rightarrow> machine \<Rightarrow> bool" where
  "taken u m a s \<longleftrightarrow>
    (let t = fst (jump_condition u 0 m a (page_fault_flag (cpu s)) (interrupt_enable_flag (cpu s))
                    (interrupt_pending_flag (intr s)) (sequence_break_flag (cpu s)))
     in if bit u 6 then t = 0 else t \<noteq> 0)"

definition return_address :: "u64 \<Rightarrow> machine \<Rightarrow> u32" where
  "return_address u s = (if bit u 7 then u_pc (cpu s) - 1 else u_pc (cpu s))"

text \<open>Execution of a plain jump (no miscellaneous function), by its R and P bits.\<close>

lemma exec_call:
  assumes "spc_ok s" and "ir_field u 10 3 \<noteq> 1" and "\<not> bit u 9" "bit u 8" and "taken u m a s"
  shows "\<exists>s1. push_spc (return_address u s) s = Some s1 \<and>
    exec_jump w u m a s = Some \<lparr>after = s1\<lparr>cpu := (cpu s1)\<lparr>u_pc := ir_field u 12 0x3FFF\<rparr>\<rparr>,
      inhibit_popj = True, skip_next = bit u 7\<rparr>"
proof -
  obtain s1 where "push_spc (return_address u s) s = Some s1"
    using spc.push_ok [OF assms(1)] by blast
  with assms show ?thesis
    by (auto simp: exec_jump_def process_jump_def taken_def return_address_def Let_def split_beta
        split: if_splits)
qed

lemma exec_return:
  assumes "ir_field u 10 3 \<noteq> 1" and "bit u 9" "\<not> bit u 8" and "taken u m a s"
    and "pop_spc s = Some (s1, pc)" and "pc < 0x4000"
  shows "exec_jump w u m a s = Some \<lparr>after = s1\<lparr>cpu := (cpu s1)\<lparr>u_pc := pc\<rparr>\<rparr>,
      inhibit_popj = True, skip_next = bit u 7\<rparr>"
proof -
  have "unat pc < 2 ^ 14" using assms(6) by (simp add: word_less_nat_alt)
  moreover from this have "unat (pc AND mask 14) = unat pc" by (simp only: unat_and_mask mod_less)
  ultimately have "drop_bit 14 pc = 0" "pc AND 0x3FFF = pc"
    by (simp_all add: word_unat_eq_iff unat_drop_bit mask_num)
  with assms show ?thesis
    by (auto simp: exec_jump_def process_jump_def return_pc_def taken_def Let_def split_beta
        split: if_splits)
qed

text \<open>
  C8. A taken jump with the P bit calls: control goes to its target and the return address
  (the next instruction, or the one in the delay slot when the N bit skips that) is on the SPC. A taken jump with the R bit,
  executed anywhere with the SPC as the call left it, returns there and restores
  the SPC pointer.
\<close>

theorem call_then_return:
  assumes "spc_ok s" and "taken u m a s" and "return_address u s < 0x4000"
    and "ir_field u 10 3 \<noteq> 1" "\<not> bit u 9" "bit u 8"
    and "ir_field u' 10 3 \<noteq> 1" "bit u' 9" "\<not> bit u' 8"
  shows "\<exists>s1. exec_jump w u m a s = Some \<lparr>after = s1, inhibit_popj = True, skip_next = bit u 7\<rparr> \<and>
    u_pc (cpu s1) = ir_field u 12 0x3FFF \<and>
    (\<forall>t m' a' w'. spc_stack (cpu t) = spc_stack (cpu s1) \<longrightarrow> spc_stack_ptr (cpu t) = spc_stack_ptr (cpu s1) \<longrightarrow>
       taken u' m' a' t \<longrightarrow>
       (\<exists>t1. exec_jump w' u' m' a' t = Some \<lparr>after = t1, inhibit_popj = True, skip_next = bit u' 7\<rparr> \<and>
          u_pc (cpu t1) = return_address u s \<and> spc_stack_ptr (cpu t1) = spc_stack_ptr (cpu s)))"
proof -
  obtain s1 where s1: "push_spc (return_address u s) s = Some s1"
    "exec_jump w u m a s = Some \<lparr>after = s1\<lparr>cpu := (cpu s1)\<lparr>u_pc := ir_field u 12 0x3FFF\<rparr>\<rparr>,
      inhibit_popj = True, skip_next = bit u 7\<rparr>"
    using exec_call assms by blast
  have pop: "\<exists>t1. pop_spc t = Some (t1, return_address u s) \<and> spc_stack_ptr (cpu t1) = spc_stack_ptr (cpu s)"
    if "spc_stack (cpu t) = spc_stack (cpu s1)" "spc_stack_ptr (cpu t) = spc_stack_ptr (cpu s1)" for t
  proof -
    have p: "unat (spc_stack_ptr (cpu s)) < 2 ^ 5" using assms(1) by (simp add: spc_ok_def)
    define q where "q = (spc_stack_ptr (cpu s) + 1) AND mask 5"
    have q: "unat q = (unat (spc_stack_ptr (cpu s)) + 1) mod 2 ^ 5" using ring_up [OF p] by (simp add: q_def)
    then have "unat q < 2 ^ 5" by simp
    then have "unat ((q - 1) AND mask 5) = unat (spc_stack_ptr (cpu s))"
      using p by (simp only: ring_down q) (simp add: mod_simps)
    then have "(q - 1) AND mask 5 = spc_stack_ptr (cpu s)" by (simp only: word_unat_eq_iff)
    then show ?thesis
      using s1(1) that \<open>unat q < 2 ^ 5\<close>
      by (auto simp: push_spc_def pop_spc_def Let_def q_def mask_num split: bind_splits)
  qed
  have "\<exists>t1. exec_jump w' u' m' a' t = Some \<lparr>after = t1, inhibit_popj = True, skip_next = bit u' 7\<rparr> \<and>
        u_pc (cpu t1) = return_address u s \<and> spc_stack_ptr (cpu t1) = spc_stack_ptr (cpu s)"
    if "spc_stack (cpu t) = spc_stack (cpu s1)" "spc_stack_ptr (cpu t) = spc_stack_ptr (cpu s1)"
      "taken u' m' a' t" for t m' a' w'
    using pop [OF that(1,2)] exec_return [OF assms(7-9) that(3) _ assms(3)] by fastforce
  with s1(2) show ?thesis by fastforce
qed

lemma call_then_return_witness:
  "\<exists>s1. exec_jump quiet_world 0x123127 0 0 (machine_start (\<lambda>a i. 0)) =
       Some \<lparr>after = s1, inhibit_popj = True, skip_next = False\<rparr> \<and> u_pc (cpu s1) = 0x123 \<and>
     (\<exists>t1. exec_jump quiet_world 0x227 5 6 s1 = Some \<lparr>after = t1, inhibit_popj = True, skip_next = False\<rparr> \<and>
       u_pc (cpu t1) = 0 \<and> spc_stack_ptr (cpu t1) = 0)"
proof -
  let ?s = "machine_start (\<lambda>a i. 0)"
  have "spc_ok ?s" "return_address 0x123127 ?s = 0"
    by (simp_all add: spc_ok_def return_address_def machine_start_def bit_numeral_rec)
  moreover have "taken 0x123127 0 0 ?s" "taken 0x227 5 6 s" for s
    by (simp_all add: taken_def jump_condition_def ir_field_def Let_def)
  ultimately show ?thesis
    using call_then_return [of ?s "0x123127" 0 0 "0x227" quiet_world]
    by (fastforce simp: ir_field_def machine_start_def)
qed

subsection \<open>The delay slot\<close>

text \<open>The instruction that the next trip through the loop executes.\<close>

definition instruction :: "world \<Rightarrow> machine \<times> locals \<Rightarrow> u64 option" where
  "instruction w sl = do {
     let (s0, l0) = loop_top sl;
     s1 \<leftarrow> poll_devices w s0;
     (_, _, u) \<leftarrow> next_instruction (s1, l0);
     Some u
   }"

lemma poll_devices_prom: "poll_devices w s = Some s' \<Longrightarrow> prom_enabled_flag s' = prom_enabled_flag s"
proof -
  have ev: "x11_events es t = Some t' \<Longrightarrow> prom_enabled_flag t' = prom_enabled_flag t" for es t t'
    by (induction es arbitrary: t)
      (auto simp: x11_handle_def Let_def split: xevent.splits bind_splits prod.splits)
  show "poll_devices w s = Some s' \<Longrightarrow> prom_enabled_flag s' = prom_enabled_flag s"
    by (auto simp: poll_devices_def tv_poll_def x11_event_def Let_def dest!: ev
        split: bind_splits prod.splits if_splits)
qed

lemma ir_field_bounds: "unat (ir_field u n 0x3FF) < 1024"
  using unat_and_mask [of "ucast (drop_bit n u) :: u32" 10] by (simp add: ir_field_def mask_num)

lemma m_source_frame:
  "m_source n v s = Some (s', m) \<Longrightarrow> oa_reg_lo_set (cpu s') = oa_reg_lo_set (cpu s) \<and>
     oa_reg_hi_set (cpu s') = oa_reg_hi_set (cpu s) \<and> cycles (cpu s') = cycles (cpu s)"
  by (auto simp: m_source_def functional_source_def Let_def split: if_splits bind_splits prod.splits option.splits)

lemma next_instruction_frame:
  "next_instruction (s, l) = Some (s', l', u) \<Longrightarrow> oa_reg_lo_set (cpu s') = 0 \<and>
     oa_reg_hi_set (cpu s') = 0 \<and> cycles (cpu s') \<noteq> 0 \<and> \<not> no_exec_next l'"
  by (auto simp: next_instruction_def advance_pipe_def merge_oa_def count_cycle_def Let_def
      split: if_splits bind_splits prod.splits)

lemma next_instruction_word:
  assumes "\<not> prom_enabled_flag s" and "unat (u_pc (cpu s)) < 16383"
    and "oa_reg_lo_set (cpu s) = 0" "oa_reg_hi_set (cpu s) = 0"
  shows "\<exists>s' l'. next_instruction (s, l) =
    Some (s', l', if no_exec_next l then ucode (cpu s) (unat (u_pc (cpu s))) else p1 l)"
proof -
  have "unat (u_pc (cpu s) + 1) < 16384"
    using assms(2) by (subst unat_plus_small) auto
  with assms show ?thesis
    by (simp add: next_instruction_def advance_pipe_def fetch_def step_new_md_def merge_oa_def Let_def)
qed

text \<open>A JUMP instruction that always jumps and neither calls, returns nor writes the control memory.\<close>

definition plain_jump :: "u64 \<Rightarrow> bool" where
  "plain_jump u \<longleftrightarrow> ir_field u 43 3 = 1 \<and> ir_field u 10 3 \<noteq> 1 \<and> bit u 5 \<and> ir_field u 0 0xF = 7 \<and>
     \<not> bit u 6 \<and> \<not> bit u 8 \<and> \<not> bit u 9"

lemma exec_plain_jump:
  "plain_jump u \<Longrightarrow> execute w u m a s = Some \<lparr>after = s\<lparr>cpu := (cpu s)\<lparr>u_pc := ir_field u 12 0x3FFF\<rparr>\<rparr>,
     inhibit_popj = True, skip_next = bit u 7\<rparr>"
  by (simp add: plain_jump_def execute_def exec_jump_def process_jump_def jump_condition_def Let_def)

lemma step_plain_jump:
  assumes "step w (s, l) = Some (s', l')" and "instruction w (s, l) = Some u" and "plain_jump u"
  shows "u_pc (cpu s') = ir_field u 12 0x3FFF" "oa_reg_lo_set (cpu s') = 0" "oa_reg_hi_set (cpu s') = 0"
    "cycles (cpu s') \<noteq> 0" "no_exec_next l' = bit u 7"
proof -
  obtain s0 l0 where top: "loop_top (s, l) = (s0, l0)" by fastforce
  obtain s1 s2 l2 where poll: "poll_devices w s0 = Some s1" and nxt: "next_instruction (s1, l0) = Some (s2, l2, u)"
    using assms(2) top by (auto simp: instruction_def split: bind_splits)
  have "\<not> is_nop u" using assms(3) by (simp add: plain_jump_def is_nop_def)
  then obtain a s3 m where src: "m_source (ir_field u 26 0x3F) (m_src_value l2) s2 = Some (s3, m)"
    and s': "s' = s3\<lparr>cpu := (cpu s3)\<lparr>u_pc := ir_field u 12 0x3FFF\<rparr>\<rparr>" "no_exec_next l' = (no_exec_next l2 \<or> bit u 7)"
    using assms(1,3) top poll nxt
    by (auto simp: step_def exec_plain_jump finish_def split: bind_splits)
  show "u_pc (cpu s') = ir_field u 12 0x3FFF" "oa_reg_lo_set (cpu s') = 0" "oa_reg_hi_set (cpu s') = 0"
    "cycles (cpu s') \<noteq> 0" "no_exec_next l' = bit u 7"
    using m_source_frame [OF src] next_instruction_frame [OF nxt] s' by simp_all
qed


text \<open>A machine past its first cycle, out of the PROM, about to execute a jump to 0x123.\<close>

definition jump_example :: "machine \<times> locals" where
  "jump_example = ((machine_start (\<lambda>a i. 0))\<lparr>prom_enabled_flag := False,
      cpu := (cpu (machine_start (\<lambda>a i. 0)))\<lparr>cycles := 1, ucode := (\<lambda>i. 7)(0x123 := 9)\<rparr>\<rparr>,
    \<lparr>p1 = 0x80000123027, p0_pc = 0, p1_pc = 0, no_exec_next = False, m_src_value = 0, at_next = True\<rparr>)"

lemma poll_quiet:
  "cycles (cpu s) AND 0xFFFF \<noteq> 0 \<Longrightarrow> disk_interrupt_delay (disk s) = 0 \<Longrightarrow> poll_devices w s = Some s"
  by (simp add: poll_devices_def disk_poll_def Let_def)

lemma step_plain_jump_runs:
  assumes "poll_devices w s = Some s" and "at_next l" "\<not> no_exec_next l" and "\<not> prom_enabled_flag s"
    and "unat (u_pc (cpu s)) < 16384" and "oa_reg_lo_set (cpu s) = 0" "oa_reg_hi_set (cpu s) = 0"
    and "plain_jump (p1 l)" and "unat (ir_field (p1 l) 26 0x3F) < 32"
  shows "instruction w (s, l) = Some (p1 l)"
    "\<exists>s' l'. step w (s, l) = Some (s', l') \<and> \<not> prom_enabled_flag s' \<and> disk s' = disk s \<and> 
       ucode (cpu s') = ucode (cpu s) \<and> p1 l' = ucode (cpu s) (unat (u_pc (cpu s))) \<and>
       cycles (cpu s') = (if cycles (cpu s) + 1 = 0 then 1 else cycles (cpu s) + 1)"
proof -
  have nxt: "\<exists>s2 l2. next_instruction (s, l\<lparr>at_next := False\<rparr>) = Some (s2, l2, p1 l) \<and>
      \<not> prom_enabled_flag s2 \<and> disk s2 = disk s \<and> ucode (cpu s2) = ucode (cpu s) \<and>
      p1 l2 = ucode (cpu s) (unat (u_pc (cpu s))) \<and>
      cycles (cpu s2) = (if cycles (cpu s) + 1 = 0 then 1 else cycles (cpu s) + 1)"
    using assms(3-7)
    by (simp add: next_instruction_def advance_pipe_def fetch_def step_new_md_def merge_oa_def Let_def count_cycle_def)
  show "instruction w (s, l) = Some (p1 l)"
    using nxt assms(1,2) by (auto simp: instruction_def loop_top_def)
  have "ir_field (p1 l) 26 0x3F AND 0x20 = 0"
    using assms(9) not_bit_small [of "ir_field (p1 l) 26 0x3F" 5 5]
      and_exp_eq_0_iff_not_bit [of "ir_field (p1 l) 26 0x3F" 5] by simp
  moreover have "\<not> is_nop (p1 l)" using assms(8) by (simp add: plain_jump_def is_nop_def)
  ultimately show "\<exists>s' l'. step w (s, l) = Some (s', l') \<and> \<not> prom_enabled_flag s' \<and> disk s' = disk s \<and>
       ucode (cpu s') = ucode (cpu s) \<and> p1 l' = ucode (cpu s) (unat (u_pc (cpu s))) \<and>
       cycles (cpu s') = (if cycles (cpu s) + 1 = 0 then 1 else cycles (cpu s) + 1)"
    using nxt assms(1,2,8,9) ir_field_bounds [of "p1 l" 32]
    by (auto simp: step_def loop_top_def exec_plain_jump finish_def m_source_def read_m_mem_def read_a_mem_def)
qed


subsection \<open>Delayed memory data\<close>



subsection \<open>HALT\<close>

lemma run_loop_append: "run_loop (xs @ ys) sl = Option.bind (run_loop xs sl) (run_loop ys)"
proof (induction xs arbitrary: sl)
  case Nil
  then show ?case by simp
next
  case (Cons x xs)
  have stopped: "run_loop ys sl = Some sl" if "\<not> keeps_running sl" for ys sl
    using that by (cases ys) simp_all
  show ?case by (simp add: Cons.IH stopped Option.bind_assoc)
qed

lemma next_instruction_at_next: "next_instruction (s, l) = Some (s', l', u) \<Longrightarrow> at_next l' = at_next l"
  by (auto simp: next_instruction_def advance_pipe_def Let_def split: if_splits bind_splits prod.splits)

text \<open>HALT with an M operand from M memory and no POPJ.\<close>

definition halt :: "u64 \<Rightarrow> bool" where
  "halt u \<longleftrightarrow> ir_field u 43 3 = 1 \<and> ir_field u 10 3 = 1 \<and> \<not> bit u 42 \<and> unat (ir_field u 26 0x3F) < 32"

lemma step_halt:
  assumes "instruction w sl = Some u" and "halt u"
  shows "\<exists>sl'. step w sl = Some sl' \<and> \<not> keeps_running sl'"
proof -
  obtain s0 l0 where top: "loop_top sl = (s0, l0)" by fastforce
  then have "\<not> at_next l0" by (auto simp: loop_top_def split: if_splits prod.splits)
  obtain s1 s2 l2 where poll: "poll_devices w s0 = Some s1" and nxt: "next_instruction (s1, l0) = Some (s2, l2, u)"
    using assms(1) top by (auto simp: instruction_def split: bind_splits)
  have "ir_field u 26 0x3F AND 0x20 = 0"
    using assms(2) not_bit_small [of "ir_field u 26 0x3F" 5 5]
      and_exp_eq_0_iff_not_bit [of "ir_field u 26 0x3F" 5] by (simp add: halt_def)
  then show ?thesis
    using assms(2) top poll nxt ir_field_bounds [of u 32] \<open>\<not> at_next l0\<close> next_instruction_at_next [OF nxt]
    by (auto simp: step_def halt_def is_nop_def execute_def exec_jump_def plain_def finish_def keeps_running_def
        m_source_def read_m_mem_def read_a_mem_def)
qed


text \<open>A machine past its first cycle whose PROM begins with HALT: the first trip executes the empty pipeline.\<close>

definition halt_example :: machine where
  "halt_example = (machine_start (\<lambda>a i. 0))\<lparr>
     cpu := (cpu (machine_start (\<lambda>a i. 0)))\<lparr>prom_ucode := (\<lambda>i. 0x80000000400), cycles := 1\<rparr>\<rparr>"

lemma step_empty_pipeline:
  assumes "poll_devices w s = Some s" and "\<not> at_next l" "\<not> no_exec_next l" and "fetch s = Some x"
    and "oa_reg_lo_set (cpu s) = 0" "oa_reg_hi_set (cpu s) = 0" and "p1 l = 0" "cycles (cpu s) = 1"
    and "new_md_delay (cpu s) = 0"
  shows "\<exists>l'. step w (s, l) = Some (s\<lparr>cpu := (cpu s)\<lparr>u_pc := u_pc (cpu s) + 1, cycles := 2, oa_reg_lo_set := 0,
      oa_reg_hi_set := 0\<rparr>\<rparr>, l') \<and> p1 l' = x \<and> at_next l' \<and> \<not> no_exec_next l'"
  using assms
  by (simp add: step_def loop_top_def next_instruction_def advance_pipe_def step_new_md_def merge_oa_def Let_def
      count_cycle_def ir_field_def read_a_mem_def m_source_def read_m_mem_def is_nop_def)


subsection \<open>Division as a micro-program\<close>

text \<open>
  \<open>exec_program w d a us s\<close>: the ALU instructions \<open>us\<close> in sequence, all with M source \<open>d\<close> and
  the same A operand.
\<close>

primrec exec_program :: "world \<Rightarrow> u32 \<Rightarrow> u32 \<Rightarrow> u64 list \<Rightarrow> machine \<Rightarrow> machine option" where
  "exec_program w d a [] s = Some s"
| "exec_program w d a (u # us) s = do {
     m \<leftarrow> read_m_mem d s;
     r \<leftarrow> exec_alu w u m a s;
     exec_program w d a us (after r)
   }"

text \<open>The instruction words, with M destination \<open>d\<close>.\<close>

definition to_m :: "u32 \<Rightarrow> u64 \<Rightarrow> u64" where
  "to_m d u = u OR push_bit 14 (ucast d)"

definition divide_program :: "u32 \<Rightarrow> u64 list" where
  "divide_program d = map (to_m d) ([0x3149] @ replicate 31 0x3109 @ [0x1109, 0x1128])"

lemma bit_ir_field: "bit (ir_field u p m) i \<longleftrightarrow> i < 32 \<and> bit u (p + i) \<and> bit m i"
  by (auto simp: ir_field_def bit_simps add.commute dest: bit_imp_le_length)

lemma bit_to_m:
  assumes "unat d < 32" and "unat u < 2 ^ 14"
  shows "bit (to_m d u) n = (if n < 14 then bit u n else bit d (n - 14))"
proof (cases "n < 14")
  case True
  then show ?thesis by (simp only: to_m_def bit_or_iff bit_push_bit_iff) simp
next
  case False
  have d: "bit d k \<Longrightarrow> k < 5" for k using not_bit_small [of d 5 k] assms(1) by (cases "k < 5") auto
  have "\<not> bit u n" using not_bit_small [of u 14 n] assms(2) False by simp
  with False show ?thesis
    by (simp only: to_m_def bit_or_iff bit_push_bit_iff bit_unsigned_iff) (auto dest: d)
qed

lemma to_m_fields:
  assumes "unat d < 32" and "unat u < 2 ^ 14"
  shows "ir_field (to_m d u) 14 (mask 12) = d" "p + k \<le> 14 \<Longrightarrow> ir_field (to_m d u) p (mask k) = ir_field u p (mask k)"
proof -
  have d: "bit d k \<Longrightarrow> k < 5" for k using not_bit_small [of d 5 k] assms(1) by (cases "k < 5") auto
  show "ir_field (to_m d u) 14 (mask 12) = d"
    by (rule bit_word_eqI) (auto simp: bit_ir_field bit_to_m [OF assms] bit_mask_iff dest: d)
  show "p + k \<le> 14 \<Longrightarrow> ir_field (to_m d u) p (mask k) = ir_field u p (mask k)"
    by (rule bit_word_eqI) (auto simp: bit_ir_field bit_to_m [OF assms] bit_mask_iff)
qed

lemmas to_m_numerals = to_m_fields(1) to_m_fields(2) [of _ _ 12 2] to_m_fields(2) [of _ _ 3 6]
  to_m_fields(2) [of _ _ 2 1] to_m_fields(2) [of _ _ 0 2]

text \<open>The M register, Q and the ALU output, as an ALU instruction sees them.\<close>

definition alu_view :: "u32 \<Rightarrow> machine \<Rightarrow> u32 \<times> u32 \<times> u32" where
  "alu_view d s = (m_memory (cpu s) (unat d), q (cpu s), alu_out (cpu s))"

lemma exec_alu_view:
  assumes "unat d < 32" and "unat u < 2 ^ 14" and "ir_field u 2 1 = 0" and "ir_field u 12 3 \<noteq> 0"
  shows "\<exists>s'. exec_alu w (to_m d u) (m_memory (cpu s) (unat d)) a s = Some (plain s') \<and>
    alu_view d s' = alu_instruction (ir_field u 3 0x3F) (ir_field u 12 3) u a (alu_view d s)"
proof -
  have mask_num': "mask 12 = (0xFFF :: u32)" "mask 2 = (3 :: u32)" "mask 6 = (0x3F :: u32)" "mask 1 = (1 :: u32)"
    by (simp_all add: mask_eq_exp_minus_1)
  note f = to_m_numerals [OF assms(1,2), unfolded mask_num', simplified]
  have "unat (d AND mask 5) = unat d" using assms(1) by (simp only: unat_and_mask) simp
  moreover have "\<not> bit d 11" using not_bit_small [of d 5 11] assms(1) by simp
  ultimately have d: "d AND 0x800 = 0" "drop_bit 5 d = 0" "d AND 0x1F = d"
    using assms(1) and_exp_eq_0_iff_not_bit [of d 11] 
    by (simp_all add: word_unat_eq_iff unat_drop_bit mask_num)
  show ?thesis
    using assms f d
    by (simp add: exec_alu_def Let_def split_beta write_dest_def write_functional_dest_def write_m_mem_def
        alu_view_def alu_instruction_def output_bus_def q_control_def plain_def)
qed

lemma exec_program_view:
  assumes "unat d < 32"
  shows "\<forall>u \<in> set us. unat u < 2 ^ 14 \<and> ir_field u 2 1 = 0 \<and> ir_field u 12 3 \<noteq> 0 \<Longrightarrow>
    \<exists>s'. exec_program w d a (map (to_m d) us) s = Some s' \<and>
      alu_view d s' = fold (\<lambda>u. alu_instruction (ir_field u 3 0x3F) (ir_field u 12 3) u a) us (alu_view d s)"
proof (induction us arbitrary: s)
  case Nil
  then show ?case by simp
next
  case (Cons u us)
  then obtain s1 where s1: "exec_alu w (to_m d u) (m_memory (cpu s) (unat d)) a s = Some (plain s1)"
    "alu_view d s1 = alu_instruction (ir_field u 3 0x3F) (ir_field u 12 3) u a (alu_view d s)"
    using exec_alu_view [OF assms, of u w s a] by auto
  then show ?case
    using Cons.IH [of s1] Cons.prems assms by (simp add: read_m_mem_def plain_def)
qed

lemma alu_instruction_cong:
  "sel \<noteq> 0 \<Longrightarrow> ir_field u 0 3 = ir_field u' 0 3 \<Longrightarrow> alu_instruction op sel u a = alu_instruction op sel u' a"
  by (auto simp: alu_instruction_def output_bus_def q_control_def fun_eq_iff Let_def)

text \<open>
  C6. The division micro-program: 34 ALU instructions executed on an M register \<open>d\<close> leave in
  Q the quotient and in the register the remainder of the 64-bit dividend (register, Q) by
  the A operand, when that is positive and larger than the register (so that the quotient
  fits Q).
\<close>

theorem divide_program_divides:
  assumes "unat d < 32" and "0 < sint a" and "uint (m_memory (cpu s) (unat d)) < sint a"
  shows "\<exists>s'. exec_program w d a (divide_program d) s = Some s' \<and>
    uint (q (cpu s')) = (uint (m_memory (cpu s) (unat d)) * 2 ^ 32 + uint (q (cpu s))) div sint a \<and>
    uint (m_memory (cpu s') (unat d)) = (uint (m_memory (cpu s) (unat d)) * 2 ^ 32 + uint (q (cpu s))) mod sint a"
proof -
  let ?us = "[0x3149] @ replicate 31 0x3109 @ [0x1109, 0x1128 :: u64]"
  have "fold (\<lambda>u. alu_instruction (ir_field u 3 0x3F) (ir_field u 12 3) u a) ?us (alu_view d s)
      = divide a (alu_view d s)"
    by (simp add: divide_def divide_steps_def fold_replicate ir_field_def
        alu_instruction_cong [of 3 "0x3149" 1] alu_instruction_cong [of 3 "0x3109" 1]
        alu_instruction_cong [of 1 "0x1109" 1] alu_instruction_cong [of 1 "0x1128" 0])
  moreover have "\<forall>u \<in> set ?us. unat u < 2 ^ 14 \<and> ir_field u 2 1 = 0 \<and> ir_field u 12 3 \<noteq> 0"
    by (simp add: ir_field_def)
  ultimately obtain s' where s': "exec_program w d a (divide_program d) s = Some s'"
    "alu_view d s' = divide a (alu_view d s)"
    using exec_program_view [OF assms(1), of ?us w a s] by (auto simp: divide_program_def)
  from s'(2) have "divide a (m_memory (cpu s) (unat d), q (cpu s), alu_out (cpu s))
      = (m_memory (cpu s') (unat d), q (cpu s'), alu_out (cpu s'))" by (simp add: alu_view_def)
  with s'(1) show ?thesis
    using divide_correct [OF assms(2,3), of "q (cpu s)" "alu_out (cpu s)"] by simp
qed

lemma divide_program_divides_witness:
  "\<exists>s s'. exec_program quiet_world 5 7 (divide_program 5) s = Some s' \<and> uint (q (cpu s')) = 1840700284 \<and>
     uint (m_memory (cpu s') 5) = 1"
  using divide_program_divides [of 5 7 "(machine_start (\<lambda>a i. 0))\<lparr>cpu :=
      (cpu (machine_start (\<lambda>a i. 0)))\<lparr>m_memory := (\<lambda>i. 3), q := 101\<rparr>\<rparr>" quiet_world]
  by fastforce

end
