(* ===== verification/Usim_System.thy ===== *)
theory Usim_System
  imports Usim_Virtual Usim_Window Usim_Datapath
begin

section \<open>Devices seen by a program\<close>

text \<open>
  What a program on the processor sees of the devices when it goes through \<open>read_mem\<close> and \<open>write_mem\<close>: the
  disk fills pages of virtual memory, a key pressed at the window and a packet from the network arrive as an interrupt and
  as what loads from the registers return.
\<close>

subsection \<open>The registers of the disk\<close>

text \<open>Stores one after the other; \<open>None\<close> if one of them faults.\<close>

primrec store_all :: "world \<Rightarrow> (u32 \<times> u32) list \<Rightarrow> machine \<Rightarrow> machine option" where
  "store_all w [] s = Some s"
| "store_all w (x # xs) s = do {
     (s1, r) \<leftarrow> write_mem w (fst x) (snd x) s;
     if r = 0 then store_all w xs s1 else None
   }"

text \<open>The four stores that start a disk command: command, command list, disk address, start.\<close>

definition disk_program :: "u32 \<Rightarrow> u32 \<Rightarrow> u32 \<Rightarrow> (u32 \<times> u32) list" where
  "disk_program cmd clp da = [(0xFDFFFC, cmd), (0xFDFFFD, clp), (0xFDFFFE, da), (0xFDFFFF, 0)]"

definition disk_register :: "u32 \<Rightarrow> bool" where
  "disk_register a \<longleftrightarrow> a \<in> {0xFDFFFC, 0xFDFFFD, 0xFDFFFE, 0xFDFFFF}"

lemma write_device_disk:
  "disk_register a \<Longrightarrow> write_device w a 0x3DFF (a AND 0xFF) v s =
    map_option (\<lambda>(d, m, i). Some (s\<lparr>disk := d, mem := m, intr := i\<rparr>)) (disk_xbus_write (a AND 0xFF) v (disk s) (mem s) (intr s))"
  unfolding disk_register_def insert_iff empty_iff simp_thms
  by (elim disjE; simp add: write_device_def map_option_case; simp split: option.splits)

lemma map_vtop_disk: "disk_register a \<Longrightarrow> map_vtop a m = Some (m, 0xC03DFF, None, a AND 0xFF)"
  by (auto simp: disk_register_def map_vtop_def Let_def)

lemma write_mem_disk:
  "disk_register a \<Longrightarrow> write_mem w a v s = map_option (\<lambda>(d, m, i). ((clear_faults s)\<lparr>disk := d, mem := m, intr := i\<rparr>, 0))
    (disk_xbus_write (a AND 0xFF) v (disk s) (mem s) (intr s))"
  by (cases "disk_xbus_write (a AND 0xFF) v (disk s) (mem s) (intr s)")
    (auto simp: write_mem_def map_vtop_disk write_device_disk clear_faults_def ld_def)

subsection \<open>The map stays\<close>

definition same_map :: "mem \<Rightarrow> mem \<Rightarrow> bool" where
  "same_map m m' \<longleftrightarrow> l1_map m' = l1_map m \<and> l2_map m' = l2_map m"

lemma same_map_trans: "same_map m m1 \<Longrightarrow> same_map m1 m2 \<Longrightarrow> same_map m m2"
  by (simp add: same_map_def)

lemma phys_page_map: "phys_page p m = Some (m', a) \<Longrightarrow> same_map m m'"
  by (auto simp: phys_page_def add_new_page_no_def same_map_def Let_def dest!: new_page_frame split: if_splits option.splits bind_splits prod.splits)

lemma read_phy_mem_map: "read_phy_mem p m = Some (m', r) \<Longrightarrow> same_map m m'"
  by (auto simp: read_phy_mem_def dest!: phys_page_map split: option.splits bind_splits)

lemma write_phy_mem_map: "write_phy_mem p v m = Some (m', r) \<Longrightarrow> same_map m m'"
  by (auto simp: write_phy_mem_def page_st_def same_map_def dest!: phys_page_map split: option.splits bind_splits)

lemma write_words_map: "write_words write_phy_mem p xs m = Some m' \<Longrightarrow> same_map m m'"
  by (induction xs arbitrary: p m) (auto simp: same_map_def dest!: write_phy_mem_map split: bind_splits)

lemma write_at_map: "write_at p xs m = Some m' \<Longrightarrow> same_map m m'"
  by (induction xs arbitrary: m) (auto simp: same_map_def dest!: write_phy_mem_map split: bind_splits)

lemma read_transfer_map: "read_transfer p d m = Some (d', m') \<Longrightarrow> same_map m m'"
  by (auto simp: read_transfer_def disk_read_block_def dest!: write_words_map write_at_map split: bind_splits if_splits)
    (simp_all add: same_map_def)

lemma ccw_loop_map: "ccw_loop read_transfer n d m = Some (d', m', b) \<Longrightarrow> same_map m m'"
proof -
  assume *: "ccw_loop read_transfer n d m = Some (d', m', b)"
  show ?thesis
    by (rule ccw_loop_keeps [of "same_map m" read_transfer, OF _ _ *])
      (auto simp: same_map_def dest: read_phy_mem_map [unfolded same_map_def] read_transfer_map [unfolded same_map_def])
qed

lemma disk_start_read_map: "disk_start_read d m = Some (d', m') \<Longrightarrow> same_map m m'"
  by (auto simp: disk_start_read_def ccw_finish_def Let_def dest!: ccw_loop_map split: if_splits bind_splits prod.splits)

subsection \<open>A disk read, from the stores to the loads\<close>

lemma store_disk_program:
  assumes "cmd AND 0x3FF = 0"
    and "disk_start_read ((disk s)\<lparr>disk_cmd := cmd, disk_clp := clp, disk_da := da\<rparr>) (mem s) = Some (d, m)"
  shows "store_all w (disk_program cmd clp da) s = Some ((clear_faults s)\<lparr>disk := d, mem := m,
    intr := if cmd AND 0xC00 = 0 then deassert_xbus_interrupt (intr s) else intr s\<rparr>)"
  using assms
  by (cases s) (simp add: disk_program_def write_mem_disk disk_register_def disk_xbus_write_def disk_start_def clear_faults_def Let_def)

lemma page_base: "p AND 0xFF = 0 \<Longrightarrow> (x :: u32) AND NOT 0xFF = p \<longleftrightarrow> x = p + (x AND 0xFF)"
proof -
  have "x = (x AND NOT 0xFF) + (x AND 0xFF)"
    by (simp add: disjunctive_add_eq_or and.assoc and.left_commute flip: bit.conj_disj_distrib)
  then show ?thesis by (metis add_right_cancel)
qed

lemma ram_page_low: "ram_page p \<Longrightarrow> p AND 0xFF = 0"
  using unat_and_mask [of p 8] by (simp add: ram_page_def mask_eq_exp_minus_1 word_unat_eq_iff)

lemma physical_low: "physical m va AND 0xFF = va AND 0xFF"
  by (rule bit_word_eqI) (auto simp: physical_def bit_simps mask_num)

lemma page_offset: "ram_page p \<Longrightarrow> x AND NOT 0xFF = p \<Longrightarrow> x = p + of_nat (unat (x AND 0xFF))"
  unfolding of_nat_unat ucast_id by (rule iffD1 [OF page_base [OF ram_page_low]])

lemma in_page_words:
  assumes "ram_page p"
  shows "x \<in> page_words p \<longleftrightarrow> x AND NOT 0xFF = p"
proof -
  have "(p + of_nat i) AND NOT 0xFF = p" if "i < 256" for i
  proof -
    have "unat (p + of_nat i) mod 256 = i"
      using ram_page_word(1) [OF assms that] assms that by (simp add: ram_page_def mod_add_left_eq [symmetric])
    then have "unat ((p + of_nat i) AND 0xFF) = i" using unat_and_mask [of "p + of_nat i" 8] by (simp add: mask_eq_exp_minus_1)
    then have "(p + of_nat i) AND 0xFF = of_nat i" by (metis of_nat_unat ucast_id)
    then show ?thesis using page_base [OF ram_page_low [OF assms], of "p + of_nat i"] by simp
  qed
  moreover have "unat (x AND 0xFF) < 256" using unat_and_mask [of x 8] by (simp add: mask_eq_exp_minus_1)
  ultimately show ?thesis using page_offset [OF assms, of x] by (auto simp: page_words_def simp del: of_nat_unat)
qed

text \<open>A load through the map, after the memory has changed but the map has not.\<close>

lemma load_word:
  assumes "mapped_to_ram (mem s) vb" and "readable (mem s) vb" and "same_map (mem s) (mem s')"
    and "phys_word (mem s') (physical (mem s) vb) = Some v"
  shows "\<exists>s2. read_mem w vb pv s' = Some (s2, v, 0)"
proof -
  have pw: "page_word (mem s') vb = page_word (mem s) vb"
    using assms(3) by (intro page_word_cong) (simp_all add: same_map_def)
  then have "physical (mem s') vb = physical (mem s) vb" by (simp add: physical_def)
  then have "mapped_to_ram (mem s') vb" "readable (mem s') vb"
    using assms pw phys_word_mapped [of "mem s'" vb]
    by (cases "phy_pages (mem s') (unat (page_word (mem s) vb AND 0x3FFF))"; auto simp: mapped_to_ram_def readable_def)+
  then show ?thesis using read_mem_ram [of s' vb v w pv] assms(4) \<open>physical (mem s') vb = physical (mem s) vb\<close> by auto
qed

text \<open>
  C1. The disk as a program sees it: four stores into its registers make the pages that the command list names hold the blocks from the
  one addressed on, counted across tracks and cylinders. A load through the map from one of these pages gives the word of
  its block, a load from anywhere else in RAM what it gave before; if the command asks for it, the Xbus interrupt is raised 2500 polls later.
\<close>

theorem disk_read_through_bus:
  assumes "cmd AND 0x3FF = 0"
    and "d = disk_decode_addr ((disk s)\<lparr>disk_cmd := cmd, disk_clp := clp, disk_da := da\<rparr>)"
    and "chain_ready d (mem s) ps"
  shows "\<exists>s'. store_all w (disk_program cmd clp da) s = Some s' \<and>
    (\<forall>va v pv w'. mapped_to_ram (mem s) va \<longrightarrow> readable (mem s) va \<longrightarrow> phys_word (mem s) (physical (mem s) va) = Some v \<longrightarrow>
      (physical (mem s) va AND NOT 0xFF \<notin> set ps \<longrightarrow> (\<exists>s2. read_mem w' va pv s' = Some (s2, v, 0))) \<and>
      (\<forall>j < length ps. physical (mem s) va AND NOT 0xFF = ps ! j \<longrightarrow>
        (\<exists>s2. read_mem w' va pv s' = Some (s2, disk_mm (disk s) (256 * (linear_block d + j) + unat (va AND 0xFF)), 0)))) \<and>
    (cmd AND 0x800 \<noteq> 0 \<longrightarrow>
      (\<forall>n. snd (disk_polls n (disk s', intr s')) = (if n < 2500 then intr s else assert_xbus_interrupt (intr s))))"
proof -
  let ?d = "(disk s)\<lparr>disk_cmd := cmd, disk_clp := clp, disk_da := da\<rparr>"
  obtain d' m' where run: "disk_start_read ?d (mem s) = Some (d', m')"
    and held: "\<forall>j < length ps. page_holds m' (ps ! j) (block_words ?d (linear_block d + j))"
    and kept: "keeps_words (\<Union>p \<in> set ps. page_words p) (mem s) m'"
    and delay: "disk_interrupt_delay d' = (if cmd AND 0x800 \<noteq> 0 then 2500 else disk_interrupt_delay ?d)"
    using disk_read_fills_pages [OF assms(3) [unfolded assms(2)]] by (auto simp: assms(2))
  have pages: "ram_page p" if "p \<in> set ps" for p
    using assms(3) that ccw_chain_pages by (auto simp: chain_ready_def)
  have map: "same_map (mem s) m'" by (rule disk_start_read_map [OF run])
  define i where "i = (if cmd AND 0xC00 = 0 then deassert_xbus_interrupt (intr s) else intr s)"
  define s' where "s' = (clear_faults s)\<lparr>disk := d', mem := m', intr := i\<rparr>"
  have st: "store_all w (disk_program cmd clp da) s = Some s'"
    using store_disk_program [OF assms(1) run] by (simp add: s'_def i_def)
  have load: "\<exists>s2. read_mem w' va pv s' = Some (s2, v, 0)"
    if "mapped_to_ram (mem s) va" "readable (mem s) va" "phys_word m' (physical (mem s) va) = Some v" for va v pv w'
    using load_word [of s va s' v w' pv] that map by (simp add: s'_def)
  have other: "phys_word m' x = Some v" if "x AND NOT 0xFF \<notin> set ps" "phys_word (mem s) x = Some v" for x v
    using kept that pages in_page_words by (auto simp: keeps_words_def)
  have inside: "phys_word m' (physical (mem s) va) = Some (disk_mm (disk s) (256 * (linear_block d + j) + unat (va AND 0xFF)))"
    if "j < length ps" "physical (mem s) va AND NOT 0xFF = ps ! j" for va j
  proof -
    have off: "unat (va AND 0xFF) < 256" using unat_and_mask [of va 8] by (simp add: mask_eq_exp_minus_1)
    have "physical (mem s) va = ps ! j + of_nat (unat (va AND 0xFF))"
      using page_offset [OF pages [OF nth_mem [OF that(1)]] that(2)] by (simp only: physical_low)
    then show ?thesis
      using held that(1) off by (simp add: page_holds_def) (simp add: block_words_def)
  qed
  have irq: "snd (disk_polls n (disk s', intr s')) = (if n < 2500 then intr s else assert_xbus_interrupt (intr s))"
    if "cmd AND 0x800 \<noteq> 0" for n
  proof -
    have "cmd AND 0xC00 \<noteq> 0"
    proof
      assume "cmd AND 0xC00 = 0"
      then have "(cmd AND 0xC00) AND 0x800 = 0" by simp
      then show False using that by (simp add: and.assoc)
    qed
    moreover have "d' = disk_future_interrupt d'" using delay that by (simp add: disk_future_interrupt_def)
    ultimately show ?thesis using disk_interrupt_after_delay [of n d' "intr s"] by (simp add: s'_def i_def)
  qed
  show ?thesis using st load other inside irq by blast
qed

text \<open>A machine on which the command applies: virtual page 1 is mapped to the page that the command list names.\<close>

definition disk_example :: machine where
  "disk_example = (machine_start (\<lambda>a i. 0))\<lparr>disk := small_disk, mem := small_mem\<lparr>l2_map := (\<lambda>i. 0)(1 := 0x800001)\<rparr>\<rparr>"

lemma ccw_chain_same: "phys_word m' = phys_word m \<Longrightarrow> ccw_chain m' clp ps = ccw_chain m clp ps"
  by (induction ps arbitrary: clp) simp_all

lemma chain_ready_same:
  "phys_word m' = phys_word m \<Longrightarrow> mem_inv m' = mem_inv m \<Longrightarrow> chain_ready d m' ps = chain_ready d m ps"
  unfolding chain_ready_def by (simp only: ccw_chain_same [of m' m])

lemma disk_read_through_bus_witness:
  "\<exists>s'. store_all quiet_world (disk_program 0x800 0 0x101) disk_example = Some s' \<and>
     (\<exists>s2. read_mem quiet_world 0x107 0 s' = Some (s2, 1287, 0)) \<and>
     snd (disk_polls 2500 (disk s', intr s')) = assert_xbus_interrupt (intr disk_example)"
proof -
  let ?s = disk_example and ?d = "disk_decode_addr small_disk"
  have d: "(disk ?s)\<lparr>disk_cmd := 0x800, disk_clp := 0, disk_da := 0x101\<rparr> = small_disk"
    by (simp add: disk_example_def small_disk_def)
  have w: "phys_word (mem ?s) = phys_word small_mem"
    by (simp add: fun_eq_iff phys_word_def disk_example_def)
  have "mem_inv (mem ?s) = mem_inv small_mem"
    by (rule mem_inv_cong) (simp_all add: disk_example_def)
  then have "chain_ready ?d (mem ?s) [0x100]"
    using small_chain_ready chain_ready_same [OF w] by blast
  then obtain s' where s': "store_all quiet_world (disk_program 0x800 0 0x101) ?s = Some s'"
    "\<forall>j < length [0x100 :: u32]. physical (mem ?s) 0x107 AND NOT 0xFF = [0x100] ! j \<longrightarrow>
        (\<exists>s2. read_mem quiet_world 0x107 0 s' = Some (s2, disk_mm (disk ?s) (256 * (linear_block ?d + j) + unat (0x107 AND 0xFF :: u32)), 0))"
    "\<forall>n. snd (disk_polls n (disk s', intr s')) = (if n < 2500 then intr ?s else assert_xbus_interrupt (intr ?s))"
    if "mapped_to_ram (mem ?s) 0x107" "readable (mem ?s) 0x107" "phys_word (mem ?s) (physical (mem ?s) 0x107) = Some 7"
    using disk_read_through_bus [of "0x800" ?d "0x101" 0 ?s "[0x100]" quiet_world] d that by fastforce
  have pw: "page_word (mem ?s) 0x107 = 0x800001"
    by (simp add: page_word_def l2_slot_def l1_entry_def disk_example_def small_mem_def mem_start_def)
  have ph: "physical (mem ?s) 0x107 = 0x107" by (simp add: physical_def pw)
  have "mapped_to_ram (mem ?s) 0x107" "readable (mem ?s) 0x107"
    by (simp_all add: mapped_to_ram_def readable_def pw unmapped_area_def) (simp add: disk_example_def small_mem_def)
  moreover have "phys_word (mem ?s) (physical (mem ?s) 0x107) = Some 7"
    unfolding ph w by (simp add: phys_word_def small_mem_def mem_start_def)
  ultimately show ?thesis
    using s' by (simp add: ph small_linear) (simp add: disk_example_def small_disk_def)
qed

subsection \<open>A key, from the window to the loads\<close>

text \<open>A page of registers, mapped for reading.\<close>

definition maps_register :: "mem \<Rightarrow> u32 \<Rightarrow> u32 \<Rightarrow> u32 \<Rightarrow> bool" where
  "maps_register m va pn off \<longleftrightarrow> \<not> unmapped_area va \<and> readable m va \<and> page_word m va AND 0x3FFF = pn \<and> va AND 0xFF = off"

lemma read_mem_register:
  assumes "maps_register (mem s) va 0x3FF4 off"
    and "iob_unibus_read (now w) (push_bit 1 off) (iob s) (intr s) = Some (b, i, v)"
  shows "\<exists>s'. read_mem w va pv s = Some (s', v, 0) \<and> iob s' = b \<and> intr s' = i \<and> same_map (mem s) (mem s')"
proof -
  obtain m' where tr: "map_vtop va (mem s) = Some (m', page_word (mem s) va, Some (l1_entry (mem s) va), off)"
    using translate [of va "mem s"] assms(1) by (auto simp: maps_register_def)
  note fr = map_vtop_frame [OF tr]
  show ?thesis
    using assms tr by (simp add: read_mem_def maps_register_def readable_def read_device_def phys_ram_pages_def Let_def
        ld_def clear_faults_def same_map_def fr)
qed

lemma maps_register_cong: "same_map m m' \<Longrightarrow> maps_register m' = maps_register m"
proof -
  assume "same_map m m'"
  then have "page_word m' = page_word m" using page_word_cong by (simp add: same_map_def fun_eq_iff)
  then show ?thesis by (simp add: fun_eq_iff maps_register_def readable_def)
qed

lemma key_press:
  assumes "\<not> unread k" and "kbd_enabled k" and "lm_code (key_extra sh) ks (okb_to_scancode k) = Some (code, newkbd)"
  shows "process_key sh ks True k i = (k\<lparr>kbd_key_scan := (if newkbd then 0x10000 else 0xFFFF0000) OR code OR
       (if key_extra sh AND 0x4400 \<noteq> 0 then key_extra sh else key_extra sh AND NOT 0xC0),
     iob_csr := iob_csr k OR 0x20\<rparr>, assert_unibus_interrupt 0xB0 i)"
proof -
  have fold: "(0x10000 OR 0xFFFF0000) = (0xFFFF0000 :: u32)" by simp
  have ab: "code OR (e AND NOT 0xC0) OR e = code OR e" for e
    by (rule bit_word_eqI) (auto simp: bit_simps)
  show ?thesis
    using assms by (simp add: process_key_def kbd_key_event_def Let_def unread_def kbd_enabled_def csr_masks ac_simps)
qed

text \<open>The code and the modifiers fit in the low half of the scan register.\<close>

definition half :: "u32 \<Rightarrow> bool" where
  "half v \<longleftrightarrow> v AND 0xFFFF = v"

lemma half_bits: "half v \<longleftrightarrow> (\<forall>n. bit v n \<longrightarrow> n < 16)"
proof
  assume "half v"
  then have "v = v AND mask 16" by (simp add: half_def mask_num)
  then show "\<forall>n. bit v n \<longrightarrow> n < 16" by (metis bit_and_iff bit_mask_iff)
next
  assume "\<forall>n. bit v n \<longrightarrow> n < 16"
  then show "half v" unfolding half_def mask_num by (intro bit_word_eqI) (auto simp: bit_simps)
qed

lemma half_or: "half a \<Longrightarrow> half b \<Longrightarrow> half (a OR b)"
  by (simp add: half_def bit.conj_disj_distrib2)

lemma half_and: "half a \<Longrightarrow> half (a AND b)"
  by (simp add: half_bits bit_simps)

lemma half_xor: "half a \<Longrightarrow> half b \<Longrightarrow> half (a XOR b)"
  by (simp add: half_def bit.conj_xor_distrib2)

lemma half_if: "half a \<Longrightarrow> half b \<Longrightarrow> half (if c then a else b)"
  by simp

lemma key_extra_half: "half (key_extra sh)"
  unfolding key_extra_def Let_def by (intro half_if half_or half_xor) (simp_all add: half_def)

lemma lm_code_half: "lm_code e ks t = Some (code, newkbd) \<Longrightarrow> half code"
proof -
  have "half (ucast (x :: u16))" for x by (auto simp: half_bits bit_simps dest: bit_imp_le_length)
  then show "lm_code e ks t = Some (code, newkbd) \<Longrightarrow> half code"
    by (cases ks) (auto simp: half_def split: if_splits)
qed

lemma halves:
  assumes "half v"
  shows "((if newkbd then 0x10000 else 0xFFFF0000) OR v) AND 0xFFFF = v"
    "drop_bit 16 ((if newkbd then 0x10000 else 0xFFFF0000) OR v) AND 0xFFFF = (if newkbd then 1 else 0xFFFF)"
proof -
  show "((if newkbd then 0x10000 else 0xFFFF0000) OR v) AND 0xFFFF = v"
    using assms by (simp add: half_def bit.conj_disj_distrib2)
  have "drop_bit 16 v = 0"
    using assms by (intro bit_word_eqI) (auto simp: half_bits bit_simps)
  then show "drop_bit 16 ((if newkbd then 0x10000 else 0xFFFF0000) OR v) AND 0xFFFF = (if newkbd then 1 else 0xFFFF)"
    by (simp add: drop_bit_or)
qed

text \<open>
  C35. A key pressed at the window, with nothing waiting: the next poll of the window makes the processor see an interrupt with the
  vector of the keyboard (the jump condition on pending interrupts holds), and loads of the two
  halves of the scan register give the code of the key with its modifiers and which keyboard it is of; they mark it read.
\<close>

theorem key_reaches_program:
  fixes s w sh
  defines "k \<equiv> kbd (iob s)" and "mods \<equiv> (if key_extra sh AND 0x4400 \<noteq> 0 then key_extra sh else key_extra sh AND NOT 0xC0)"
  assumes "ximage w" and "xevents w = [KeyPress sh ks]" and "lm_code (key_extra sh) ks (okb_to_scancode k) = Some (code, newkbd)"
    and "\<not> unread k" and "queue_items k = []" and "kbd_enabled k" and "unibus_enabled (intr s)"
    and "maps_register (mem s) lo 0x3FF4 0x20" and "maps_register (mem s) hi 0x3FF4 0x21"
  shows "\<exists>s1. tv_poll w s = Some s1 \<and> interrupt_status_reg (intr s1) AND 0x3FC = 0xB0 \<and>
    (\<forall>u t m a. bit u 5 \<longrightarrow> ir_field u 0 0xF = 5 \<longrightarrow> fst (jump_condition u t m a (page_fault_flag (cpu s1)) 1
       (interrupt_pending_flag (intr s1)) (sequence_break_flag (cpu s1))) \<noteq> 0) \<and>
    (\<forall>w1 w2 pv1 pv2. \<exists>s2 s3. read_mem w1 hi pv1 s1 = Some (s2, if newkbd then 1 else 0xFFFF, 0) \<and>
       read_mem w2 lo pv2 s2 = Some (s3, code OR mods, 0) \<and> \<not> unread (kbd (iob s3)))"
proof -
  obtain t r where t: "send_accumulated_updates True (tv s) = (t, r)" by fastforce
  have free: "\<not> key_queue_free k < 10" using assms(7) by (simp add: queue_items_Nil)
  define v where "v = (if newkbd then 0x10000 else 0xFFFF0000) OR (code OR mods)"
  define k1 where "k1 = k\<lparr>kbd_key_scan := v, iob_csr := iob_csr k OR 0x20\<rparr>"
  define i1 where "i1 = assert_unibus_interrupt 0xB0 (intr s)"
  define s1 where "s1 = s\<lparr>tv := t, iob := (iob s)\<lparr>kbd := k1\<rparr>, intr := i1\<rparr>"
  have "half (code OR mods)"
    using half_and [OF key_extra_half] key_extra_half lm_code_half [OF assms(5)] by (simp add: mods_def half_or)
  note v = halves [OF this, of newkbd, folded v_def]
  have "dequeue_key_event k (intr s) = (k, intr s)"
    using free by (simp add: dequeue_key_event_def KEY_QUEUE_LEN_def)
  then have poll: "tv_poll w s = Some s1"
    using assms(3,4) key_press [OF assms(6,8,5)] t
    by (simp add: tv_poll_def x11_event_def x11_handle_def s1_def k1_def i1_def v_def mods_def or.assoc flip: k_def)
  have pend: "interrupt_pending_flag i1 = 1"
    using assms(9) by (simp add: i1_def intr_defs bit_simps)
  have vec: "interrupt_status_reg i1 AND 0x3FC = 0xB0"
    using assert_unibus_vector [OF assms(9), of "0xB0"] by (simp add: i1_def)
  have jump: "fst (jump_condition u t m a pf 1 1 sb) \<noteq> 0" if "bit u 5" "ir_field u 0 0xF = 5" for u t m a pf sb
  proof -
    have "bit (ucast (pf OR 1) :: u8) 0" by (simp add: bit_simps)
    then have "(ucast (pf OR 1) :: u8) \<noteq> 0" by auto
    then show ?thesis using that by (simp add: jump_condition_def)
  qed
  have hi: "\<exists>s2. read_mem w1 hi pv1 s1 = Some (s2, if newkbd then 1 else 0xFFFF, 0) \<and>
      kbd (iob s2) = k1\<lparr>iob_csr := iob_csr k1 AND NOT 0x20\<rparr> \<and> same_map (mem s1) (mem s2)" for w1 pv1
    using read_mem_register [of s1 hi "0x21" w1] assms(11) v
    by (fastforce simp: iob_unibus_read_def s1_def k1_def clear_csr_bits_def)
  have lo: "\<exists>s3. read_mem w2 lo pv2 s2 = Some (s3, code OR mods, 0) \<and> \<not> unread (kbd (iob s3))"
    if "same_map (mem s1) (mem s2)" "kbd (iob s2) = k1\<lparr>iob_csr := iob_csr k1 AND NOT 0x20\<rparr>" for w2 pv2 s2
    using read_mem_register [of s2 lo "0x20" w2] assms(10) maps_register_cong [OF that(1)] that(2) v
    by (fastforce simp: iob_unibus_read_def s1_def k1_def clear_csr_bits_def unread_def csr_bits_neg)
  have reads: "\<exists>s2 s3. read_mem w1 hi pv1 s1 = Some (s2, if newkbd then 1 else 0xFFFF, 0) \<and>
       read_mem w2 lo pv2 s2 = Some (s3, code OR mods, 0) \<and> \<not> unread (kbd (iob s3))" for w1 w2 pv1 pv2
    using hi [of w1 pv1] lo [of _ w2 pv2] by blast
  have "interrupt_pending_flag (intr s1) = 1" "interrupt_status_reg (intr s1) AND 0x3FC = 0xB0"
    using pend vec by (simp_all add: s1_def)
  then show ?thesis
    using poll jump reads by (intro exI [of _ s1]) simp
qed

lemma key_reaches_program_witness:
  "\<exists>s s1 s2 s3. tv_poll (quiet_world\<lparr>ximage := True, xevents := [KeyPress 4 XK_Return]\<rparr>) s = Some s1 \<and>
     read_mem quiet_world 0x121 0 s1 = Some (s2, 0xFFFF, 0) \<and> read_mem quiet_world 0x120 0 s2 = Some (s3, 0xC32, 0)"
proof -
  let ?s = "(machine_start (\<lambda>a i. 0))\<lparr>intr := \<lparr>interrupt_status_reg = 0x400, interrupt_pending_flag = 0\<rparr>,
    iob := (iob (machine_start (\<lambda>a i. 0)))\<lparr>kbd := idle_kbd\<rparr>, mem := (mem_start (\<lambda>a i. 0))\<lparr>l2_map := (\<lambda>i. 0)(1 := 0x803FF4)\<rparr>\<rparr>"
  have "page_word (mem ?s) a = 0x803FF4" if "a \<in> {0x120, 0x121}" for a
    using that by (auto simp: page_word_def l2_slot_def l1_entry_def mem_start_def)
  then have m: "maps_register (mem ?s) 0x120 0x3FF4 0x20" "maps_register (mem ?s) 0x121 0x3FF4 0x21"
    by (simp_all add: maps_register_def unmapped_area_def readable_def)
  have k: "\<not> unread idle_kbd" "queue_items idle_kbd = []" "kbd_enabled idle_kbd"
    using idle_settled by (auto simp: pending_def settled_def split: if_splits)
  have e: "key_extra 4 = 0xC00" by (simp add: key_extra_def)
  show ?thesis
    using key_reaches_program [of "quiet_world\<lparr>ximage := True, xevents := [KeyPress 4 XK_Return]\<rparr>" 4 XK_Return ?s "0x32" False "0x120" "0x121"]
      m k by (simp add: e unibus_enabled_def) blast
qed

subsection \<open>A packet, from the server to the loads\<close>

text \<open>Loads from the same address; \<open>None\<close> if one of them faults.\<close>

primrec load_again :: "world \<Rightarrow> u32 \<Rightarrow> nat \<Rightarrow> machine \<Rightarrow> (machine \<times> u32 list) option" where
  "load_again w va 0 s = Some (s, [])"
| "load_again w va (Suc n) s = do {
     (s1, v, r) \<leftarrow> read_mem w va 0 s;
     if r = 0 then do { (s2, vs) \<leftarrow> load_again w va n s1; Some (s2, v # vs) } else None
   }"

lemma load_again_chaos:
  assumes "maps_register (mem s) va 0x3FF4 0x32" and "get_words n (chaos (iob s)) = Some (c, vs)"
  shows "\<exists>s'. load_again w va n s = Some (s', vs) \<and> chaos (iob s') = c \<and> same_map (mem s) (mem s')"
  using assms
proof (induction n arbitrary: s vs)
  case 0
  then show ?case by (simp add: same_map_def)
next
  case (Suc n)
  obtain c1 v vs1 where c1: "chaos_get_rcv_buffer (chaos (iob s)) = Some (c1, v)" "get_words n c1 = Some (c, vs1)" "vs = v # vs1"
    using Suc.prems(2) by (auto split: bind_splits)
  have "iob_unibus_read (now w) (push_bit 1 0x32) (iob s) (intr s) = Some ((iob s)\<lparr>chaos := c1\<rparr>, intr s, v)"
    by (simp add: iob_unibus_read_def c1(1))
  then obtain s1 where s1: "read_mem w va 0 s = Some (s1, v, 0)" "iob s1 = (iob s)\<lparr>chaos := c1\<rparr>" "same_map (mem s) (mem s1)"
    using read_mem_register [OF Suc.prems(1), of w] by blast
  then have "maps_register (mem s1) va 0x3FF4 0x32" using maps_register_cong Suc.prems(1) by metis
  then obtain s' where "load_again w va n s1 = Some (s', vs1)" "chaos (iob s') = c" "same_map (mem s1) (mem s')"
    using Suc.IH [of s1 vs1] c1(2) s1(2) by auto
  then show ?case using s1 c1(3) same_map_trans by auto
qed

lemma u16_from_bytes: "push_bit 8 (ucast (ucast (drop_bit 8 w) :: u8)) OR ucast (ucast w :: u8) = (w :: u16)"
  by (rule bit_word_eqI) (auto simp: bit_simps)

lemma two_digits:
  assumes "k < 0x10000"
  shows "unat (of_nat (k div 256) :: u8) * 256 + unat (of_nat (k mod 256) :: u8) = k"
proof -
  have "k div 256 < 256" using assms by simp
  then have "unat (of_nat (k div 256) :: u8) = k div 256" "unat (of_nat (k mod 256) :: u8) = k mod 256"
    by (simp_all add: unsigned_of_nat take_bit_nat_eq_self)
  then show ?thesis by simp
qed

lemma overlay_words:
  assumes "i < length ws"
  shows "overlay_bytes (concat (map u16_bytes ws)) b i = ws ! i"
proof -
  let ?bs = "concat (map u16_bytes ws)"
  have two: "\<forall>x \<in> set (map u16_bytes ws). length x = 2" by (simp add: u16_bytes_def)
  have len: "length ?bs = 2 * length ws" using length_concat_chunks [OF two] by simp
  have pair: "take 2 (drop (2 * i) ?bs) = [ucast (ws ! i), ucast (drop_bit 8 (ws ! i))]"
    using chunk_concat [OF two, of i "[]"] assms by (simp add: u16_bytes_def)
  have "?bs ! (2 * i + k) = take 2 (drop (2 * i) ?bs) ! k" if "k < 2" for k
    using that len assms by simp
  from this [of 0] this [of 1] have "?bs ! (2 * i) = ucast (ws ! i)" "?bs ! (2 * i + 1) = ucast (drop_bit 8 (ws ! i))"
    unfolding pair by simp_all
  then show ?thesis using len assms u16_from_bytes [of "ws ! i"] by (simp add: overlay_bytes_def)
qed

lemma chaos_rx_words:
  assumes "3 \<le> length ws" and "length ws \<le> 4096" and "ucast (ws ! (length ws - 3)) = chaos_addr c"
  shows "\<exists>c'. chaos_rx_data (concat (map u16_bytes ws)) c i = Some (chaos_rx_pkt c' i) \<and>
    chaos_csr c' = chaos_csr c \<and> unat (chaos_rcv_buffer_size c') = length ws \<and> (\<forall>j < length ws. chaos_rcv_buffer c' j = ws ! j)"
proof -
  let ?bs = "concat (map u16_bytes ws)" and ?n = "length ws"
  have len: "length ?bs = 2 * ?n" using length_concat_chunks [of "map u16_bytes ws" 2] by (simp add: u16_bytes_def)
  then have ne: "?bs \<noteq> []" using assms(1) by (intro notI) (simp only: list.size)
  define m where "m = (of_nat (length ?bs) + 1 :: u32) div 2"
  have m: "unat m = ?n" using received_words [of ?bs] len assms(2) by (simp add: m_def)
  then have "unat (m - 3) = ?n - 3" using unat_minus_small [of 3 m] assms(1) by simp
  then show ?thesis
    using assms ne overlay_words [of _ ws] m
    by (intro exI [of _ "c\<lparr>chaos_rcv_buffer := overlay_bytes ?bs (chaos_rcv_buffer c), chaos_rcv_buffer_size := m, chaos_rcv_buffer_empty := 0\<rparr>"])
      (simp add: chaos_rx_data_def CHAOS_BUF_WORDS_def m_def Let_def)
qed

text \<open>
  C29. A packet as a program sees it: when the server's socket holds a header and the packet it
  announces, addressed to this node, the next poll of the network leaves an interrupt with the
  network's vector pending and the receive-done bit in the control register, and as many loads
  from the read-buffer register, through the map, as the packet has words return exactly those words in order.
\<close>

theorem packet_reaches_program:
  fixes s w ws
  defines "c \<equiv> chaos (iob s)"
  assumes "chaos_need_reconnect c = 0" and "chaos_fd c \<noteq> 0" and "chaos_rcv_buffer_empty c \<noteq> 0" and "bit (chaos_csr c) 4" and "unibus_enabled (intr s)"
    and "0 < poll_ret (sock w)" and "header_bytes (sock w) = Some [of_nat (2 * length ws div 256), of_nat (2 * length ws mod 256), 1, 0]"
    and "data_bytes (sock w) = Some (concat (map u16_bytes ws))"
    and "3 \<le> length ws" and "length ws \<le> 4096" and "ucast (ws ! (length ws - 3)) = chaos_addr c"
    and "maps_register (mem s) va 0x3FF4 0x32"
  shows "\<exists>c1 i1. chaos_poll (sock w) c (intr s) = Some (c1, i1, 0) \<and> interrupt_pending_flag i1 = 1 \<and>
    interrupt_status_reg i1 AND 0x3FC = 0xB8 \<and> bit (chaos_csr c1) 15 \<and>
    (\<exists>s2. load_again w' va (length ws) (s\<lparr>iob := (iob s)\<lparr>chaos := c1\<rparr>, intr := i1\<rparr>) = Some (s2, map ucast ws))"
proof -
  let ?n = "length ws" and ?bs = "concat (map u16_bytes ws)"
  obtain c' where c': "chaos_rx_data ?bs c (intr s) = Some (chaos_rx_pkt c' (intr s))" "chaos_csr c' = chaos_csr c"
    "unat (chaos_rcv_buffer_size c') = ?n" "\<forall>j < ?n. chaos_rcv_buffer c' j = ws ! j"
    using chaos_rx_words [OF assms(10-12)] by blast
  obtain c1 i1 where r: "chaos_rx_pkt c' (intr s) = (c1, i1)" by fastforce
  have pos: "0 < sint (chaos_rcv_buffer_size c')"
  proof -
    have "sint (chaos_rcv_buffer_size c') = int ?n" using sint_small [of "chaos_rcv_buffer_size c'"] c'(3) assms(11) by simp
    then show ?thesis using assms(10) by linarith
  qed
  note f = chaos_rx_pkt_fields [OF pos, of "intr s", unfolded r fst_conv]
  have "chaos_csr c' AND 0x10 \<noteq> 0" using assms(5) and_exp_eq_0_iff_not_bit [of "chaos_csr c" 4] by (simp add: c'(2))
  then have "i1 = assert_unibus_interrupt 0xB8 (intr s)"
    using r pos by (auto simp: chaos_rx_pkt_def Let_def bit.conj_disj_distrib2)
  then have irq: "interrupt_pending_flag i1 = 1" "interrupt_status_reg i1 AND 0x3FC = 0xB8"
    using assms(6) assert_unibus_vector [OF assms(6), of "0xB8"] by (simp_all add: intr_defs bit_simps)
  have len: "length ?bs = 2 * ?n" using length_concat_chunks [of "map u16_bytes ws" 2] by (simp add: u16_bytes_def)
  have hdr: "unat (of_nat (2 * ?n div 256) :: u8) * 256 + unat (of_nat (2 * ?n mod 256) :: u8) = 2 * ?n"
    using assms(11) by (intro two_digits) simp
  have poll: "chaos_poll (sock w) c (intr s) = Some (c1, i1, 0)"
    using assms(2-4,7-9,11) c'(1) r len hdr by (simp add: chaos_poll_def)
  let ?s1 = "s\<lparr>iob := (iob s)\<lparr>chaos := c1\<rparr>, intr := i1\<rparr>"
  have "\<exists>c2. get_words ?n c1 = Some (c2, map (\<lambda>i. ucast (chaos_rcv_buffer c1 i)) [0..<?n])"
    using get_words_ok [of c1 ?n] f(2,3) c'(3) assms(11) by simp
  moreover have "map (\<lambda>i. ucast (chaos_rcv_buffer c1 i)) [0..<?n] = map ucast ws"
    using c'(4) f(1) by (intro nth_equalityI) simp_all
  ultimately have "\<exists>s2. load_again w' va ?n ?s1 = Some (s2, map ucast ws)"
    using load_again_chaos [of ?s1 va ?n] assms(13) by fastforce
  then show ?thesis using poll irq f(4) by blast
qed

lemma packet_reaches_program_witness:
  "\<exists>s (w :: world) c1 i1 s2. chaos_poll (sock w) (chaos (iob s)) (intr s) = Some (c1, i1, 0) \<and>
     load_again quiet_world 0x132 3 (s\<lparr>iob := (iob s)\<lparr>chaos := c1\<rparr>, intr := i1\<rparr>) = Some (s2, [0x101, 5, 6])"
proof -
  define ws where "ws = ([0x101, 5, 6] :: u16 list)"
  define s where "s = (machine_start (\<lambda>a i. 0))\<lparr>intr := \<lparr>interrupt_status_reg = 0x400, interrupt_pending_flag = 0\<rparr>,
    iob := (iob (machine_start (\<lambda>a i. 0)))\<lparr>chaos := fresh_chaos\<lparr>chaos_csr := 0x10, chaos_fd := 4\<rparr>\<rparr>,
    mem := (mem_start (\<lambda>a i. 0))\<lparr>l2_map := (\<lambda>i. 0)(1 := 0x803FF4)\<rparr>\<rparr>"
  define w where "w = quiet_world\<lparr>sock := (sock quiet_world)\<lparr>poll_ret := 1, header_bytes := Some [0, 6, 1, 0],
     data_bytes := Some (concat (map u16_bytes ws))\<rparr>\<rparr>"
  have "page_word (mem s) 0x132 = 0x803FF4"
    by (simp add: s_def page_word_def l2_slot_def l1_entry_def mem_start_def)
  then have m: "maps_register (mem s) 0x132 0x3FF4 0x32"
    by (simp add: maps_register_def unmapped_area_def readable_def)
  have "bit (0x10 :: u32) 4" using bit_exp_iff [of 4 4, where 'a = u32] by simp
  then have csr: "chaos_need_reconnect (chaos (iob s)) = 0" "chaos_fd (chaos (iob s)) \<noteq> 0" "chaos_rcv_buffer_empty (chaos (iob s)) \<noteq> 0"
    "bit (chaos_csr (chaos (iob s))) 4" "unibus_enabled (intr s)"
    by (simp_all add: s_def fresh_chaos_def unibus_enabled_def)
  have n: "length ws = 3" and v: "map ucast ws = [0x101, 5, 6 :: u32]" by (simp_all add: ws_def)
  have sock: "0 < poll_ret (sock w)" "header_bytes (sock w) = Some [of_nat (2 * length ws div 256), of_nat (2 * length ws mod 256), 1, 0]"
    "data_bytes (sock w) = Some (concat (map u16_bytes ws))" "3 \<le> length ws" "length ws \<le> 4096"
    "ucast (ws ! (length ws - 3)) = chaos_addr (chaos (iob s))"
    by (simp_all add: w_def s_def fresh_chaos_def ws_def)
  obtain c1 i1 s2 where "chaos_poll (sock w) (chaos (iob s)) (intr s) = Some (c1, i1, 0)"
    "load_again quiet_world 0x132 3 (s\<lparr>iob := (iob s)\<lparr>chaos := c1\<rparr>, intr := i1\<rparr>) = Some (s2, [0x101, 5, 6])"
    using packet_reaches_program [OF csr sock m, of quiet_world] unfolding n v by blast
  then show ?thesis by (intro exI conjI)
qed

end
