(* ===== verification/Usim_Bytes.thy ===== *)
theory Usim_Bytes
  imports Usim_Memory
begin

section \<open>Bytes, C strings and files\<close>

text \<open>
  What the tools of the repository share: a buffer of 256 words seen as 1024 bytes
  (little-endian host), C strings, four-character names packed into a word, and files as
  lists of bytes that \<open>lseek\<close>, \<open>read\<close> and \<open>write\<close> work on.
\<close>

type_synonym cstring = "u8 list" \<comment> \<open>the characters before the terminating NUL\<close>

definition cstr :: "string \<Rightarrow> cstring" where
  "cstr s = map of_char s"

subsection \<open>A block of 256 words as bytes\<close>

definition byte_at :: "u32 arr \<Rightarrow> nat \<Rightarrow> u8" where
  "byte_at b i = ucast (drop_bit (8 * (i mod 4)) (b (i div 4)))"

text \<open>\<open>memcpy((char *) b + off, bs, length bs)\<close>, inside the 1024 bytes of the buffer.\<close>

definition put_bytes :: "nat \<Rightarrow> u8 list \<Rightarrow> u32 arr \<Rightarrow> u32 arr option" where
  "put_bytes off bs b =
    (if off + length bs \<le> 1024
     then Some (\<lambda>i. bytes_word (map (\<lambda>k. if off \<le> k \<and> k < off + length bs then bs ! (k - off) else byte_at b k)
                      [4 * i, 4 * i + 1, 4 * i + 2, 4 * i + 3]))
     else None)"

text \<open>The C string at a byte offset of the buffer; \<open>None\<close> if no NUL ends it inside the buffer.\<close>

definition c_string :: "u32 arr \<Rightarrow> nat \<Rightarrow> cstring option" where
  "c_string b off =
    (let bs = map (byte_at b) [off..<1024] in
     if 0 \<in> set bs then Some (takeWhile (\<lambda>c. c \<noteq> 0) bs) else None)"

text \<open>The buffer after \<open>read(fd, buf, 256 * 4)\<close> has read the bytes \<open>bs\<close>.\<close>

definition buffer_of :: "u8 list \<Rightarrow> u32 arr" where
  "buffer_of bs i = bytes_word (take 4 (drop (4 * i) bs))"

subsection \<open>Four characters in a word\<close>

text \<open>A character of a C string, its NUL included; a \<open>char\<close> is signed.\<close>

definition c_char :: "cstring \<Rightarrow> nat \<Rightarrow> u32 option" where
  "c_char s i = (if i < length s then Some (scast (s ! i)) else if i = length s then Some 0 else None)"

definition str4 :: "cstring \<Rightarrow> u32 option" where
  "str4 s = do {
     c3 \<leftarrow> c_char s 3;
     c2 \<leftarrow> c_char s 2;
     c1 \<leftarrow> c_char s 1;
     c0 \<leftarrow> c_char s 0;
     Some (push_bit 24 c3 OR push_bit 16 c2 OR push_bit 8 c1 OR c0)
   }"

text \<open>The four bytes \<open>unstr4\<close> puts before its NUL, and the C string they make.\<close>

definition unstr4 :: "u32 \<Rightarrow> u8 list" where
  "unstr4 s = word_bytes s"

definition strdup :: "u8 list \<Rightarrow> cstring" where
  "strdup bs = takeWhile (\<lambda>c. c \<noteq> 0) bs"

subsection \<open>Blocks of a file\<close>

text \<open>
  \<open>lseek\<close> to byte \<open>off\<close> and \<open>write\<close>; a gap beyond the end reads as zeros. Writing is
  taken to succeed.
\<close>

definition file_write :: "nat \<Rightarrow> u8 list \<Rightarrow> u8 list \<Rightarrow> u8 list" where
  "file_write off bs f = take off (f @ replicate (off - length f) 0) @ bs @ drop (off + length bs) f"

text \<open>
  \<open>read_block\<close> and \<open>write_block\<close> of the tools: \<open>lseek\<close> refuses a negative offset; a short
  read overwrites only the start of the buffer and is an error.
\<close>

definition read_block :: "u8 list \<Rightarrow> u32 \<Rightarrow> u8 list \<Rightarrow> (u8 list \<times> int) option" where
  "read_block f block_no buf = do {
     offset \<leftarrow> c_mul block_no 1024;
     if sint offset < 0 then Some (buf, -1)
     else let got = take 1024 (drop (unat offset) f) in
       Some (got @ drop (length got) buf, if length got = 1024 then 0 else -1)
   }"

definition write_block :: "u32 \<Rightarrow> u8 list \<Rightarrow> u8 list \<Rightarrow> (u8 list \<times> int) option" where
  "write_block block_no buf f = do {
     offset \<leftarrow> c_mul block_no 1024;
     if sint offset < 0 then Some (f, -1) else Some (file_write (unat offset) buf f, 0)
   }"

subsection \<open>Words and bytes\<close>

lemma cstr_simps [simp]: "cstr [] = []" "cstr (c # cs) = of_char c # cstr cs"
  by (simp_all add: cstr_def)

lemma byte_at_4: "k < 4 \<Longrightarrow> byte_at b (4 * i + k) = ucast (drop_bit (8 * k) (b i))"
proof -
  assume "k < 4"
  then have "(4 * i + k) mod 4 = k" "(4 * i + k) div 4 = i" by simp_all
  then show ?thesis by (simp only: byte_at_def)
qed

lemma bytes_of_word: "word_bytes (b i) = map (byte_at b) [4 * i, 4 * i + 1, 4 * i + 2, 4 * i + 3]"
  using byte_at_4 [of 0 b i] byte_at_4 [of 1 b i] byte_at_4 [of 2 b i] byte_at_4 [of 3 b i]
  by (simp add: word_bytes_def)

lemma byte_at_word_bytes: "k < 4 \<Longrightarrow> word_bytes (b i) ! k = byte_at b (4 * i + k)"
proof -
  assume "k < 4"
  then consider "k = 0" | "k = 1" | "k = 2" | "k = 3" by linarith
  then show ?thesis by cases (simp_all add: bytes_of_word numeral_eq_Suc)
qed

lemma word_bytes_bytes_word:
  "length bs = 4 \<Longrightarrow> word_bytes (bytes_word bs) = bs"
proof -
  assume "length bs = 4"
  then obtain a b c d where bs: "bs = [a, b, c, d]"
    by (auto simp: numeral_eq_Suc length_Suc_conv)
  have "ucast (bytes_word bs) = a" "ucast (drop_bit 8 (bytes_word bs)) = b"
    "ucast (drop_bit 16 (bytes_word bs)) = c" "ucast (drop_bit 24 (bytes_word bs)) = d"
    by (rule bit_word_eqI; simp add: bs bytes_word_def bit_simps; auto dest: bit_imp_le_length)+
  then show ?thesis by (simp add: word_bytes_def bs)
qed

lemma byte_at_put_bytes:
  assumes "put_bytes off bs b = Some b'"
  shows "byte_at b' k = (if off \<le> k \<and> k < off + length bs then bs ! (k - off) else byte_at b k)"
proof -
  let ?v = "\<lambda>k. if off \<le> k \<and> k < off + length bs then bs ! (k - off) else byte_at b k"
  let ?i = "k div 4"
  have "byte_at b' k = byte_at b' (4 * ?i + k mod 4)" by simp
  also have "\<dots> = word_bytes (b' ?i) ! (k mod 4)" by (simp add: byte_at_word_bytes)
  also have "\<dots> = map ?v [4 * ?i, 4 * ?i + 1, 4 * ?i + 2, 4 * ?i + 3] ! (k mod 4)"
    using assms by (auto simp: put_bytes_def word_bytes_bytes_word split: if_splits)
  also have "\<dots> = ?v (4 * ?i + k mod 4)"
  proof -
    have "k mod 4 < 4" by simp
    then consider "k mod 4 = 0" | "k mod 4 = 1" | "k mod 4 = 2" | "k mod 4 = 3" by linarith
    then show ?thesis by cases (simp_all del: mult_div_mod_eq)
  qed
  finally show ?thesis by simp
qed

lemma put_bytes_Some: "off + length bs \<le> 1024 \<Longrightarrow> \<exists>b'. put_bytes off bs b = Some b'"
  by (simp add: put_bytes_def)

lemma word_of_byte_at: "b i = bytes_word (map (byte_at b) [4 * i, 4 * i + 1, 4 * i + 2, 4 * i + 3])"
  using bytes_word_word_bytes [of "b i"] by (simp only: bytes_of_word)

lemma put_bytes_word:
  assumes "put_bytes off bs b = Some b'" and "4 * i + 3 < off \<or> off + length bs \<le> 4 * i"
  shows "b' i = b i"
  using assms byte_at_put_bytes [OF assms(1)] by (subst (1 2) word_of_byte_at) auto

lemma buffer_of_page_bytes: "i < 256 \<Longrightarrow> buffer_of (page_bytes b @ rest) i = b i"
proof -
  assume i: "i < 256"
  have "take 4 (drop (4 * i) (page_bytes b @ rest)) = word_bytes (b i)"
    using chunk_concat [of "map (\<lambda>i. word_bytes (b i)) [0..<256]" 4 i rest] i
    by (auto simp: page_bytes_def)
  then show ?thesis by (simp add: buffer_of_def)
qed

lemma byte_at_buffer_of: "i < 1024 \<Longrightarrow> byte_at (buffer_of (page_bytes b @ rest)) i = byte_at b i"
  by (simp add: byte_at_def buffer_of_page_bytes)

subsection \<open>Names of four ASCII characters\<close>

definition ascii :: "cstring \<Rightarrow> bool" where
  "ascii s \<longleftrightarrow> (\<forall>c \<in> set s. 0 < c \<and> c < 0x80)"

lemma scast_ascii: "c < 0x80 \<Longrightarrow> scast (c :: u8) = (ucast c :: u32)"
proof (rule bit_word_eqI)
  fix n :: nat
  assume "c < 0x80" "n < LENGTH(32)"
  then have "unat c < 2 ^ 7" by (simp add: word_less_nat_alt)
  then have "\<not> bit c 7" "\<And>k. 7 \<le> k \<Longrightarrow> \<not> bit c k" using not_bit_small [of c 7] by simp_all
  then show "bit (scast c :: u32) n = bit (ucast c :: u32) n"
    using \<open>n < LENGTH(32)\<close> by (auto simp: bit_signed_iff bit_unsigned_iff min_def)
qed

lemma str4_ascii:
  assumes "ascii s" and "length s = 4"
  shows "str4 s = Some (bytes_word s)"
proof -
  have "s ! k < 0x80" if "k < 4" for k using assms that by (auto simp: ascii_def)
  then have "c_char s k = Some (ucast (s ! k))" if "k < 4" for k
    using that assms(2) by (simp add: c_char_def scast_ascii)
  then show ?thesis by (simp add: str4_def bytes_word_def or.commute or.left_commute)
qed

lemma unstr4_str4: "ascii s \<Longrightarrow> length s = 4 \<Longrightarrow> unstr4 (bytes_word s) = s"
  by (simp add: unstr4_def word_bytes_bytes_word)

lemma strdup_ascii: "ascii s \<Longrightarrow> strdup s = s"
  by (auto simp: strdup_def ascii_def takeWhile_eq_all_conv)

lemma c_string_ascii:
  assumes "ascii s" and "\<And>k. k < length s \<Longrightarrow> byte_at b (off + k) = s ! k"
    and "byte_at b (off + length s) = 0" and "off + length s < 1024"
  shows "c_string b off = Some s"
proof -
  have "[off..<1024] = [off..<off + length s] @ (off + length s) # [Suc (off + length s)..<1024]"
    using assms(4) upt_add_eq_append [of off "off + length s" "1024 - (off + length s)"]
    by (simp add: upt_conv_Cons)
  moreover have "map (byte_at b) [off..<off + length s] = s"
    using assms(2) by (intro nth_equalityI) simp_all
  ultimately have "map (byte_at b) [off..<1024] = s @ 0 # map (byte_at b) [Suc (off + length s)..<1024]"
    using assms(3) by simp
  moreover have "takeWhile (\<lambda>c. c \<noteq> 0) (s @ 0 # xs) = s" for xs
    using assms(1) by (subst takeWhile_append2) (auto simp: ascii_def)
  ultimately show ?thesis by (simp add: c_string_def)
qed

lemma c_string_bytes:
  assumes "c_string b off = Some s"
  shows "i < length s \<Longrightarrow> byte_at b (off + i) = s ! i" "byte_at b (off + length s) = 0"
proof -
  let ?l = "map (byte_at b) [off..<1024]"
  have s: "s = takeWhile (\<lambda>c. c \<noteq> 0) ?l" "0 \<in> set ?l"
    using assms by (simp_all add: c_string_def Let_def split: if_splits)
  have len: "length s < length ?l"
  proof (rule ccontr)
    assume "\<not> length s < length ?l"
    then have "s = ?l" unfolding s(1) by (metis length_takeWhile_le takeWhile_eq_take take_all not_less)
    then have "takeWhile (\<lambda>c. c \<noteq> 0) ?l = ?l" using s(1) by simp
    then show False using s(2) by (simp only: takeWhile_eq_all_conv) blast
  qed
  have "byte_at b (off + length s) = ?l ! length s" using len by simp
  moreover have "?l ! length s = 0" using nth_length_takeWhile [of "\<lambda>c. c \<noteq> 0" ?l] len s(1) by simp
  ultimately show "byte_at b (off + length s) = 0" by simp
  assume i: "i < length s"
  have "s ! i = ?l ! i" using i unfolding s(1) by (rule takeWhile_nth)
  then show "byte_at b (off + i) = s ! i" using i len by simp
qed

lemma bytes_word_inj: "length xs = 4 \<Longrightarrow> length ys = 4 \<Longrightarrow> bytes_word xs = bytes_word ys \<longleftrightarrow> xs = ys"
  by (metis word_bytes_bytes_word)

end
