(* ===== verification/Usim_Pack.thy ===== *)
theory Usim_Pack
  imports Usim_Bytes
begin

section \<open>Disk packs (diskmaker.c)\<close>

text \<open>
  The tool that lays out a disk image: a label block with the geometry and the partition
  table, and the contents of the partitions. \<open>pack\<close> holds its globals; the entries of
  \<open>parts\<close> in use are a list (\<open>part_count\<close> is its length). The host is little-endian
  (\<open>NEED_SWAP\<close> is not defined).
\<close>

definition MAX_PARTITIONS :: nat where
  "MAX_PARTITIONS = 32"

record part_s =
  p_name :: cstring
  p_start :: u32
  p_size :: u32
  p_type :: u32
  p_label :: "u8 list" \<comment> \<open>the 16 characters before the final NUL\<close>
  p_filename :: "cstring option"

record pack =
  dm_cyls :: u32
  dm_heads :: u32
  dm_blocks_per_track :: u32
  mcr_name :: cstring
  lod_name :: cstring
  brand :: "cstring option"
  pack_text :: cstring
  comment :: cstring
  img_filename :: "cstring option"
  parts :: "part_s list"

text \<open>\<open>swapwords\<close> exchanges the two halves of every 32-bit word of a block of 1024 bytes.\<close>

definition half_swap :: "nat \<Rightarrow> nat" where
  "half_swap i = (if i mod 4 < 2 then i + 2 else i - 2)"

definition swapwords :: "u8 list \<Rightarrow> u8 list" where
  "swapwords b = map (\<lambda>i. b ! half_swap i) [0..<1024]"

text \<open>\<open>strncpy\<close> of 16 characters, then the label is padded with spaces.\<close>

definition pad_label :: "cstring \<Rightarrow> u8 list" where
  "pad_label s = take 16 s @ replicate (16 - length s) 0x20"

definition add_partition ::
  "cstring \<Rightarrow> u32 \<Rightarrow> u32 \<Rightarrow> u32 \<Rightarrow> cstring \<Rightarrow> cstring option \<Rightarrow> pack \<Rightarrow> pack \<times> int" where
  "add_partition name start sz ptype label filename k =
    (if length (parts k) + 1 > MAX_PARTITIONS then (k, -1)
     else (k\<lparr>parts := parts k @ [\<lparr>p_name = name, p_start = start, p_size = sz, p_type = ptype,
             p_label = pad_label label, p_filename = filename\<rparr>]\<rparr>, 0))"

subsection \<open>The label\<close>

text \<open>One entry of the partition table, seven words from word \<open>p\<close>.\<close>

definition put_part :: "nat \<Rightarrow> part_s \<Rightarrow> u32 arr \<Rightarrow> u32 arr option" where
  "put_part p x b = do {
     n \<leftarrow> str4 (p_name x);
     b \<leftarrow> st 256 b p n;
     b \<leftarrow> st 256 b (p + 1) (p_start x);
     b \<leftarrow> st 256 b (p + 2) (p_size x);
     l0 \<leftarrow> str4 (p_label x);
     b \<leftarrow> st 256 b (p + 3) l0;
     l1 \<leftarrow> str4 (drop 4 (p_label x));
     b \<leftarrow> st 256 b (p + 4) l1;
     l2 \<leftarrow> str4 (drop 8 (p_label x));
     b \<leftarrow> st 256 b (p + 5) l2;
     l3 \<leftarrow> str4 (drop 12 (p_label x));
     st 256 b (p + 6) l3
   }"

primrec put_parts :: "nat \<Rightarrow> part_s list \<Rightarrow> u32 arr \<Rightarrow> u32 arr option" where
  "put_parts p [] b = Some b"
| "put_parts p (x # xs) b = do { b1 \<leftarrow> put_part p x b; put_parts (p + 7) xs b1 }"

text \<open>The block that \<open>make_labl\<close> writes at the position of the file, the start of the image.\<close>

definition labl_words :: "pack \<Rightarrow> u32 arr option" where
  "labl_words k = do {
     magic \<leftarrow> str4 (cstr ''LABL'');
     hb \<leftarrow> c_mul (dm_heads k) (dm_blocks_per_track k);
     mn \<leftarrow> str4 (mcr_name k);
     ln \<leftarrow> str4 (lod_name k);
     let b = (\<lambda>i. 0)(0 := magic, 1 := 1, 2 := dm_cyls k, 3 := dm_heads k, 4 := dm_blocks_per_track k,
                     5 := hb, 6 := mn, 7 := ln, 0x80 := of_nat (length (parts k)), 0x81 := 7);
     b \<leftarrow> put_parts 0x82 (parts k) b;
     b \<leftarrow> put_bytes 32 (replicate 32 0) b;
     b \<leftarrow> (case brand k of None \<Rightarrow> Some b | Some s \<Rightarrow> put_bytes 32 (s @ [0]) b);
     b \<leftarrow> put_bytes 64 (replicate 32 0x20) b;
     b \<leftarrow> put_bytes 64 (pack_text k @ [0]) b;
     b \<leftarrow> put_bytes 96 (replicate 32 0) b;
     put_bytes 96 (comment k @ [0]) b
   }"

definition make_labl :: "pack \<Rightarrow> u8 list \<Rightarrow> (u8 list \<times> int) option" where
  "make_labl k f = do { b \<leftarrow> labl_words k; Some (file_write 0 (page_bytes b) f, 0) }"

text \<open>
  The part that \<open>show_partition_info\<close>, \<open>extract_partition\<close> and \<open>read_labl\<close> share: check the
  magic and the version, take the geometry and the names, add the partitions. Where the
  first two count entries with an \<open>int\<close>, \<open>read_labl\<close> counts with an \<open>unsigned int\<close>.
\<close>

primrec read_parts :: "nat \<Rightarrow> u32 \<Rightarrow> u32 \<Rightarrow> u32 arr \<Rightarrow> pack \<Rightarrow> pack option" where
  "read_parts 0 p sz b k = Some k"
| "read_parts (Suc n) p sz b k = do {
     l0 \<leftarrow> ld 256 b (unat (p + 3));
     l1 \<leftarrow> ld 256 b (unat (p + 4));
     l2 \<leftarrow> ld 256 b (unat (p + 5));
     l3 \<leftarrow> ld 256 b (unat (p + 6));
     nm \<leftarrow> ld 256 b (unat p);
     start \<leftarrow> ld 256 b (unat (p + 1));
     n_blocks \<leftarrow> ld 256 b (unat (p + 2));
     let label = unstr4 l0 @ unstr4 l1 @ unstr4 l2 @ unstr4 l3;
     let (k1, r) = add_partition (strdup (unstr4 nm)) start n_blocks 0 (strdup label) None k;
     read_parts n (p + sz) sz b k1
   }"

definition signed_count :: "u32 \<Rightarrow> nat" where
  "signed_count c = nat (sint c)"

definition parse_labl :: "(u32 \<Rightarrow> nat) \<Rightarrow> u32 arr \<Rightarrow> pack \<Rightarrow> (pack \<times> int) option" where
  "parse_labl entries b k =
    (if Some (b 0) \<noteq> str4 (cstr ''LABL'') \<or> b 1 \<noteq> 1 then Some (k, -1)
     else do {
       let k1 = k\<lparr>dm_cyls := b 2, dm_heads := b 3, dm_blocks_per_track := b 4,
                  mcr_name := strdup (unstr4 (b 6)), lod_name := strdup (unstr4 (b 7)), parts := []\<rparr>;
       k2 \<leftarrow> read_parts (entries (b 0x80)) 0x82 (b 0x81) b k1;
       br \<leftarrow> c_string b 32;
       tx \<leftarrow> c_string b 64;
       co \<leftarrow> c_string b 96;
       Some (k2\<lparr>brand := Some br, pack_text := tx, comment := co\<rparr>, 0)
     })"

text \<open>\<open>file\<close> is \<open>None\<close> when it cannot be opened.\<close>

definition read_labl :: "u8 list option \<Rightarrow> pack \<Rightarrow> (pack \<times> int) option" where
  "read_labl file k =
    (case file of
       None \<Rightarrow> Some (k, -1)
     | Some f \<Rightarrow> if length f < 1024 then Some (k, -1) else parse_labl unat (buffer_of f) k)"

subsection \<open>A label that is written is read back\<close>

definition good_part :: "part_s \<Rightarrow> bool" where
  "good_part x \<longleftrightarrow> ascii (p_name x) \<and> length (p_name x) = 4 \<and> ascii (p_label x) \<and> length (p_label x) = 16"

text \<open>What fits a label: at most 18 partitions, names of four characters, short texts.\<close>

definition good_pack :: "pack \<Rightarrow> bool" where
  "good_pack k \<longleftrightarrow> length (parts k) \<le> 18 \<and> (\<forall>x \<in> set (parts k). good_part x) \<and>
     ascii (mcr_name k) \<and> length (mcr_name k) = 4 \<and> ascii (lod_name k) \<and> length (lod_name k) = 4 \<and>
     c_mul (dm_heads k) (dm_blocks_per_track k) \<noteq> None \<and>
     (\<forall>s. brand k = Some s \<longrightarrow> ascii s \<and> length s < 32) \<and>
     ascii (pack_text k) \<and> length (pack_text k) < 32 \<and> ascii (comment k) \<and> length (comment k) < 416"

definition part_words :: "part_s \<Rightarrow> u32 list" where
  "part_words x = [bytes_word (p_name x), p_start x, p_size x, bytes_word (take 4 (p_label x)),
     bytes_word (take 4 (drop 4 (p_label x))), bytes_word (take 4 (drop 8 (p_label x))), bytes_word (drop 12 (p_label x))]"

text \<open>What the label does not store is gone.\<close>

definition stored_part :: "part_s \<Rightarrow> part_s" where
  "stored_part x = x\<lparr>p_type := 0, p_filename := None\<rparr>"

definition stored_pack :: "pack \<Rightarrow> pack" where
  "stored_pack k = k\<lparr>brand := Some (case brand k of None \<Rightarrow> [] | Some s \<Rightarrow> s), img_filename := None,
     parts := map stored_part (parts k)\<rparr>"

lemma ascii_take_drop: "ascii s \<Longrightarrow> ascii (take n s)" "ascii s \<Longrightarrow> ascii (drop n s)"
  by (auto simp: ascii_def dest: in_set_takeD in_set_dropD)

lemma str4_take: "4 \<le> length s \<Longrightarrow> str4 (take 4 s) = str4 s"
  by (auto simp: str4_def c_char_def numeral_eq_Suc Suc_le_length_iff)

lemma str4_quarter:
  assumes "ascii s" and "n + 4 \<le> length s"
  shows "str4 (drop n s) = Some (bytes_word (take 4 (drop n s)))"
  using assms str4_ascii [of "take 4 (drop n s)"] by (simp add: ascii_take_drop str4_take)

lemma put_part_ok:
  assumes "good_part x" and "p + 7 \<le> 256"
  shows "put_part p x b = Some (\<lambda>i. if p \<le> i \<and> i < p + 7 then part_words x ! (i - p) else b i)"
proof -
  have s: "str4 (p_name x) = Some (bytes_word (p_name x))" "str4 (p_label x) = Some (bytes_word (take 4 (p_label x)))"
    "str4 (drop 4 (p_label x)) = Some (bytes_word (take 4 (drop 4 (p_label x))))"
    "str4 (drop 8 (p_label x)) = Some (bytes_word (take 4 (drop 8 (p_label x))))"
    "str4 (drop 12 (p_label x)) = Some (bytes_word (drop 12 (p_label x)))"
    using assms(1) str4_quarter [of "p_label x" 0] str4_quarter [of "p_label x" 4]
      str4_quarter [of "p_label x" 8] str4_quarter [of "p_label x" 12]
    by (simp_all add: good_part_def str4_ascii)
  have "i = p \<or> i = p + 1 \<or> i = p + 2 \<or> i = p + 3 \<or> i = p + 4 \<or> i = p + 5 \<or> i = p + 6"
    if "p \<le> i" "i < p + 7" for i using that by linarith
  then show ?thesis
    using assms(2) by (auto simp: put_part_def s part_words_def fun_eq_iff)
qed

lemma put_parts_ok:
  assumes "\<forall>x \<in> set xs. good_part x" and "p + 7 * length xs \<le> 256"
  shows "\<exists>b'. put_parts p xs b = Some b' \<and> (\<forall>i. i < p \<or> p + 7 * length xs \<le> i \<longrightarrow> b' i = b i) \<and>
    (\<forall>j < length xs. \<forall>k < 7. b' (p + 7 * j + k) = part_words (xs ! j) ! k)"
  using assms
proof (induction xs arbitrary: p b)
  case Nil
  then show ?case by simp
next
  case (Cons x xs)
  define b1 where "b1 = (\<lambda>i. if p \<le> i \<and> i < p + 7 then part_words x ! (i - p) else b i)"
  have b1: "put_part p x b = Some b1" using Cons.prems by (simp add: put_part_ok b1_def)
  obtain b' where b': "put_parts (p + 7) xs b1 = Some b'"
    "\<And>i. i < p + 7 \<or> p + (7 + 7 * length xs) \<le> i \<Longrightarrow> b' i = b1 i"
    "\<And>j k. j < length xs \<Longrightarrow> k < 7 \<Longrightarrow> b' (p + (7 + (7 * j + k))) = part_words (xs ! j) ! k"
    using Cons.IH [of "p + 7" b1] Cons.prems by (simp add: add.assoc) blast
  have "b' (p + 7 * j + k) = part_words ((x # xs) ! j) ! k" if "j < length (x # xs)" "k < 7" for j k
    using that b'(2) [of "p + k"] b'(3) [of "j - 1" k] by (cases j) (auto simp: b1_def add.assoc)
  moreover have "b' i = b i" if "i < p \<or> p + 7 * length (x # xs) \<le> i" for i
    using that b'(2) [of i] by (auto simp: b1_def)
  ultimately show ?case using b1 b'(1) by auto
qed

lemma stored_label:
  assumes "good_part x"
  shows "strdup (unstr4 (part_words x ! 0)) = p_name x"
    "unstr4 (part_words x ! 3) @ unstr4 (part_words x ! 4) @ unstr4 (part_words x ! 5) @ unstr4 (part_words x ! 6) = p_label x"
proof -
  have l: "length (p_label x) = 16" "length (p_name x) = 4" "ascii (p_name x)" using assms by (simp_all add: good_part_def)
  show "strdup (unstr4 (part_words x ! 0)) = p_name x"
    using l by (simp add: part_words_def unstr4_str4 strdup_ascii)
  have "take 4 (p_label x) @ take 4 (drop 4 (p_label x)) @ take 4 (drop 8 (p_label x)) @ drop 12 (p_label x) = p_label x"
    using append_take_drop_id [of 4 "p_label x"] append_take_drop_id [of 4 "drop 4 (p_label x)"]
      append_take_drop_id [of 4 "drop 8 (p_label x)"] by simp
  then show "unstr4 (part_words x ! 3) @ unstr4 (part_words x ! 4) @ unstr4 (part_words x ! 5) @ unstr4 (part_words x ! 6)
      = p_label x"
    using l by (simp add: part_words_def unstr4_def word_bytes_bytes_word)
qed

lemma pad_label_full: "length s = 16 \<Longrightarrow> pad_label s = s"
  by (simp add: pad_label_def)

lemma read_parts_ok:
  assumes "\<forall>x \<in> set xs. good_part x" and "p + 7 * length xs \<le> 256" and "length (parts k) + length xs \<le> MAX_PARTITIONS"
    and "\<And>j i. j < length xs \<Longrightarrow> i < 7 \<Longrightarrow> b (p + 7 * j + i) = part_words (xs ! j) ! i"
  shows "read_parts (length xs) (of_nat p) 7 b k = Some (k\<lparr>parts := parts k @ map stored_part xs\<rparr>)"
  using assms
proof (induction xs arbitrary: p k)
  case Nil
  then show ?case by simp
next
  case (Cons x xs)
  have idx: "unat (of_nat p + of_nat i :: u32) = p + i" if "i < 7" for i
    using that Cons.prems(2) unat_of_nat_small [of "p + i"] by simp
  have w: "b (p + i) = part_words x ! i" if "i < 7" for i using Cons.prems(4) [of 0 i] that by simp
  have gx: "good_part x" using Cons.prems(1) by simp
  note lab = stored_label [OF gx]
  have len: "strdup (p_label x) = p_label x" "pad_label (p_label x) = p_label x"
    using gx by (simp_all add: good_part_def strdup_ascii pad_label_full)
  define k1 where "k1 = k\<lparr>parts := parts k @ [stored_part x]\<rparr>"
  have add: "add_partition (p_name x) (p_start x) (p_size x) 0 (p_label x) None k = (k1, 0)"
    using Cons.prems(3) len by (simp add: add_partition_def k1_def stored_part_def)
  have "read_parts (length xs) (of_nat (p + 7)) 7 b k1 = Some (k1\<lparr>parts := parts k1 @ map stored_part xs\<rparr>)"
  proof (rule Cons.IH)
    show "b (p + 7 + 7 * j + i) = part_words (xs ! j) ! i" if "j < length xs" "i < 7" for j i
    proof -
      have "p + 7 + 7 * j + i = p + 7 * Suc j + i" by simp
      then show ?thesis using Cons.prems(4) [of "Suc j" i] that by (simp only: length_Cons nth_Cons_Suc)
    qed
  qed (use Cons.prems in \<open>auto simp: k1_def\<close>)
  moreover have sw: "part_words x ! Suc 0 = p_start x" "part_words x ! 2 = p_size x"
    by (simp_all add: part_words_def)
  moreover have "read_parts (length (x # xs)) (of_nat p) 7 b k = read_parts (length xs) (of_nat p + 7) 7 b k1"
    using idx [of 0] idx [of 1] idx [of 2] idx [of 3] idx [of 4] idx [of 5] idx [of 6]
      w [of 0] w [of 1] w [of 2] w [of 3] w [of 4] w [of 5] w [of 6] Cons.prems(2) lab add len sw
    by simp
  ultimately show ?case by (simp add: k1_def)
qed

text \<open>The texts: what each of them leaves of the block, and what is read back.\<close>

lemma labl_words_ok:
  assumes "good_pack k"
  shows "\<exists>b. labl_words k = Some b \<and> Some (b 0) = str4 (cstr ''LABL'') \<and> b 1 = 1 \<and> b 2 = dm_cyls k \<and>
    b 3 = dm_heads k \<and> b 4 = dm_blocks_per_track k \<and> b 6 = bytes_word (mcr_name k) \<and>
    b 7 = bytes_word (lod_name k) \<and> b 0x80 = of_nat (length (parts k)) \<and> b 0x81 = 7 \<and>
    (\<forall>j < length (parts k). \<forall>i < 7. b (0x82 + 7 * j + i) = part_words (parts k ! j) ! i) \<and>
    c_string b 32 = Some (case brand k of None \<Rightarrow> [] | Some s \<Rightarrow> s) \<and> c_string b 64 = Some (pack_text k) \<and>
    c_string b 96 = Some (comment k)"
proof -
  note g = assms [unfolded good_pack_def]
  obtain magic where magic: "str4 (cstr ''LABL'') = Some magic" by (simp add: str4_def c_char_def)
  obtain hb where hb: "c_mul (dm_heads k) (dm_blocks_per_track k) = Some hb" using g by blast
  have names: "str4 (mcr_name k) = Some (bytes_word (mcr_name k))" "str4 (lod_name k) = Some (bytes_word (lod_name k))"
    using g by (simp_all add: str4_ascii)
  define b0 :: "u32 arr" where "b0 = (\<lambda>i. 0)(0 := magic, 1 := 1, 2 := dm_cyls k, 3 := dm_heads k, 4 := dm_blocks_per_track k,
      5 := hb, 6 := bytes_word (mcr_name k), 7 := bytes_word (lod_name k), 0x80 := of_nat (length (parts k)), 0x81 := 7)"
  obtain b1 where b1: "put_parts 0x82 (parts k) b0 = Some b1"
    "\<forall>i. i < 0x82 \<or> 0x82 + 7 * length (parts k) \<le> i \<longrightarrow> b1 i = b0 i"
    "\<forall>j < length (parts k). \<forall>i < 7. b1 (0x82 + 7 * j + i) = part_words (parts k ! j) ! i"
    using put_parts_ok [of "parts k" "0x82" b0] g by auto
  define br where "br = (case brand k of None \<Rightarrow> [] | Some s \<Rightarrow> s)"
  have br: "ascii br" "length br < 32" using g by (cases "brand k"; auto simp: br_def ascii_def)+
  obtain b2 where b2: "put_bytes 32 (replicate 32 0) b1 = Some b2" using put_bytes_Some [of 32 "replicate 32 0"] by auto
  obtain b3 where b3: "(case brand k of None \<Rightarrow> Some b2 | Some s \<Rightarrow> put_bytes 32 (s @ [0]) b2) = Some b3"
    using g put_bytes_Some [of 32] by (fastforce split: option.splits)
  obtain b4 where b4: "put_bytes 64 (replicate 32 0x20) b3 = Some b4" using put_bytes_Some [of 64 "replicate 32 0x20"] by auto
  obtain b5 where b5: "put_bytes 64 (pack_text k @ [0]) b4 = Some b5"
    using g put_bytes_Some [of 64 "pack_text k @ [0]" b4] by auto
  obtain b6 where b6: "put_bytes 96 (replicate 32 0) b5 = Some b6" using put_bytes_Some [of 96 "replicate 32 0"] by auto
  obtain b7 where b7: "put_bytes 96 (comment k @ [0]) b6 = Some b7"
    using g put_bytes_Some [of 96 "comment k @ [0]" b6] by auto
  have "labl_words k = Some b7"
    using magic hb names b1(1) b2 b3 b4 b5 b6 b7 by (simp add: labl_words_def b0_def Let_def)
  have b3_32: "byte_at b3 (32 + i) = (br @ [0]) ! i" if "i \<le> length br" for i
    using b3 that br byte_at_put_bytes [OF b2, of "32 + i"]
    by (cases "brand k") (auto simp: br_def dest!: byte_at_put_bytes [where k = "32 + i"])
  have b3_word: "b3 i = b1 i" if "i < 8 \<or> 128 \<le> i" for i
    using b3 that g put_bytes_word [OF b2, of i]
    by (cases "brand k") (auto dest!: put_bytes_word [where i = i])
  have word: "b7 i = b1 i" if "i < 8 \<or> 128 \<le> i" for i
    using that g b3_word [OF that] put_bytes_word [OF b4, of i] put_bytes_word [OF b5, of i] put_bytes_word [OF b6, of i]
      put_bytes_word [OF b7, of i] by auto
  have "c_string b7 32 = Some br"
    using br b3_32 byte_at_put_bytes [OF b4] byte_at_put_bytes [OF b5] byte_at_put_bytes [OF b6] byte_at_put_bytes [OF b7] g
    by (intro c_string_ascii) (auto simp: nth_append)
  moreover have "c_string b7 64 = Some (pack_text k)"
    using byte_at_put_bytes [OF b5] byte_at_put_bytes [OF b6] byte_at_put_bytes [OF b7] g
    by (intro c_string_ascii) (auto simp: nth_append)
  moreover have "c_string b7 96 = Some (comment k)"
    using byte_at_put_bytes [OF b7] g by (intro c_string_ascii) (auto simp: nth_append)
  ultimately show ?thesis
    using \<open>labl_words k = Some b7\<close> magic word b1(2,3) by (simp add: b0_def br_def)
qed

lemma length_file_write: "length (file_write off bs f) = max (off + length bs) (length f)"
  by (simp add: file_write_def)

lemma parse_labl_stored:
  assumes "good_pack k" and "labl_words k = Some b" and "entries (of_nat (length (parts k))) = length (parts k)"
  shows "parse_labl entries (buffer_of (page_bytes b @ rest)) k0
    = Some ((stored_pack k)\<lparr>img_filename := img_filename k0\<rparr>, 0)"
proof -
  obtain b: "Some (b 0) = str4 (cstr ''LABL'')" "b 1 = 1" "b 2 = dm_cyls k"
    "b 3 = dm_heads k" "b 4 = dm_blocks_per_track k" "b 6 = bytes_word (mcr_name k)"
    "b 7 = bytes_word (lod_name k)" "b 0x80 = of_nat (length (parts k))" "b 0x81 = 7"
    "\<forall>j < length (parts k). \<forall>i < 7. b (0x82 + 7 * j + i) = part_words (parts k ! j) ! i"
    "c_string b 32 = Some (case brand k of None \<Rightarrow> [] | Some s \<Rightarrow> s)" "c_string b 64 = Some (pack_text k)"
    "c_string b 96 = Some (comment k)"
    using labl_words_ok [OF assms(1)] assms(2) by auto
  let ?b = "buffer_of (page_bytes b @ rest)"
  have w: "?b i = b i" if "i < 256" for i using that by (simp add: buffer_of_page_bytes)
  have s: "c_string ?b off = c_string b off" for off
  proof -
    have "map (byte_at ?b) [off..<1024] = map (byte_at b) [off..<1024]"
      by (rule map_cong) (auto simp: byte_at_buffer_of)
    then show ?thesis by (simp only: c_string_def)
  qed
  note g = assms(1) [unfolded good_pack_def]
  define k1 where "k1 = k0\<lparr>dm_cyls := dm_cyls k, dm_heads := dm_heads k,
    dm_blocks_per_track := dm_blocks_per_track k, mcr_name := mcr_name k, lod_name := lod_name k, parts := []\<rparr>"
  have "read_parts (length (parts k)) (of_nat 0x82) 7 ?b k1 = Some (k1\<lparr>parts := parts k1 @ map stored_part (parts k)\<rparr>)"
    using g by (intro read_parts_ok) (auto simp: k1_def MAX_PARTITIONS_def w b)
  moreover have "strdup (unstr4 (b 6)) = mcr_name k" "strdup (unstr4 (b 7)) = lod_name k"
    using g by (simp_all add: b unstr4_str4 strdup_ascii)
  ultimately have "parse_labl entries ?b k0 = Some (k1\<lparr>parts := map stored_part (parts k),
      brand := Some (case brand k of None \<Rightarrow> [] | Some s \<Rightarrow> s), pack_text := pack_text k, comment := comment k\<rparr>, 0)"
    using assms(3) b(2) by (simp add: parse_labl_def w b s k1_def)
  moreover have "k1\<lparr>parts := map stored_part (parts k),
      brand := Some (case brand k of None \<Rightarrow> [] | Some s \<Rightarrow> s), pack_text := pack_text k, comment := comment k\<rparr>
    = (stored_pack k)\<lparr>img_filename := img_filename k0\<rparr>"
    by (intro pack.equality) (simp_all add: k1_def stored_pack_def)
  ultimately show ?thesis by simp
qed

lemma count_entries:
  assumes "length xs \<le> 18"
  shows "unat (of_nat (length xs) :: u32) = length xs" "signed_count (of_nat (length xs)) = length xs"
proof -
  show u: "unat (of_nat (length xs) :: u32) = length xs" using assms by (intro unat_of_nat_small) simp
  then have "sint (of_nat (length xs) :: u32) = int (unat (of_nat (length xs) :: u32))"
    using assms by (intro sint_eq_unat) simp
  then show "signed_count (of_nat (length xs)) = length xs" by (simp only: signed_count_def u nat_int)
qed

text \<open>
  C19. A label that \<open>make_labl\<close> writes is read back by \<open>read_labl\<close>: geometry, names of the microcode and
  load bands, partition table and texts, for every pack with at most 18 partitions, names of
  four characters and texts that fit. Only the rest of the image is left.
\<close>

theorem labl_roundtrip:
  assumes "good_pack k"
  shows "\<exists>f'. make_labl k f = Some (f', 0) \<and> drop 1024 f' = drop 1024 f \<and>
    read_labl (Some f') k0 = Some ((stored_pack k)\<lparr>img_filename := img_filename k0\<rparr>, 0)"
proof -
  obtain b where b: "labl_words k = Some b" using labl_words_ok [OF assms] by blast
  have "length (parts k) \<le> 18" using assms by (simp add: good_pack_def)
  note parse_labl_stored [OF assms b, of unat "drop 1024 f" k0, OF count_entries(1) [OF this]]
  then show ?thesis by (simp add: make_labl_def b file_write_def read_labl_def)
qed

lemma labl_roundtrip_witness:
  "\<exists>f k k'. make_labl k [] = Some (f, 0) \<and> read_labl (Some f) k = Some (k', 0) \<and> dm_cyls k' = 815 \<and> comment k' = cstr ''c''"
proof -
  define k where "k = \<lparr>dm_cyls = 815, dm_heads = 19, dm_blocks_per_track = 17, mcr_name = cstr ''MCR1'',
     lod_name = cstr ''LOD1'', brand = None, pack_text = [], comment = cstr ''c'', img_filename = None, parts = []\<rparr>"
  let ?k = "(stored_pack k)\<lparr>img_filename := img_filename k\<rparr>"
  have "good_pack k" by (simp add: good_pack_def k_def ascii_def c_mul_def c_int_def)
  then obtain f where "make_labl k [] = Some (f, 0)" "read_labl (Some f) k = Some (?k, 0)"
    using labl_roundtrip [of k "[]" k] by blast
  moreover have "dm_cyls ?k = 815" "comment ?k = cstr ''c''" by (simp_all add: stored_pack_def k_def)
  ultimately show ?thesis by blast
qed

end
