(* ===== verification/Usim_Text.thy ===== *)
theory Usim_Text
  imports Usim_Bytes
begin

section \<open>Text: lines, scanning and printing of the C library\<close>

text \<open>
  The parts of \<open>stdio\<close> that the tools use on strings: \<open>fgets\<close>, the conversions \<open>%s\<close>, \<open>%o\<close>
  and \<open>%[^\n]\<close> of \<open>sscanf\<close>, \<open>atoi\<close>, \<open>strcasecmp\<close>, and \<open>%d\<close> and \<open>%o\<close> of \<open>printf\<close> (in the
  C locale).
\<close>

definition is_space :: "u8 \<Rightarrow> bool" where
  "is_space c \<longleftrightarrow> (9 \<le> c \<and> c \<le> 13) \<or> c = 32"

definition skip_space :: "cstring \<Rightarrow> cstring" where
  "skip_space s = dropWhile is_space s"

definition scan_s :: "cstring \<Rightarrow> (cstring \<times> cstring) option" where
  "scan_s s =
    (let r = skip_space s; t = takeWhile (\<lambda>c. \<not> is_space c) r
     in if t = [] then None else Some (t, drop (length t) r))"

definition digit :: "nat \<Rightarrow> u8 \<Rightarrow> bool" where
  "digit base c \<longleftrightarrow> 48 \<le> c \<and> unat c < 48 + base"

definition digits_value :: "nat \<Rightarrow> cstring \<Rightarrow> nat" where
  "digits_value base ds = fold (\<lambda>c v. v * base + (unat c - 48)) ds 0"

text \<open>An optional sign and digits; \<open>None\<close> if there is no digit.\<close>

definition scan_number :: "nat \<Rightarrow> cstring \<Rightarrow> (u32 \<times> cstring) option" where
  "scan_number base s =
    (let r = skip_space s;
         neg = (r \<noteq> [] \<and> hd r = 45);
         r1 = (if r \<noteq> [] \<and> (hd r = 45 \<or> hd r = 43) then tl r else r);
         ds = takeWhile (digit base) r1;
         v = of_nat (digits_value base ds)
     in if ds = [] then None else Some (if neg then - v else v, drop (length ds) r1))"

definition scan_octal :: "cstring \<Rightarrow> (u32 \<times> cstring) option" where
  "scan_octal s = scan_number 8 s"

definition atoi :: "cstring \<Rightarrow> u32" where
  "atoi s = (case scan_number 10 s of None \<Rightarrow> 0 | Some (v, _) \<Rightarrow> v)"

definition to_lower :: "u8 \<Rightarrow> u8" where
  "to_lower c = (if 65 \<le> c \<and> c \<le> 90 then c + 32 else c)"

definition strcasecmp_eq :: "cstring \<Rightarrow> cstring \<Rightarrow> bool" where
  "strcasecmp_eq s t \<longleftrightarrow> map to_lower s = map to_lower t"

text \<open>One call of \<open>fgets\<close> with a buffer of \<open>n\<close> characters; the lines a loop of such calls sees.\<close>

definition fgets :: "nat \<Rightarrow> u8 list \<Rightarrow> u8 list \<times> u8 list" where
  "fgets n f =
    (let l = take (n - 1) f; k = takeWhile (\<lambda>c. c \<noteq> 10) l
     in if length k < length l then (k @ [10], drop (length k + 1) f) else (l, drop (length l) f))"

function fgets_lines :: "nat \<Rightarrow> u8 list \<Rightarrow> u8 list list" where
  "fgets_lines n f =
    (if f = [] \<or> n < 2 then []
     else let (l, rest) = fgets n f in l # fgets_lines n rest)"
  by auto
termination
proof (relation "measure (\<lambda>(n, f). length f)")
  show "wf (measure (\<lambda>(n, f :: u8 list). length f))" by simp
next
  fix n and f l rest :: "u8 list" and x
  assume "\<not> (f = [] \<or> n < 2)" and "x = fgets n f" and "(l, rest) = x"
  then show "((n, rest), (n, f)) \<in> measure (\<lambda>(n, f). length f)"
    by (auto simp: fgets_def Let_def split: if_splits)
qed

declare fgets_lines.simps [simp del]

text \<open>Printing.\<close>

function digits_of :: "nat \<Rightarrow> nat \<Rightarrow> cstring" where
  "digits_of base n =
    (if n < base \<or> base < 2 then [48 + of_nat n]
     else digits_of base (n div base) @ [48 + of_nat (n mod base)])"
  by auto
termination by (relation "measure snd") auto

declare digits_of.simps [simp del]

definition print_octal :: "u32 \<Rightarrow> cstring" where
  "print_octal v = digits_of 8 (unat v)"

definition print_decimal :: "u32 \<Rightarrow> cstring" where
  "print_decimal v = (if sint v < 0 then 45 # digits_of 10 (nat (- sint v)) else digits_of 10 (nat (sint v)))"

subsection \<open>Numbers that are printed are scanned back\<close>

lemma digit_char:
  assumes "d < base" and "base \<le> 10"
  shows "digit base (48 + of_nat d)" "unat (48 + of_nat d :: u8) - 48 = d"
proof -
  have d: "unat (of_nat d :: u8) = d" using assms by (simp add: unsigned_of_nat take_bit_nat_eq_self)
  have u: "unat (48 + of_nat d :: u8) = 48 + d"
    using assms d by (subst unat_plus_simple [THEN iffD1]) (simp_all add: no_olen_add_nat)
  then show "unat (48 + of_nat d :: u8) - 48 = d" by simp
  show "digit base (48 + of_nat d)"
    using u assms by (simp add: digit_def word_le_nat_alt)
qed

lemma digits_of_digits:
  assumes "2 \<le> base" and "base \<le> 10"
  shows "digits_of base n \<noteq> [] \<and> list_all (digit base) (digits_of base n) \<and> digits_value base (digits_of base n) = n"
proof (induction n rule: less_induct)
  case (less n)
  show ?case
  proof (cases "n < base")
    case True
    then show ?thesis
      using digit_char [OF True assms(2)] by (simp add: digits_of.simps digits_value_def)
  next
    case False
    then have "n div base < n" using assms by (intro div_less_dividend) auto
    note IH = less [OF this]
    have "n mod base < base" using assms by simp
    note d = digit_char [OF this assms(2)]
    have eq: "digits_of base n = digits_of base (n div base) @ [48 + of_nat (n mod base)]"
      using False assms by (subst digits_of.simps) simp
    have "digits_value base (xs @ [c]) = digits_value base xs * base + (unat c - 48)" for xs c
      by (simp add: digits_value_def)
    then show ?thesis using IH d by (simp add: eq)
  qed
qed

lemma length_digits_of: "2 \<le> base \<Longrightarrow> n < base ^ Suc k \<Longrightarrow> length (digits_of base n) \<le> Suc k"
proof (induction k arbitrary: n)
  case 0
  then show ?case by (simp add: digits_of.simps)
next
  case (Suc k)
  then have "n div base < base ^ Suc k" by (simp add: div_less_iff_less_mult mult.commute)
  then show ?case using Suc.IH [OF Suc.prems(1)] by (subst digits_of.simps) auto
qed

lemma scan_octal_printed:
  assumes "\<not> digit 8 c"
  shows "scan_octal (32 # print_octal v @ c # r) = Some (v, c # r)"
proof -
  let ?ds = "digits_of 8 (unat v)"
  have ds: "?ds \<noteq> []" "list_all (digit 8) ?ds" "digits_value 8 ?ds = unat v"
    using digits_of_digits [of 8 "unat v"] by simp_all
  obtain d es where de: "?ds = d # es" using ds(1) by (cases ?ds) auto
  then have "digit 8 d" using ds(2) by simp
  then have d: "\<not> is_space d" "d \<noteq> 45" "d \<noteq> 43" by (auto simp: digit_def is_space_def word_le_nat_alt)
  have "takeWhile (digit 8) (?ds @ c # r) = ?ds"
    using ds(2) assms by (subst takeWhile_append2) (auto simp: list_all_iff)
  moreover have "skip_space (32 # ?ds @ c # r) = ?ds @ c # r"
  proof -
    have "is_space 32" by (simp add: is_space_def)
    then show ?thesis using d(1) by (simp add: skip_space_def de)
  qed
  ultimately show ?thesis
    using d ds by (simp add: scan_octal_def scan_number_def print_octal_def Let_def de)
qed

subsection \<open>Lines\<close>

lemma fgets_line:
  assumes "10 \<notin> set l" and "length l + 2 \<le> n"
  shows "fgets n (l @ 10 # rest) = (l @ [10], rest)"
proof -
  have t: "take (n - 1) (l @ 10 # rest) = l @ 10 # take (n - 2 - length l) rest"
  proof -
    have n: "n - 1 = length l + Suc (n - 2 - length l)" using assms(2) by simp
    show ?thesis unfolding n by simp
  qed
  have "takeWhile (\<lambda>c. c \<noteq> 10) (l @ 10 # xs) = l" for xs
    using assms(1) by (subst takeWhile_append2) auto
  then show ?thesis unfolding fgets_def t Let_def by simp
qed

lemma fgets_lines_line:
  assumes "10 \<notin> set l" and "length l + 2 \<le> n"
  shows "fgets_lines n (l @ 10 # rest) = (l @ [10]) # fgets_lines n rest"
  using assms(2) by (subst fgets_lines.simps) (simp add: fgets_line [OF assms])

lemma fgets_lines_empty [simp]: "fgets_lines n [] = []"
  by (simp add: fgets_lines.simps)

lemma fgets_lines_concat:
  assumes "\<forall>l \<in> set ls. 10 \<notin> set l \<and> length l + 2 \<le> n"
  shows "fgets_lines n (concat (map (\<lambda>l. l @ [10]) ls) @ rest) = map (\<lambda>l. l @ [10]) ls @ fgets_lines n rest"
  using assms by (induction ls) (simp_all add: fgets_lines_line)

end
