(* ===== verification/Usim_Diskmaker.thy ===== *)
theory Usim_Diskmaker
  imports Usim_Pack Usim_Text
begin

section \<open>The disk image tool (diskmaker.c)\<close>

text \<open>
  Templates, partition contents and the commands of the tool, over the label of \<open>Usim_Pack\<close>.
  \<open>fs\<close> gives the contents of the files that can be opened; an image is a list of bytes. As
  in the other theories \<open>None\<close> is undefined behaviour; inside it, \<open>None\<close> is \<open>exit(1)\<close>.
\<close>

subsection \<open>Contents of a partition\<close>

text \<open>
  The copying loop. The buffer \<open>b\<close> keeps what the last block left in it (at first, what the
  stack held), so a final block that is not full is written with a stale rest.
\<close>

function copy_blocks :: "bool \<Rightarrow> u32 \<Rightarrow> u8 list \<Rightarrow> u8 list \<Rightarrow> nat \<Rightarrow> u8 list \<Rightarrow> (u8 list \<times> nat) option" where
  "copy_blocks mcr offset rest b count f =
    (if rest = [] then Some (f, count)
     else do {
       let got = take 1024 rest;
       let b1 = got @ drop (length got) b;
       let b2 = (if mcr then swapwords b1 else b1);
       n \<leftarrow> c_add offset (of_nat count);
       (f1, r) \<leftarrow> write_block n b2 f;
       if r \<noteq> 0 then Some (f1, count)
       else if length got < 1024 then Some (f1, count + 1)
       else copy_blocks mcr offset (drop 1024 rest) b2 (count + 1) f1
     })"
  by auto
termination by (relation "measure (\<lambda>(_, _, rest, _). length rest)") auto

declare copy_blocks.simps [simp del]

primrec zero_blocks :: "nat \<Rightarrow> u32 \<Rightarrow> nat \<Rightarrow> u8 list \<Rightarrow> (u8 list \<times> nat) option" where
  "zero_blocks 0 offset count f = Some (f, count)"
| "zero_blocks (Suc n) offset count f = do {
     m \<leftarrow> c_add offset (of_nat count);
     (f1, r) \<leftarrow> write_block m (replicate 1024 0) f;
     if r \<noteq> 0 then Some (f1, count) else zero_blocks n offset (count + 1) f1
   }"

text \<open>\<open>count\<close> runs up to \<open>size\<close>; nothing keeps the copied file inside the partition.\<close>

definition make_one_partition ::
  "(cstring \<Rightarrow> u8 list option) \<Rightarrow> u8 list \<Rightarrow> part_s \<Rightarrow> u8 list \<Rightarrow> (u8 list \<times> int) option" where
  "make_one_partition fs b x f =
    (let size = nat (sint (p_size x)) in
     case p_filename x of
       Some (c # cs) \<Rightarrow>
         (case fs (c # cs) of
            None \<Rightarrow> Some (f, -1)
          | Some content \<Rightarrow> do {
              (f1, count) \<leftarrow> copy_blocks (take 3 (p_name x) = cstr ''MCR'') (p_start x) content b 0 f;
              (f2, _) \<leftarrow> zero_blocks (size - count) (p_start x) count f1;
              Some (f2, 0)
            })
     | _ \<Rightarrow> do { (f1, _) \<leftarrow> zero_blocks size (p_start x) 0 f; Some (f1, 0) })"

primrec make_partitions ::
  "(cstring \<Rightarrow> u8 list option) \<Rightarrow> u8 list \<Rightarrow> part_s list \<Rightarrow> u8 list \<Rightarrow> u8 list option" where
  "make_partitions fs b [] f = Some f"
| "make_partitions fs b (x # xs) f = do {
     (f1, _) \<leftarrow> make_one_partition fs b x f;
     make_partitions fs b xs f1
   }"

subsection \<open>Templates\<close>

definition default_template :: "pack \<Rightarrow> pack" where
  "default_template k0 =
    (let mcr_file = cstr ''../bands/ucadr.mcr.841'';
         k = k0\<lparr>img_filename := (case img_filename k0 of None \<Rightarrow> Some (cstr ''disk.img'') | Some s \<Rightarrow> Some s),
               dm_cyls := 815, dm_heads := 19, dm_blocks_per_track := 17, parts := []\<rparr>;
         add = (\<lambda>(name, start, sz, label, filename) k. fst (add_partition (cstr name) start sz 0 label filename k));
         k1 = fold add
           [(''MCR1'', 0x11, 0x94, cstr ''UCADR 841'', Some mcr_file),
            (''MCR2'', 0xA5, 0x94, [], None), (''MCR3'', 0x139, 0x94, [], None),
            (''MCR4'', 0x1CD, 0x94, [], None), (''MCR5'', 0x261, 0x94, [], None),
            (''MCR6'', 0x2F5, 0x94, [], None), (''MCR7'', 0x389, 0x94, [], None),
            (''MCR8'', 0x41D, 0x94, [], None), (''PAGE'', 0x50C, 0xFEDE, [], None),
            (''LOD1'', 0x103EA, 0x5EA1, cstr ''78.48 LMFS 21.34'', Some (cstr ''../bands/system-78-48.LOD'')),
            (''LOD2'', 0x1628B, 0x5EA1, [], None), (''LOD3'', 0x1C12C, 0x5EA1, [], None),
            (''LOD4'', 0x21FCD, 0x5EA1, [], None), (''LOD5'', 0x27E6E, 0x5EA1, [], None),
            (''LOD6'', 0x2DD0F, 0x5EA1, [], None), (''LOD7'', 0x33BB0, 0x5EA1, [], None),
            (''LOD8'', 0x39A51, 0x5EA1, [], None), (''FILE'', 0x3F8F2, 0xB5B, [], None)] k
     in k1\<lparr>mcr_name := cstr ''MCR1'', lod_name := cstr ''LOD1'', brand := Some (cstr ''Trident T-300''),
          pack_text := [], comment := mcr_file\<rparr>)"

text \<open>
  \<open>parse_template\<close>: \<open>mode\<close>, the two word buffers (\<open>None\<close> while uninitialised) and the pack
  that is filled in. Each line loses its last character, which is the newline unless the
  file ends without one.
\<close>

record template =
  mode :: nat
  what :: "cstring option"
  str :: "cstring option"
  made :: pack

definition set_label_field :: "cstring \<Rightarrow> cstring \<Rightarrow> pack \<Rightarrow> pack" where
  "set_label_field w s k =
    (if w = cstr ''cyls'' then k\<lparr>dm_cyls := atoi s\<rparr>
     else if w = cstr ''heads'' then k\<lparr>dm_heads := atoi s\<rparr>
     else if w = cstr ''blockspertrack'' then k\<lparr>dm_blocks_per_track := atoi s\<rparr>
     else if w = cstr ''mcr'' then k\<lparr>mcr_name := s\<rparr>
     else if w = cstr ''lod'' then k\<lparr>lod_name := s\<rparr>
     else if w = cstr ''brand'' then k\<lparr>brand := Some s\<rparr>
     else if w = cstr ''text'' then k\<lparr>pack_text := s\<rparr>
     else if w = cstr ''comment'' then k\<lparr>comment := s\<rparr>
     else k)"

definition template_label :: "cstring \<Rightarrow> template \<Rightarrow> template option" where
  "template_label line t = do {
     let (w, s) = (case scan_s line of
                     None \<Rightarrow> (what t, str t)
                   | Some (w, r) \<Rightarrow> (Some w, case scan_s r of None \<Rightarrow> str t | Some (s, _) \<Rightarrow> Some s));
     w1 \<leftarrow> w;
     let known = w1 \<in> {cstr ''cyls'', cstr ''heads'', cstr ''blockspertrack'', cstr ''mcr'', cstr ''lod'',
                        cstr ''brand'', cstr ''text'', cstr ''comment''};
     if known then do { s1 \<leftarrow> s; Some (t\<lparr>what := w, str := s, made := set_label_field w1 s1 (made t)\<rparr>) }
     else Some (t\<lparr>what := w, str := s\<rparr>)
   }"

text \<open>The conversions of a partition line; a conversion that fails leaves the rest as it was set.\<close>

definition scan_partition :: "cstring \<Rightarrow> cstring \<times> u32 \<times> u32 \<times> cstring \<times> cstring" where
  "scan_partition line =
    (case scan_s line of None \<Rightarrow> ([], 0, 0, [], [])
     | Some (w, r1) \<Rightarrow>
    (case scan_octal r1 of None \<Rightarrow> (w, 0, 0, [], [])
     | Some (start, r2) \<Rightarrow>
    (case scan_octal r2 of None \<Rightarrow> (w, start, 0, [], [])
     | Some (sz, r3) \<Rightarrow>
    (case scan_s r3 of None \<Rightarrow> (w, start, sz, [], [])
     | Some (s, r4) \<Rightarrow> (w, start, sz, s, takeWhile (\<lambda>c. c \<noteq> 10) (skip_space r4))))))"

definition template_partition :: "cstring \<Rightarrow> template \<Rightarrow> template" where
  "template_partition line t =
    (let (w, start, sz, s, label) = scan_partition line;
         t1 = t\<lparr>what := Some w, str := Some s\<rparr>
     in if w \<noteq> [] \<and> 0 < sint start \<and> 0 < sint sz
        then t1\<lparr>made := fst (add_partition w start sz 0 label (Some s) (made t))\<rparr>
        else t1)"

definition template_line :: "cstring \<Rightarrow> template \<Rightarrow> template option" where
  "template_line chunk t =
    (let c = strdup chunk; line = (if c = [] then c else butlast c) in
     if line \<noteq> [] \<and> hd line = 35 then Some t
     else if line = cstr ''output:'' then Some (t\<lparr>mode := 1\<rparr>)
     else if line = cstr ''label:'' then Some (t\<lparr>mode := 2\<rparr>)
     else if line = cstr ''partitions:'' then Some (t\<lparr>mode := 3\<rparr>)
     else if mode t = 1 then Some (t\<lparr>made := (made t)\<lparr>img_filename := Some line\<rparr>\<rparr>)
     else if mode t = 2 then template_label line t
     else if mode t = 3 then Some (template_partition line t)
     else Some t)"

primrec template_lines :: "u8 list list \<Rightarrow> template \<Rightarrow> template option" where
  "template_lines [] t = Some t"
| "template_lines (l # ls) t = do { t1 \<leftarrow> template_line l t; template_lines ls t1 }"

text \<open>A template that cannot be opened changes nothing, and that is not an error.\<close>

definition parse_template :: "u8 list option \<Rightarrow> pack \<Rightarrow> pack option" where
  "parse_template file k =
    (case file of
       None \<Rightarrow> Some k
     | Some f \<Rightarrow> do {
         t \<leftarrow> template_lines (fgets_lines 256 f) \<lparr>mode = 0, what = None, str = None, made = k\<lparr>parts := []\<rparr>\<rparr>;
         Some (made t)
       })"

subsection \<open>The commands\<close>

text \<open>\<open>ftruncate\<close> to one byte less than the last block; never called.\<close>

primrec last_block_loop :: "part_s list \<Rightarrow> u32 \<Rightarrow> u32 option" where
  "last_block_loop [] last_block_no = Some last_block_no"
| "last_block_loop (x # xs) last_block_no = do {
     l \<leftarrow> c_add (p_start x) (p_size x);
     last_block_loop xs (if sint last_block_no < sint l then l else last_block_no)
   }"

definition fillout_image_file :: "pack \<Rightarrow> u8 list \<Rightarrow> (u8 list \<times> int) option" where
  "fillout_image_file k f = do {
     last_block_no \<leftarrow> last_block_loop (parts k) 0;
     n \<leftarrow> c_add last_block_no 1;
     offset \<leftarrow> c_mul n 1024;
     if sint offset - 1 < 0 then Some (f, -1)
     else let len = nat (sint offset - 1) in
       Some (take len (f @ replicate (len - length f) 0), 0)
   }"

text \<open>
  \<open>create_disk\<close> refuses to touch an image that exists. Without a template name it calls
  \<open>fopen\<close> with the null pointer. The result: \<open>None\<close> for \<open>exit(1)\<close>,
  otherwise the pack, the image and the value returned.
\<close>

definition create_disk ::
  "(cstring \<Rightarrow> u8 list option) \<Rightarrow> u8 list \<Rightarrow> cstring option \<Rightarrow> pack \<Rightarrow> (pack \<times> u8 list \<times> int) option option" where
  "create_disk fs b template k = do {
     tn \<leftarrow> template;
     k1 \<leftarrow> parse_template (fs tn) k;
     img \<leftarrow> img_filename k1;
     if fs img \<noteq> None then Some None
     else do {
       (f1, _) \<leftarrow> make_labl k1 [];
       f2 \<leftarrow> make_partitions fs b (parts k1) f1;
       Some (Some (k1, f2, 0))
     }
   }"

definition find_part :: "cstring \<Rightarrow> part_s list \<Rightarrow> part_s option" where
  "find_part name xs = find (\<lambda>x. p_name x = name) xs"

definition modify_disk ::
  "(cstring \<Rightarrow> u8 list option) \<Rightarrow> u8 list \<Rightarrow> cstring option \<Rightarrow> u8 list option \<Rightarrow> cstring \<Rightarrow> pack
     \<Rightarrow> (pack \<times> u8 list option \<times> int) option" where
  "modify_disk fs b template img name k =
    (case template of
       None \<Rightarrow> Some (k, img, -1)
     | Some tn \<Rightarrow> do {
         k1 \<leftarrow> parse_template (fs tn) k;
         (case find_part name (parts k1) of
            None \<Rightarrow> Some (k1, img, -1)
          | Some x \<Rightarrow>
             (case img of
                None \<Rightarrow> Some (k1, None, -1)
              | Some f \<Rightarrow> do {
                  (f1, _) \<leftarrow> make_labl k1 f;
                  (f2, _) \<leftarrow> make_one_partition fs b x f1;
                  Some (k1, Some f2, 0)
                }))
       })"

definition modify_labl ::
  "(cstring \<Rightarrow> u8 list option) \<Rightarrow> cstring option \<Rightarrow> u8 list option \<Rightarrow> pack \<Rightarrow> (pack \<times> u8 list option \<times> int) option" where
  "modify_labl fs template img k =
    (case template of
       None \<Rightarrow> Some (k, img, -1)
     | Some tn \<Rightarrow> do {
         k1 \<leftarrow> parse_template (fs tn) k;
         (case img of
            None \<Rightarrow> Some (k1, None, -1)
          | Some f \<Rightarrow> do { (f1, _) \<leftarrow> make_labl k1 f; Some (k1, Some f1, 0) })
       })"

text \<open>Reading blocks of the partition into a file; both loops stop at the first error.\<close>

primrec extract_blocks ::
  "nat \<Rightarrow> u32 \<Rightarrow> nat \<Rightarrow> u8 list \<Rightarrow> u8 list \<Rightarrow> u8 list \<Rightarrow> u8 list option" where
  "extract_blocks 0 offset count b f out = Some out"
| "extract_blocks (Suc n) offset count b f out = do {
     m \<leftarrow> c_add offset (of_nat count);
     (b1, r) \<leftarrow> read_block f m b;
     if r \<noteq> 0 then Some out
     else do {
       (out1, r1) \<leftarrow> write_block (of_nat count) b1 out;
       if r1 \<noteq> 0 then Some out1 else extract_blocks n offset (count + 1) b1 f out1
     }
   }"

text \<open>
  \<open>out\<close> is the output file before; it is opened without truncation, and only when the
  partition is found. \<open>result\<close> is never set after its initial -1.
\<close>

definition extract_partition ::
  "u8 list option \<Rightarrow> cstring \<Rightarrow> u8 list \<Rightarrow> u8 list \<Rightarrow> pack \<Rightarrow> (pack \<times> u8 list option \<times> int) option" where
  "extract_partition img name b out k =
    (case img of
       None \<Rightarrow> Some (k, None, -1)
     | Some f \<Rightarrow>
        if length f < 1024 then Some (k, None, -1)
        else do {
          (k1, r) \<leftarrow> parse_labl signed_count (buffer_of f) k;
          if r \<noteq> 0 then Some (k1, None, -1)
          else (case find_part name (parts k1) of
                  None \<Rightarrow> Some (k1, None, -1)
                | Some x \<Rightarrow> do {
                    out1 \<leftarrow> extract_blocks (nat (sint (p_size x))) (p_start x) 0 b f out;
                    Some (k1, Some out1, -1)
                  })
        })"

text \<open>\<open>set_current_band\<close> and \<open>set_current_mcr\<close> differ in the name they replace.\<close>

definition set_current ::
  "(cstring \<Rightarrow> pack \<Rightarrow> pack) \<Rightarrow> u8 list option \<Rightarrow> cstring \<Rightarrow> pack \<Rightarrow> (pack \<times> u8 list option \<times> int) option" where
  "set_current set_name img name k = do {
     (k1, r) \<leftarrow> read_labl img k;
     if r < 0 then Some (k1, img, -1)
     else (case find (\<lambda>x. strcasecmp_eq name (p_name x)) (parts k1) of
             None \<Rightarrow> Some (k1, img, -1)
           | Some x \<Rightarrow>
               let k2 = set_name (p_name x) k1 in
               (case img of
                  None \<Rightarrow> Some (k2, None, -1)
                | Some f \<Rightarrow> do { (f1, _) \<leftarrow> make_labl k2 f; Some (k2, Some f1, 0) }))
   }"

definition set_current_band :: "u8 list option \<Rightarrow> cstring \<Rightarrow> pack \<Rightarrow> (pack \<times> u8 list option \<times> int) option" where
  "set_current_band = set_current (\<lambda>n k. k\<lparr>lod_name := n\<rparr>)"

definition set_current_mcr :: "u8 list option \<Rightarrow> cstring \<Rightarrow> pack \<Rightarrow> (pack \<times> u8 list option \<times> int) option" where
  "set_current_mcr = set_current (\<lambda>n k. k\<lparr>mcr_name := n\<rparr>)"

text \<open>What \<open>show_partition_info\<close> prints: a template without the name of the file a partition came from.\<close>

definition show_part :: "part_s \<Rightarrow> cstring" where
  "show_part x = p_name x @ [9, 48] @ print_octal (p_start x) @ [9, 48] @ print_octal (p_size x) @ [9]
     @ (case p_filename x of None \<Rightarrow> [] | Some s \<Rightarrow> s) @ [9] @ p_label x @ [10]"

definition show_pack :: "cstring \<Rightarrow> pack \<Rightarrow> cstring" where
  "show_pack filename k =
     (let br = (case brand k of None \<Rightarrow> [] | Some s \<Rightarrow> s) in
      cstr ''#'' @ [10] @ cstr ''output:'' @ [10] @ filename @ [10] @ cstr ''#'' @ [10] @ cstr ''label:'' @ [10]
      @ cstr ''cyls'' @ [9] @ print_decimal (dm_cyls k) @ [10]
      @ cstr ''heads'' @ [9] @ print_decimal (dm_heads k) @ [10]
      @ cstr ''blockspertrack'' @ [9] @ print_decimal (dm_blocks_per_track k) @ [10]
      @ (if br \<noteq> [] \<and> hd br \<noteq> 0x80 then cstr ''brand'' @ [9] @ br @ [10] else [])
      @ (if pack_text k \<noteq> [] then cstr ''text'' @ [9] @ pack_text k @ [10] else [])
      @ (if comment k \<noteq> [] then cstr ''comment'' @ [9] @ comment k @ [10] else [])
      @ cstr ''mcr'' @ [9] @ mcr_name k @ [10] @ cstr ''lod'' @ [9] @ lod_name k @ [10]
      @ cstr ''#'' @ [10] @ cstr ''partitions:'' @ [10] @ concat (map show_part (parts k)))"

definition show_partition_info ::
  "cstring \<Rightarrow> u8 list option \<Rightarrow> pack \<Rightarrow> (pack \<times> cstring \<times> int) option" where
  "show_partition_info filename img k =
    (case img of
       None \<Rightarrow> Some (k, [], -1)
     | Some f \<Rightarrow>
        if length f < 1024 then Some (k, [], -1)
        else do {
          (k1, r) \<leftarrow> parse_labl signed_count (buffer_of f) k;
          if r \<noteq> 0 then Some (k1, [], -1) else Some (k1, show_pack filename k1, 0)
        })"

subsection \<open>Command line\<close>

record options =
  boot_name :: "cstring option"
  boot_mcr_name :: "cstring option"
  template_filename :: "cstring option"
  opt_img :: "cstring option"
  part_name :: "cstring option" \<comment> \<open>of the last \<open>-m\<close> or \<open>-x\<close>\<close>
  show_flag :: bool
  create_flag :: bool
  modify_flag :: bool
  extract_flag :: bool
  label_flag :: bool

type_synonym fs = "cstring \<Rightarrow> u8 list option"

definition no_pack :: pack where
  "no_pack = \<lparr>dm_cyls = 0, dm_heads = 0, dm_blocks_per_track = 0, mcr_name = [], lod_name = [], brand = None,
     pack_text = [], comment = [], img_filename = None, parts = []\<rparr>"

text \<open>
  \<open>main\<close> after its options: the files afterwards and what was printed of the pack. The
  first four commands exclude everything else; the last three run one after the other.
\<close>

definition diskmaker :: "options \<Rightarrow> u8 list \<Rightarrow> fs \<Rightarrow> (fs \<times> cstring) option" where
  "diskmaker opt b fs = do {
     let k = default_template (no_pack\<lparr>img_filename := opt_img opt\<rparr>);
     img \<leftarrow> img_filename k;
     if boot_name opt \<noteq> None then do {
       (_, f, _) \<leftarrow> set_current_band (fs img) (the (boot_name opt)) k;
       Some (fs(img := f), [])
     }
     else if boot_mcr_name opt \<noteq> None then do {
       (_, f, _) \<leftarrow> set_current_mcr (fs img) (the (boot_mcr_name opt)) k;
       Some (fs(img := f), [])
     }
     else if show_flag opt then do {
       (_, out, _) \<leftarrow> show_partition_info img (fs img) k;
       Some (fs, out)
     }
     else if create_flag opt then do {
       r \<leftarrow> create_disk fs b (template_filename opt) k;
       (case r of None \<Rightarrow> Some (fs, [])
        | Some (k1, f, _) \<Rightarrow> Some (fs(the (img_filename k1) := Some f), []))
     }
     else do {
       (k1, fs1) \<leftarrow> (if modify_flag opt then do {
                       name \<leftarrow> part_name opt;
                       (k1, f, _) \<leftarrow> modify_disk fs b (template_filename opt) (fs img) name k;
                       Some (k1, fs(img := f))
                     }
                     else Some (k, fs));
       img1 \<leftarrow> img_filename k1;
       (k2, fs2) \<leftarrow> (if extract_flag opt then do {
                       name \<leftarrow> part_name opt;
                       (k2, out, _) \<leftarrow> extract_partition (fs1 img1) name b
                                         (case fs1 name of None \<Rightarrow> [] | Some f \<Rightarrow> f) k1;
                       Some (k2, case out of None \<Rightarrow> fs1 | Some f \<Rightarrow> fs1(name := Some f))
                     }
                     else Some (k1, fs1));
       img2 \<leftarrow> img_filename k2;
       if label_flag opt then do {
         (_, f, _) \<leftarrow> modify_labl fs2 (template_filename opt) (fs2 img2) k2;
         Some (fs2(img2 := f), [])
       }
       else Some (fs2, [])
     }
   }"

end
