(* ===== verification/Usim_Image.thy ===== *)
theory Usim_Image
  imports Usim_Diskmaker
begin

section \<open>Images made by the disk tool (diskmaker.c)\<close>

text \<open>
  What \<open>create_disk\<close> and \<open>extract_partition\<close> do to an image, byte by byte: the contents of
  every partition, and that nothing else is touched; the built-in layout.
\<close>

subsection \<open>Files as maps of bytes\<close>

text \<open>The byte at a position, 0 beyond the end.\<close>

definition file_byte :: "u8 list \<Rightarrow> nat \<Rightarrow> u8" where
  "file_byte f i = (if i < length f then f ! i else 0)"

lemma file_byte_write:
  "file_byte (file_write off bs f) i = (if off \<le> i \<and> i < off + length bs then bs ! (i - off) else file_byte f i)"
  by (auto simp: file_byte_def file_write_def nth_append min_def)

lemma block_offset:
  assumes "n < 2 ^ 21"
  shows "\<exists>w. c_mul (of_nat n) 1024 = Some w \<and> unat w = 1024 * n \<and> \<not> sint w < 0"
proof -
  have "unat (of_nat n :: u32) = n" using assms by (simp add: unat_of_nat_small)
  moreover have "c_mul (of_nat n) 1024 = Some (of_nat (n * 1024))"
    using c_mul_nat [of "of_nat n" 1024] assms calculation by simp
  moreover have u: "unat (of_nat (n * 1024) :: u32) = n * 1024"
    using assms by (intro unat_of_nat_small) simp
  moreover have "sint (of_nat (n * 1024) :: u32) = int (unat (of_nat (n * 1024) :: u32))"
    using assms u by (intro sint_eq_unat) simp
  then have "\<not> sint (of_nat (n * 1024) :: u32) < 0" by (simp only: of_nat_less_0_iff not_False_eq_True)
  ultimately show ?thesis by (simp add: mult.commute)
qed

lemma write_block_ok: "n < 2 ^ 21 \<Longrightarrow> write_block (of_nat n) bs f = Some (file_write (1024 * n) bs f, 0)"
  using block_offset by (fastforce simp: write_block_def)

lemma block_number:
  "a + n < 2 ^ 21 \<Longrightarrow> c_add (of_nat a) (of_nat n) = Some (of_nat (a + n))"
  using c_add_nat [of "of_nat a" "of_nat n"] by (simp add: unat_of_nat_small)

lemma half_swap_less: "i < 1024 * n \<Longrightarrow> half_swap i < 1024 * n"
proof -
  assume i: "i < 1024 * n"
  have "i + 2 < 1024 * n" if "i mod 4 < 2"
  proof -
    have "i div 4 < 256 * n" using i by (simp add: div_less_iff_less_mult)
    then have "4 * (i div 4) + 4 \<le> 1024 * n" by linarith
    moreover have "i = 4 * (i div 4) + i mod 4" by simp
    ultimately show ?thesis using that by linarith
  qed
  with i show ?thesis by (auto simp: half_swap_def)
qed

lemma half_swap_add: "half_swap (1024 * n + i) = 1024 * n + half_swap i"
proof -
  have "(i + 4 * (256 * n)) mod 4 = i mod 4" by (rule mod_mult_self2)
  then have "(1024 * n + i) mod 4 = i mod 4" by (simp add: add.commute)
  moreover have "i mod 4 \<le> i" by simp
  ultimately show ?thesis
    by (simp only: half_swap_def split: if_split) linarith
qed

text \<open>\<open>holds f s n g\<close>: the \<open>n\<close> blocks of \<open>f\<close> from block \<open>s\<close> hold the bytes \<open>g\<close>; the others are those of \<open>f0\<close>.\<close>

definition holds :: "u8 list \<Rightarrow> nat \<Rightarrow> nat \<Rightarrow> (nat \<Rightarrow> u8) \<Rightarrow> u8 list \<Rightarrow> bool" where
  "holds f s n g f0 \<longleftrightarrow>
    (\<forall>i. file_byte f i = (if 1024 * s \<le> i \<and> i < 1024 * (s + n) then g (i - 1024 * s) else file_byte f0 i)) \<and>
    (0 < n \<longrightarrow> length f = max (1024 * (s + n)) (length f0)) \<and> (n = 0 \<longrightarrow> length f = length f0)"

lemma holds_empty: "holds f s 0 g f"
  by (auto simp: holds_def)

lemma holds_snoc:
  assumes "holds f s n g f0" and "length b = 1024" and "\<And>i. i < 1024 \<Longrightarrow> b ! i = g (1024 * n + i)"
  shows "holds (file_write (1024 * (s + n)) b f) s (Suc n) g f0"
proof -
  have "file_byte (file_write (1024 * (s + n)) b f) i =
      (if 1024 * s \<le> i \<and> i < 1024 * (s + Suc n) then g (i - 1024 * s) else file_byte f0 i)" for i
    using assms(1,2) assms(3) [of "i - 1024 * (s + n)"]
    by (auto simp: holds_def file_byte_write algebra_simps)
  moreover have "length (file_write (1024 * (s + n)) b f) = max (1024 * (s + Suc n)) (length f0)"
    using assms(1,2) by (cases "n = 0") (auto simp: holds_def length_file_write)
  ultimately show ?thesis by (simp add: holds_def)
qed

lemma zero_blocks_ok:
  assumes "s + count + n < 2 ^ 21" and "holds f s count g f0" and "\<And>i. 1024 * count \<le> i \<Longrightarrow> g i = 0"
  shows "\<exists>f'. zero_blocks n (of_nat s) count f = Some (f', count + n) \<and> holds f' s (count + n) g f0"
  using assms
proof (induction n arbitrary: count f)
  case 0
  then show ?case by simp
next
  case (Suc n)
  define f1 where "f1 = file_write (1024 * (s + count)) (replicate 1024 0) f"
  have "c_add (of_nat s) (of_nat count) = Some (of_nat (s + count))" using Suc.prems(1) by (intro block_number) simp
  moreover have "write_block (of_nat (s + count)) (replicate 1024 0) f = Some (f1, 0)"
    unfolding f1_def using Suc.prems(1) by (intro write_block_ok) simp
  moreover have "holds f1 s (Suc count) g f0"
    unfolding f1_def using Suc.prems by (intro holds_snoc) auto
  ultimately show ?case
    using Suc.IH [of "Suc count" f1] Suc.prems by simp
qed

text \<open>The bytes a partition gets from a file of whole blocks.\<close>

definition stored_byte :: "bool \<Rightarrow> u8 list \<Rightarrow> nat \<Rightarrow> u8" where
  "stored_byte mcr content i = file_byte content (if mcr then half_swap i else i)"

lemma copy_blocks_ok:
  assumes "length rest = 1024 * n" and "s + count + n < 2 ^ 21" and "holds f s count g f0" and "length b = 1024"
    and "\<And>i. i < 1024 * n \<Longrightarrow> g (1024 * count + i) = stored_byte mcr rest i"
  shows "\<exists>f'. copy_blocks mcr (of_nat s) rest b count f = Some (f', count + n) \<and> holds f' s (count + n) g f0"
  using assms
proof (induction n arbitrary: rest b count f)
  case 0
  then show ?case by (simp add: copy_blocks.simps)
next
  case (Suc n)
  define b2 where "b2 = (if mcr then swapwords (take 1024 rest) else take 1024 rest)"
  define f1 where "f1 = file_write (1024 * (s + count)) b2 f"
  have len: "length b2 = 1024" using Suc.prems(1) by (simp add: b2_def swapwords_def)
  have b2: "b2 ! i = g (1024 * count + i)" if i: "i < 1024" for i
  proof -
    have h: "half_swap i < 1024" using half_swap_less [of i 1] i by simp
    then have "b2 ! i = rest ! (if mcr then half_swap i else i)"
      using Suc.prems(1) i by (simp add: b2_def swapwords_def)
    then show ?thesis
      using Suc.prems(1) Suc.prems(5) [of i] h i by (auto simp: stored_byte_def file_byte_def)
  qed
  have "c_add (of_nat s) (of_nat count) = Some (of_nat (s + count))" using Suc.prems(2) by (intro block_number) simp
  moreover have "write_block (of_nat (s + count)) b2 f = Some (f1, 0)"
    unfolding f1_def using Suc.prems(2) by (intro write_block_ok) simp
  moreover have "rest \<noteq> []" "\<not> length rest < 1024" "length (take 1024 rest) = 1024" using Suc.prems(1) by auto
  moreover have "holds f1 s (Suc count) g f0"
    unfolding f1_def using Suc.prems(3) len b2 by (intro holds_snoc) auto
  moreover have "g (1024 * Suc count + i) = stored_byte mcr (drop 1024 rest) i" if "i < 1024 * n" for i
  proof -
    have "half_swap (1024 + i) = 1024 + half_swap i" using half_swap_add [of 1 i] by simp
    moreover have "file_byte rest (1024 + k) = file_byte (drop 1024 rest) k" for k
      using Suc.prems(1) by (simp add: file_byte_def less_diff_conv2)
    moreover have "g (1024 + (1024 * count + i)) = g (1024 * count + (1024 + i))"
      by (rule arg_cong [where f = g]) simp
    ultimately show ?thesis
      using Suc.prems(5) [of "1024 + i"] that by (simp add: stored_byte_def add.assoc)
  qed
  ultimately show ?case
    using Suc.IH [of "drop 1024 rest" "Suc count" f1 b2] Suc.prems len
    by (subst copy_blocks.simps) (simp add: b2_def [symmetric])
qed

subsection \<open>What a partition holds\<close>

definition partition_byte :: "(cstring \<Rightarrow> u8 list option) \<Rightarrow> part_s \<Rightarrow> nat \<Rightarrow> u8" where
  "partition_byte fs x =
    (case p_filename x of
       Some (c # cs) \<Rightarrow> stored_byte (take 3 (p_name x) = cstr ''MCR'') (the (fs (c # cs)))
     | _ \<Rightarrow> (\<lambda>i. 0))"

text \<open>The partition lies below the 1 GB that block numbers reach, and its file is whole blocks that fit.\<close>

definition fits :: "(cstring \<Rightarrow> u8 list option) \<Rightarrow> part_s \<Rightarrow> bool" where
  "fits fs x \<longleftrightarrow> unat (p_start x) + unat (p_size x) < 2 ^ 21 \<and>
     (\<forall>fn. p_filename x = Some fn \<longrightarrow> fn \<noteq> [] \<longrightarrow>
        (\<exists>content n. fs fn = Some content \<and> length content = 1024 * n \<and> n \<le> unat (p_size x)))"

lemma half_swap_ge: "1024 * n \<le> i \<Longrightarrow> 1024 * n \<le> half_swap i"
  using half_swap_add [of n "i - 1024 * n"] by simp

lemma make_one_partition_ok:
  assumes "fits fs x" and "length b = 1024"
  shows "\<exists>f'. make_one_partition fs b x f = Some (f', 0) \<and>
    holds f' (unat (p_start x)) (unat (p_size x)) (partition_byte fs x) f"
proof -
  define s where "s = unat (p_start x)"
  define n where "n = unat (p_size x)"
  have sn: "s + n < 2 ^ 21" using assms(1) by (simp add: fits_def s_def n_def)
  have start: "p_start x = of_nat s" by (simp add: s_def)
  have "sint (p_size x) = int (unat (p_size x))" using sn by (intro sint_eq_unat) (simp add: n_def)
  then have size: "nat (sint (p_size x)) = n" by (simp only: nat_int n_def)
  show ?thesis
  proof (cases "\<exists>fn. p_filename x = Some fn \<and> fn \<noteq> []")
    case False
    then have "partition_byte fs x = (\<lambda>i. 0)"
      "make_one_partition fs b x f = do { (f1, _) \<leftarrow> zero_blocks n (of_nat s) 0 f; Some (f1, 0) }"
      by (auto simp: partition_byte_def make_one_partition_def size start split: option.splits list.splits)
    then show ?thesis
      using zero_blocks_ok [of s 0 n f "\<lambda>i. 0" f] sn holds_empty [of f s "\<lambda>i. 0"]
      by (auto simp: s_def [symmetric] n_def [symmetric])
  next
    case True
    then obtain c cs where fn: "p_filename x = Some (c # cs)" by (auto simp: neq_Nil_conv)
    obtain content m where content: "fs (c # cs) = Some content" "length content = 1024 * m" "m \<le> n"
      using assms(1) fn by (auto simp: fits_def n_def)
    define mcr where "mcr = (take 3 (p_name x) = cstr ''MCR'')"
    have g: "partition_byte fs x = stored_byte mcr content"
      by (simp add: partition_byte_def fn content mcr_def)
    obtain f1 where f1: "copy_blocks mcr (of_nat s) content b 0 f = Some (f1, m)"
      "holds f1 s m (stored_byte mcr content) f"
      using copy_blocks_ok [of content m s 0 f "stored_byte mcr content" f b mcr] content sn assms(2) holds_empty
      by auto
    have "stored_byte mcr content i = 0" if "1024 * m \<le> i" for i
      using half_swap_ge [OF that] content(2) that by (simp add: stored_byte_def file_byte_def)
    then obtain f2 where "zero_blocks (n - m) (of_nat s) m f1 = Some (f2, n)" "holds f2 s n (stored_byte mcr content) f"
      using zero_blocks_ok [of s m "n - m" f1 "stored_byte mcr content" f] f1(2) sn content(3) by auto
    moreover have "(take 3 (p_name x) = [77, 67, 82]) = mcr" by (simp add: mcr_def)
    moreover have "unat (of_nat s :: u32) = s" by (simp add: s_def)
    ultimately show ?thesis
      using f1(1) by (simp add: make_one_partition_def fn content size start g n_def [symmetric])
  qed
qed

text \<open>The bytes a partition occupies, and partitions side by side.\<close>

definition region :: "part_s \<Rightarrow> nat set" where
  "region x = {1024 * unat (p_start x)..<1024 * (unat (p_start x) + unat (p_size x))}"

definition apart :: "part_s list \<Rightarrow> bool" where
  "apart xs \<longleftrightarrow> pairwise (\<lambda>x y. region x \<inter> region y = {}) (set xs) \<and> distinct xs"

lemma holds_region:
  "holds f' (unat (p_start x)) (unat (p_size x)) g f \<Longrightarrow>
     file_byte f' i = (if i \<in> region x then g (i - 1024 * unat (p_start x)) else file_byte f i)"
  by (auto simp: holds_def region_def)

lemma make_partitions_ok:
  assumes "\<forall>x \<in> set xs. fits fs x" and "length b = 1024" and "apart xs"
  shows "\<exists>f'. make_partitions fs b xs f = Some f' \<and> length f \<le> length f' \<and>
    (\<forall>x \<in> set xs. (\<forall>i \<in> region x. file_byte f' i = partition_byte fs x (i - 1024 * unat (p_start x))) \<and>
       (region x \<noteq> {} \<longrightarrow> 1024 * (unat (p_start x) + unat (p_size x)) \<le> length f')) \<and>
    (\<forall>i. (\<forall>x \<in> set xs. i \<notin> region x) \<longrightarrow> file_byte f' i = file_byte f i)"
  using assms
proof (induction xs arbitrary: f)
  case Nil
  then show ?case by simp
next
  case (Cons x xs)
  obtain f1 where f1: "make_one_partition fs b x f = Some (f1, 0)"
    and h: "holds f1 (unat (p_start x)) (unat (p_size x)) (partition_byte fs x) f"
    using make_one_partition_ok [of fs x b f] Cons.prems by auto
  have len: "length f \<le> length f1" "region x \<noteq> {} \<Longrightarrow> 1024 * (unat (p_start x) + unat (p_size x)) \<le> length f1"
    using h by (cases "unat (p_size x) = 0"; auto simp: holds_def region_def)+
  have ap: "apart xs" "\<And>y. y \<in> set xs \<Longrightarrow> region x \<inter> region y = {}"
    using Cons.prems(3) by (auto simp: apart_def pairwise_insert)
  obtain f' where f': "make_partitions fs b xs f1 = Some f'" "length f1 \<le> length f'"
    "\<And>y i. y \<in> set xs \<Longrightarrow> i \<in> region y \<Longrightarrow> file_byte f' i = partition_byte fs y (i - 1024 * unat (p_start y))"
    "\<And>y. y \<in> set xs \<Longrightarrow> region y \<noteq> {} \<Longrightarrow> 1024 * (unat (p_start y) + unat (p_size y)) \<le> length f'"
    "\<And>i. (\<And>y. y \<in> set xs \<Longrightarrow> i \<notin> region y) \<Longrightarrow> file_byte f' i = file_byte f1 i"
    using Cons.IH [of f1] Cons.prems ap(1) by auto
  have "file_byte f' i = partition_byte fs x (i - 1024 * unat (p_start x))" if "i \<in> region x" for i
    using f'(5) [of i] ap(2) that holds_region [OF h, of i] by auto
  moreover have "file_byte f' i = file_byte f i" if "\<forall>y \<in> set (x # xs). i \<notin> region y" for i
    using f'(5) [of i] that holds_region [OF h, of i] by auto
  moreover have "1024 * (unat (p_start x) + unat (p_size x)) \<le> length f'" if "region x \<noteq> {}"
    using len(2) [OF that] f'(2) by (rule le_trans)
  ultimately show ?case
    using f1 f' len(1) by auto
qed

subsection \<open>Extracting a partition\<close>

definition file_bytes :: "u8 list \<Rightarrow> nat \<Rightarrow> nat \<Rightarrow> u8 list" where
  "file_bytes f off n = map (\<lambda>i. file_byte f (off + i)) [0..<n]"

lemma length_file_bytes [simp]: "length (file_bytes f off n) = n"
  by (simp add: file_bytes_def)

lemma read_block_ok:
  assumes "n < 2 ^ 21" and "1024 * n + 1024 \<le> length f" and "length b = 1024"
  shows "read_block f (of_nat n) b = Some (file_bytes f (1024 * n) 1024, 0)"
proof -
  have "take 1024 (drop (1024 * n) f) = file_bytes f (1024 * n) 1024"
    using assms(2) by (intro nth_equalityI) (auto simp: file_bytes_def file_byte_def)
  moreover obtain w where "c_mul (of_nat n) 1024 = Some w" "unat w = 1024 * n" "\<not> sint w < 0"
    using block_offset [OF assms(1)] by blast
  moreover have "length (file_bytes f (1024 * n) 1024) = 1024" by (simp add: file_bytes_def)
  ultimately show ?thesis using assms(3) by (simp add: read_block_def Let_def)
qed

lemma extract_blocks_ok:
  assumes "s + count + n < 2 ^ 21" and "1024 * (s + count + n) \<le> length f" and "length b = 1024"
  shows "extract_blocks n (of_nat s) count b f (file_bytes f (1024 * s) (1024 * count))
    = Some (file_bytes f (1024 * s) (1024 * (count + n)))"
  using assms
proof (induction n arbitrary: count b)
  case 0
  then show ?case by simp
next
  case (Suc n)
  have split: "file_bytes f (1024 * s) (1024 * Suc count)
      = file_bytes f (1024 * s) (1024 * count) @ file_bytes f (1024 * (s + count)) 1024"
    by (rule nth_equalityI) (auto simp: file_bytes_def nth_append algebra_simps)
  have "c_add (of_nat s) (of_nat count) = Some (of_nat (s + count))" using Suc.prems(1) by (intro block_number) simp
  moreover have "read_block f (of_nat (s + count)) b = Some (file_bytes f (1024 * (s + count)) 1024, 0)"
    using Suc.prems by (intro read_block_ok) simp_all
  moreover have "write_block (of_nat count) (file_bytes f (1024 * (s + count)) 1024) (file_bytes f (1024 * s) (1024 * count))
      = Some (file_bytes f (1024 * s) (1024 * Suc count), 0)"
    unfolding split using write_block_ok [of count] Suc.prems(1) by (simp add: file_write_def)
  moreover have "length (file_bytes f (1024 * (s + count)) 1024) = 1024" by (simp add: file_bytes_def)
  ultimately show ?case
    using Suc.IH [of "Suc count" "file_bytes f (1024 * (s + count)) 1024"] Suc.prems by simp
qed

subsection \<open>A created image, read back\<close>

text \<open>
  A pack that can be laid out: its label fits, block 0 is left to the label, the partitions lie apart
  under different names, and every file is whole blocks that fit its partition.
\<close>

definition layout_ok :: "(cstring \<Rightarrow> u8 list option) \<Rightarrow> pack \<Rightarrow> bool" where
  "layout_ok fs k \<longleftrightarrow> good_pack k \<and> apart (parts k) \<and> distinct (map p_name (parts k)) \<and>
     (\<forall>x \<in> set (parts k). fits fs x \<and> 0 < unat (p_start x) \<and> 0 < unat (p_size x))"

text \<open>The image: label and partitions.\<close>

lemma create_image:
  assumes "layout_ok fs k" and "length b = 1024" and "labl_words k = Some w"
  shows "\<exists>f rest. make_partitions fs b (parts k) (page_bytes w) = Some f \<and> f = page_bytes w @ rest \<and>
    (\<forall>x \<in> set (parts k). \<forall>i < 1024 * unat (p_size x). file_byte f (1024 * unat (p_start x) + i) = partition_byte fs x i) \<and>
    (\<forall>x \<in> set (parts k). 1024 * (unat (p_start x) + unat (p_size x)) \<le> length f)"
proof -
  have fit: "\<forall>x \<in> set (parts k). fits fs x" "apart (parts k)"
    "\<And>x. x \<in> set (parts k) \<Longrightarrow> 0 < unat (p_start x)" "\<And>x. x \<in> set (parts k) \<Longrightarrow> 0 < unat (p_size x)"
    using assms(1) by (simp_all add: layout_ok_def)
  obtain f where f: "make_partitions fs b (parts k) (page_bytes w) = Some f" "1024 \<le> length f"
    "\<And>x i. x \<in> set (parts k) \<Longrightarrow> i \<in> region x \<Longrightarrow> file_byte f i = partition_byte fs x (i - 1024 * unat (p_start x))"
    "\<And>x. x \<in> set (parts k) \<Longrightarrow> region x \<noteq> {} \<Longrightarrow> 1024 * (unat (p_start x) + unat (p_size x)) \<le> length f"
    "\<And>i. (\<And>x. x \<in> set (parts k) \<Longrightarrow> i \<notin> region x) \<Longrightarrow> file_byte f i = file_byte (page_bytes w) i"
    using make_partitions_ok [OF fit(1) assms(2) fit(2), of "page_bytes w"] by auto
  have "i \<notin> region x" if "x \<in> set (parts k)" "i < 1024" for x i
    using fit(3) [OF that(1)] that(2) by (auto simp: region_def)
  then have "take 1024 f = page_bytes w"
    using f(2) f(5) by (intro nth_equalityI) (auto simp: file_byte_def, force)
  then have "f = page_bytes w @ drop 1024 f" by (metis append_take_drop_id)
  moreover have "file_byte f (1024 * unat (p_start x) + i) = partition_byte fs x i"
    if "x \<in> set (parts k)" "i < 1024 * unat (p_size x)" for x i
    using f(3) [OF that(1), of "1024 * unat (p_start x) + i"] that(2) by (simp add: region_def)
  moreover have "region x \<noteq> {}" if "x \<in> set (parts k)" for x using fit(4) [OF that] by (simp add: region_def)
  ultimately show ?thesis using f(1,4) by blast
qed

lemma find_stored_part:
  "distinct (map p_name xs) \<Longrightarrow> x \<in> set xs \<Longrightarrow> find_part (p_name x) (map stored_part xs) = Some (stored_part x)"
  by (induction xs) (auto simp: find_part_def stored_part_def)

text \<open>
  An image that \<open>create_disk\<close> makes from a template gives every partition back: what
  \<open>extract_partition\<close> reads is the file the template names for it (with the halves of its words exchanged when the name
  begins with MCR), then zeros up to the size of the partition. Neither the label nor
  another partition overwrites it.
\<close>

theorem create_then_extract:
  assumes "parse_template (fs tn) k0 = Some k" and "img_filename k = Some img" and "fs img = None"
    and "layout_ok fs k" and "x \<in> set (parts k)" and "length b = 1024" and "length b' = 1024"
  shows "\<exists>f k'. create_disk fs b (Some tn) k0 = Some (Some (k, f, 0)) \<and>
    extract_partition (Some f) (p_name x) b' [] k1
      = Some (k', Some (map (partition_byte fs x) [0..<1024 * unat (p_size x)]), -1) \<and> img_filename k' = img_filename k1"
proof -
  have good: "good_pack k" "length (parts k) \<le> 18" using assms(4) by (simp_all add: layout_ok_def good_pack_def)
  obtain w where w: "labl_words k = Some w" using labl_words_ok [OF good(1)] by blast
  obtain f rest where f: "make_partitions fs b (parts k) (page_bytes w) = Some f" "f = page_bytes w @ rest"
    "\<And>i. i < 1024 * unat (p_size x) \<Longrightarrow> file_byte f (1024 * unat (p_start x) + i) = partition_byte fs x i"
    "1024 * (unat (p_start x) + unat (p_size x)) \<le> length f"
    using create_image [OF assms(4,6) w] assms(5) by blast
  have "create_disk fs b (Some tn) k0 = Some (Some (k, f, 0))"
    using assms(1-3) f(1) by (simp add: create_disk_def make_labl_def w file_write_def)
  moreover have "parse_labl signed_count (buffer_of f) k1 = Some ((stored_pack k)\<lparr>img_filename := img_filename k1\<rparr>, 0)"
    unfolding f(2) by (rule parse_labl_stored [where entries = signed_count, OF good(1) w count_entries(2) [OF good(2)]])
  moreover have "find_part (p_name x) (map stored_part (parts k)) = Some (stored_part x)"
    using assms(4,5) by (intro find_stored_part) (simp_all add: layout_ok_def)
  moreover have small: "unat (p_start x) + unat (p_size x) < 2 ^ 21"
    using assms(4,5) by (auto simp: layout_ok_def fits_def)
  have "sint (p_size x) = int (unat (p_size x))" using small by (intro sint_eq_unat) simp
  then have "nat (sint (p_size x)) = unat (p_size x)" by (simp only: nat_int)
  moreover have "extract_blocks (unat (p_size x)) (p_start x) 0 b' f []
      = Some (map (partition_byte fs x) [0..<1024 * unat (p_size x)])"
    using extract_blocks_ok [of "unat (p_start x)" 0 "unat (p_size x)" f b'] small f(4) assms(7) f(3)
    by (simp add: file_bytes_def)
  moreover have "\<not> length f < 1024" by (simp add: f(2))
  ultimately show ?thesis
    by (simp add: extract_partition_def stored_pack_def stored_part_def)
qed

text \<open>A pack with one partition in block 1, for the examples.\<close>

definition example_part :: part_s where
  "example_part = \<lparr>p_name = cstr ''MCR1'', p_start = 1, p_size = 2, p_type = 0, p_label = replicate 16 0x20,
     p_filename = Some (cstr ''f'')\<rparr>"

definition example_pack :: pack where
  "example_pack = \<lparr>dm_cyls = 815, dm_heads = 19, dm_blocks_per_track = 17, mcr_name = cstr ''MCR1'',
     lod_name = cstr ''LOD1'', brand = Some (cstr ''b''), pack_text = [], comment = cstr ''x.mcr.8'',
     img_filename = Some (cstr ''d''), parts = [example_part]\<rparr>"

lemma example_pack_good: "good_pack example_pack"
  by (simp add: good_pack_def good_part_def example_pack_def example_part_def ascii_def c_mul_def c_int_def)

lemma create_then_extract_witness:
  "\<exists>f k'. create_disk ((\<lambda>n. None)(cstr ''f'' := Some (replicate 1024 7))) (replicate 1024 0) (Some (cstr ''t'')) example_pack
      = Some (Some (example_pack, f, 0)) \<and>
    extract_partition (Some f) (cstr ''MCR1'') (replicate 1024 0) [] example_pack
      = Some (k', Some (map (partition_byte ((\<lambda>n. None)(cstr ''f'' := Some (replicate 1024 7))) example_part) [0..<2048]), -1)"
proof -
  let ?fs = "(\<lambda>n. None)(cstr ''f'' := Some (replicate 1024 7)) :: cstring \<Rightarrow> u8 list option"
  have "fits ?fs example_part"
    by (auto simp: fits_def example_part_def intro!: exI [of _ 1])
  then have "layout_ok ?fs example_pack"
    using example_pack_good by (simp add: layout_ok_def apart_def example_pack_def) (simp add: example_part_def)
  then show ?thesis
    using create_then_extract [of ?fs "cstr ''t''" example_pack example_pack "cstr ''d''" example_part
        "replicate 1024 0" "replicate 1024 0" example_pack]
    by (simp add: parse_template_def, simp add: example_pack_def example_part_def, blast)
qed

subsection \<open>The built-in layout\<close>

lemma fold_add_partition:
  "length (parts k) + length xs \<le> MAX_PARTITIONS \<Longrightarrow>
   fold (\<lambda>(name, start, sz, label, filename) k. fst (add_partition (cstr name) start sz 0 label filename k)) xs k
     = k\<lparr>parts := parts k @ map (\<lambda>(name, start, sz, label, filename).
         \<lparr>p_name = cstr name, p_start = start, p_size = sz, p_type = 0, p_label = pad_label label,
          p_filename = filename\<rparr>) xs\<rparr>"
  by (induction xs arbitrary: k) (auto simp: add_partition_def)

lemma add_partition_keeps:
  "dm_heads (fst (add_partition n s z t l f k)) = dm_heads k"
  "dm_blocks_per_track (fst (add_partition n s z t l f k)) = dm_blocks_per_track k"
  by (simp_all add: add_partition_def)

lemma sorted_apart:
  assumes "sorted_wrt (\<lambda>x y. unat (p_start x) + unat (p_size x) \<le> unat (p_start y)) xs"
    and "list_all (\<lambda>x. 0 < unat (p_size x)) xs"
  shows "apart xs"
  using assms
proof (induction xs)
  case Nil
  then show ?case by (simp add: apart_def)
next
  case (Cons x xs)
  have "region x \<inter> region y = {}" "x \<noteq> y" if "y \<in> set xs" for y
    using that Cons.prems by (auto simp: region_def)
  then show ?case using Cons by (auto simp: apart_def pairwise_insert)
qed

lemma default_parts:
  "parts (default_template k) = map (\<lambda>(name, start, sz, label, filename).
         \<lparr>p_name = cstr name, p_start = start, p_size = sz, p_type = 0, p_label = pad_label label,
          p_filename = filename\<rparr>)
       [(''MCR1'', 0x11, 0x94, cstr ''UCADR 841'', Some (cstr ''../bands/ucadr.mcr.841'')),
        (''MCR2'', 0xA5, 0x94, [], None), (''MCR3'', 0x139, 0x94, [], None),
        (''MCR4'', 0x1CD, 0x94, [], None), (''MCR5'', 0x261, 0x94, [], None),
        (''MCR6'', 0x2F5, 0x94, [], None), (''MCR7'', 0x389, 0x94, [], None),
        (''MCR8'', 0x41D, 0x94, [], None), (''PAGE'', 0x50C, 0xFEDE, [], None),
        (''LOD1'', 0x103EA, 0x5EA1, cstr ''78.48 LMFS 21.34'', Some (cstr ''../bands/system-78-48.LOD'')),
        (''LOD2'', 0x1628B, 0x5EA1, [], None), (''LOD3'', 0x1C12C, 0x5EA1, [], None),
        (''LOD4'', 0x21FCD, 0x5EA1, [], None), (''LOD5'', 0x27E6E, 0x5EA1, [], None),
        (''LOD6'', 0x2DD0F, 0x5EA1, [], None), (''LOD7'', 0x33BB0, 0x5EA1, [], None),
        (''LOD8'', 0x39A51, 0x5EA1, [], None), (''FILE'', 0x3F8F2, 0xB5B, [], None)]"
  unfolding default_template_def Let_def
  by (subst fold_add_partition) (simp_all add: MAX_PARTITIONS_def del: cstr_simps)

text \<open>
  The built-in layout is consistent with its own geometry: its label fits, the 18 partitions have
  different names, lie apart behind block 0, and the last of them ends exactly at the last block of the 815 * 19 * 17 of
  the pack.
\<close>

theorem default_layout:
  "good_pack (default_template k) \<and> apart (parts (default_template k)) \<and>
   distinct (map p_name (parts (default_template k))) \<and>
   list_all (\<lambda>x. 0 < unat (p_start x) \<and> unat (p_start x) + unat (p_size x) \<le> 815 * 19 * 17) (parts (default_template k)) \<and>
   unat (p_start (last (parts (default_template k)))) + unat (p_size (last (parts (default_template k)))) = 815 * 19 * 17"
proof -
  note ps = default_parts [of k]
  have fields: "dm_heads (default_template k) = 19" "dm_blocks_per_track (default_template k) = 17"
    "mcr_name (default_template k) = cstr ''MCR1''" "lod_name (default_template k) = cstr ''LOD1''"
    "brand (default_template k) = Some (cstr ''Trident T-300'')" "pack_text (default_template k) = []"
    "comment (default_template k) = cstr ''../bands/ucadr.mcr.841''"
    by (simp_all add: default_template_def Let_def add_partition_keeps del: cstr_simps)
  have "\<forall>x \<in> set (parts (default_template k)). good_part x"
    unfolding ps by (simp add: good_part_def ascii_def pad_label_def)
  moreover have "length (parts (default_template k)) = 18" unfolding ps by simp
  ultimately have "good_pack (default_template k)"
    unfolding good_pack_def fields by (simp add: ascii_def c_mul_def c_int_def)
  moreover have "apart (parts (default_template k))"
    unfolding ps by (rule sorted_apart) (simp_all del: cstr_simps)
  moreover have "distinct (map p_name (parts (default_template k)))" unfolding ps by simp
  moreover have "list_all (\<lambda>x. 0 < unat (p_start x) \<and> unat (p_start x) + unat (p_size x) \<le> 815 * 19 * 17) (parts (default_template k))"
    unfolding ps by (simp del: cstr_simps)
  moreover have "unat (p_start (last (parts (default_template k)))) + unat (p_size (last (parts (default_template k)))) = 815 * 19 * 17"
    unfolding ps by (simp del: cstr_simps)
  ultimately show ?thesis by blast
qed

subsection \<open>The words of a partition\<close>

lemma file_word:
  assumes "4 * i + 4 \<le> length f"
  shows "buffer_of f i = bytes_word (map (\<lambda>m. file_byte f (4 * i + m)) [0..<4])"
proof -
  have "take 4 (drop (4 * i) f) = map (\<lambda>m. file_byte f (4 * i + m)) [0..<4]"
    using assms by (intro nth_equalityI) (auto simp: file_byte_def)
  then show ?thesis by (simp only: buffer_of_def)
qed

text \<open>Word \<open>i\<close> of a partition, little-endian.\<close>

definition partition_word :: "(cstring \<Rightarrow> u8 list option) \<Rightarrow> part_s \<Rightarrow> nat \<Rightarrow> u32" where
  "partition_word fs x i = bytes_word (map (\<lambda>m. partition_byte fs x (4 * i + m)) [0..<4])"

lemma image_word:
  assumes "\<And>i. i < 1024 * unat (p_size x) \<Longrightarrow> file_byte f (1024 * unat (p_start x) + i) = partition_byte fs x i"
    and "1024 * (unat (p_start x) + unat (p_size x)) \<le> length f" and "i < 256 * unat (p_size x)"
  shows "buffer_of f (256 * unat (p_start x) + i) = partition_word fs x i"
proof -
  have "map (\<lambda>m. file_byte f (4 * (256 * unat (p_start x) + i) + m)) [0..<4] = map (\<lambda>m. partition_byte fs x (4 * i + m)) [0..<4]"
  proof (rule map_cong)
    fix m assume "m \<in> set [0..<4::nat]"
    then have "4 * i + m < 1024 * unat (p_size x)" using assms(3) by simp
    then show "file_byte f (4 * (256 * unat (p_start x) + i) + m) = partition_byte fs x (4 * i + m)"
      using assms(1) [of "4 * i + m"] by (simp add: algebra_simps)
  qed simp
  moreover have "4 * (256 * unat (p_start x) + i) + 4 \<le> length f" using assms(2,3) by simp
  ultimately show ?thesis by (simp only: file_word partition_word_def)
qed

lemma overlay_page:
  assumes "1024 * n + 1024 \<le> length f" and "i < 256"
  shows "overlay (take 1024 (drop (1024 * n) f)) b i = buffer_of f (256 * n + i)"
proof -
  have "take 4 (drop (4 * i) (take 1024 (drop (1024 * n) f))) = take 4 (drop (4 * (256 * n + i)) f)"
    using assms by (intro nth_equalityI) (simp_all add: algebra_simps)
  moreover have "4 \<le> length (drop (4 * i) (take 1024 (drop (1024 * n) f)))" using assms by simp
  ultimately show ?thesis using assms(2) by (simp only: overlay_def buffer_of_def take_append) simp
qed

end
