(* ===== verification/Usim_Symbols.thy ===== *)
theory Usim_Symbols
  imports Usim_Text "HOL-Library.Multiset"
begin

section \<open>Microcode symbols (syms.c)\<close>

text \<open>
  A symbol table is a linked list, the newest symbol first, and once it has been sorted a
  vector of the same symbols by value. Memory is taken to be available to \<open>malloc\<close>.
\<close>

record sym_s =
  sym_name :: cstring
  sym_v :: u32
  mtype :: nat

record symtab_s =
  tab_name :: "cstring option"
  syms :: "sym_s list"
  sorted_syms :: "sym_s list option"

definition no_symbols :: symtab_s where
  "no_symbols = \<lparr>tab_name = None, syms = [], sorted_syms = None\<rparr>"

definition sym_add :: "nat \<Rightarrow> cstring \<Rightarrow> u32 \<Rightarrow> symtab_s \<Rightarrow> symtab_s" where
  "sym_add memory name v tab = tab\<lparr>syms := \<lparr>sym_name = name, sym_v = v, mtype = memory\<rparr> # syms tab\<rparr>"

definition sym_find_val :: "symtab_s \<Rightarrow> nat \<Rightarrow> u32 \<Rightarrow> cstring option" where
  "sym_find_val tab memory v = map_option sym_name (find (\<lambda>s. sym_v s = v \<and> mtype s = memory) (syms tab))"

definition sym_find_name :: "symtab_s \<Rightarrow> cstring \<Rightarrow> u32 option" where
  "sym_find_name tab name = map_option sym_v (find (\<lambda>s. strcasecmp_eq name (sym_name s)) (syms tab))"

text \<open>
  The loop of \<open>_sym_find_last\<close>. \<open>seen\<close> holds the symbols before index \<open>i\<close>, the nearest first:
  the inner loop goes back through them and leaves the vector when there is none of the
  memory. The value inside is the name and \<open>*poffset\<close>, \<open>None\<close> for the null pointer.
\<close>

fun find_last_loop :: "nat \<Rightarrow> u32 \<Rightarrow> sym_s list \<Rightarrow> sym_s list \<Rightarrow> (cstring \<times> u32) option option" where
  "find_last_loop memory v seen [] = Some None"
| "find_last_loop memory v seen (s # ss) =
     (if mtype s \<noteq> memory then find_last_loop memory v (s # seen) ss
      else if v = sym_v s then Some (Some (sym_name s, 0))
      else if v < sym_v s \<or> ss = []
      then do {
        p \<leftarrow> find (\<lambda>x. mtype x = memory) seen;
        Some (Some (sym_name p, v - sym_v p))
      }
      else find_last_loop memory v (s # seen) ss)"

definition sym_find_nearest :: "symtab_s \<Rightarrow> nat \<Rightarrow> u32 \<Rightarrow> (cstring \<times> u32) option option" where
  "sym_find_nearest tab memory v =
    (case sorted_syms tab of None \<Rightarrow> Some None | Some xs \<Rightarrow> find_last_loop memory v [] xs)"

subsection \<open>Reading a symbol file\<close>

definition symbol_types :: "(cstring \<times> nat) list" where
  "symbol_types = [(cstr ''I-MEM'', 1), (cstr ''D-MEM'', 2), (cstr ''A-MEM'', 4), (cstr ''M-MEM'', 5), (cstr ''NUMBER'', 6)]"

definition symbol_type :: "cstring \<Rightarrow> nat" where
  "symbol_type t = (case map_of symbol_types t of None \<Rightarrow> 0 | Some n \<Rightarrow> n)"

text \<open>
  One line: \<open>sscanf(line, "%s %s %o", sym, symtype, &loc)\<close> into arrays of 64 characters; a
  longer word overflows them. A line without three fields is skipped.
\<close>

definition sym_read_line :: "u8 list \<Rightarrow> symtab_s \<Rightarrow> symtab_s option" where
  "sym_read_line chunk tab =
    (case scan_s (strdup chunk) of
       None \<Rightarrow> Some tab
     | Some (name, r1) \<Rightarrow>
        if 64 \<le> length name then None
        else (case scan_s r1 of
                None \<Rightarrow> Some tab
              | Some (ty, r2) \<Rightarrow>
                 if 64 \<le> length ty then None
                 else (case scan_octal r2 of
                         None \<Rightarrow> Some tab
                       | Some (loc, _) \<Rightarrow> Some (sym_add (symbol_type ty) name loc tab))))"

primrec sym_read_lines :: "u8 list list \<Rightarrow> symtab_s \<Rightarrow> symtab_s option" where
  "sym_read_lines [] tab = Some tab"
| "sym_read_lines (l # ls) tab = do { t \<leftarrow> sym_read_line l tab; sym_read_lines ls t }"

definition sym_read_file :: "cstring \<Rightarrow> u8 list option \<Rightarrow> symtab_s \<Rightarrow> (symtab_s \<times> int) option" where
  "sym_read_file filename file tab =
    (case file of
       None \<Rightarrow> Some (tab, -1)
     | Some f \<Rightarrow> do {
         t \<leftarrow> sym_read_lines (drop 3 (fgets_lines 8192 f)) (tab\<lparr>tab_name := Some filename\<rparr>);
         Some (t, 0)
       })"

text \<open>\<open>qsort\<close> is a parameter: it promises a permutation, ascending by value, and no more.\<close>

definition sym_sort :: "(sym_s list \<Rightarrow> sym_s list) \<Rightarrow> symtab_s \<Rightarrow> symtab_s" where
  "sym_sort qsort tab = tab\<lparr>sorted_syms := Some (qsort (syms tab))\<rparr>"

definition sorts :: "(sym_s list \<Rightarrow> sym_s list) \<Rightarrow> bool" where
  "sorts qsort \<longleftrightarrow> (\<forall>xs. mset (qsort xs) = mset xs \<and> sorted (map sym_v (qsort xs)))"

record symbols =
  sym_prom :: symtab_s
  sym_mcr :: symtab_s

definition read_sym_files ::
  "(sym_s list \<Rightarrow> sym_s list) \<Rightarrow> (cstring \<Rightarrow> u8 list option) \<Rightarrow> cstring \<Rightarrow> cstring \<Rightarrow> symbols \<Rightarrow> symbols option" where
  "read_sym_files qsort fs promsym mcrsym t = do {
     (p, _) \<leftarrow> sym_read_file promsym (fs promsym) (sym_prom t);
     (m, _) \<leftarrow> sym_read_file mcrsym (fs mcrsym) (sym_mcr t);
     Some (t\<lparr>sym_prom := sym_sort qsort p, sym_mcr := sym_sort qsort m\<rparr>)
   }"

definition sym_table :: "bool \<Rightarrow> symbols \<Rightarrow> symtab_s" where
  "sym_table mcr t = (if mcr then sym_mcr t else sym_prom t)"

definition sym_find :: "symbols \<Rightarrow> bool \<Rightarrow> cstring \<Rightarrow> u32 option" where
  "sym_find t mcr name = sym_find_name (sym_table mcr t) name"

definition sym_find_by_val :: "symbols \<Rightarrow> bool \<Rightarrow> u32 \<Rightarrow> cstring option" where
  "sym_find_by_val t mcr v = sym_find_val (sym_table mcr t) 1 v"

definition sym_find_by_type_val :: "symbols \<Rightarrow> bool \<Rightarrow> nat \<Rightarrow> u32 \<Rightarrow> cstring option" where
  "sym_find_by_type_val t mcr ty v = sym_find_val (sym_table mcr t) ty v"

definition sym_find_last :: "symbols \<Rightarrow> bool \<Rightarrow> u32 \<Rightarrow> (cstring \<times> u32) option option" where
  "sym_find_last t mcr v = sym_find_nearest (sym_table mcr t) 1 v"

subsection \<open>The symbol below an address\<close>

lemma find_last_loop_ok:
  assumes "sorted (map sym_v (rev seen @ rest))" and "\<forall>y \<in> set seen. mtype y = m \<longrightarrow> sym_v y < v"
    and "a \<in> set seen \<union> set rest" "mtype a = m" "sym_v a \<le> v" and "c \<in> set rest" "mtype c = m" "v < sym_v c"
  shows "\<exists>x \<in> set seen \<union> set rest. mtype x = m \<and> sym_v x \<le> v \<and>
    (\<forall>y \<in> set seen \<union> set rest. mtype y = m \<longrightarrow> sym_v y \<le> v \<longrightarrow> sym_v y \<le> sym_v x) \<and>
    find_last_loop m v seen rest = Some (Some (sym_name x, v - sym_v x))"
  using assms
proof (induction rest arbitrary: seen)
  case Nil
  then show ?case by simp
next
  case (Cons s ss)
  have sorted: "\<And>y. y \<in> set ss \<Longrightarrow> sym_v s \<le> sym_v y" "\<And>y. y \<in> set seen \<Longrightarrow> sym_v y \<le> sym_v s"
    "sorted (map sym_v (rev seen))"
    using Cons.prems(1) by (auto simp: sorted_append)
  have next_step: "\<exists>x \<in> set (s # seen) \<union> set ss. mtype x = m \<and> sym_v x \<le> v \<and>
    (\<forall>y \<in> set (s # seen) \<union> set ss. mtype y = m \<longrightarrow> sym_v y \<le> v \<longrightarrow> sym_v y \<le> sym_v x) \<and>
    find_last_loop m v (s # seen) ss = Some (Some (sym_name x, v - sym_v x))"
    if "mtype s = m \<longrightarrow> sym_v s < v"
    using Cons.IH [of "s # seen"] Cons.prems that by auto
  consider "mtype s \<noteq> m" | "mtype s = m" "v = sym_v s" | "mtype s = m" "v < sym_v s"
    | "mtype s = m" "sym_v s < v" by (meson linorder_cases)
  then show ?case
  proof cases
    case 1
    then show ?thesis using next_step by simp
  next
    case 2
    then show ?thesis using Cons.prems(2) by auto
  next
    case 3
    then have "a \<in> set seen" using Cons.prems(3,5) sorted(1) by force
    then obtain x where x: "find (\<lambda>x. mtype x = m) seen = Some x"
      using Cons.prems(4) by (cases "find (\<lambda>x. mtype x = m) seen") (auto simp: find_None_iff)
    then obtain i where i: "i < length seen" "mtype (seen ! i) = m" "x = seen ! i" "\<And>j. j < i \<Longrightarrow> mtype (seen ! j) \<noteq> m"
      by (auto simp: find_Some_iff)
    have max: "sym_v y \<le> sym_v x" if y: "y \<in> set seen" "mtype y = m" for y
    proof -
      obtain j where j: "j < length seen" "y = seen ! j" using y(1) by (auto simp: in_set_conv_nth)
      then have "i \<le> j" using i(4) [of j] y(2) by force
      moreover have "sorted_wrt (\<lambda>u w. w \<le> u) (map sym_v seen)"
        using sorted(3) by (simp only: rev_map [symmetric] sorted_wrt_rev)
      ultimately show ?thesis
        using i(1,3) j sorted_wrt_nth_less [of "\<lambda>u w. w \<le> u" "map sym_v seen" i j]
        by (cases "i = j") auto
    qed
    have "x \<in> set seen" using i by auto
    then have "sym_v x < v" using Cons.prems(2) i by auto
    moreover have "\<not> sym_v y \<le> v" if "y \<in> set (s # ss)" for y
      using that 3 sorted(1) [of y] by auto
    ultimately show ?thesis
      using 3 x i \<open>x \<in> set seen\<close> max by (intro bexI [of _ x]) auto
  next
    case 4
    then have "ss \<noteq> []" using Cons.prems(6,8) by auto
    then show ?thesis using next_step 4 by auto
  qed
qed

text \<open>
  C21. \<open>_sym_find_last\<close> on a sorted table, for whatever order \<open>qsort\<close> gives equal symbols: when the
  memory has a symbol at or below the address and one above it, the answer is a symbol of
  the memory with the greatest value that is not above the address, and the distance to it.
\<close>

theorem sym_find_last_nearest:
  assumes "sorts qsort" and "a \<in> set (syms tab)" "mtype a = m" "sym_v a \<le> v"
    and "c \<in> set (syms tab)" "mtype c = m" "v < sym_v c"
  shows "\<exists>x \<in> set (syms tab). mtype x = m \<and> sym_v x \<le> v \<and>
    (\<forall>y \<in> set (syms tab). mtype y = m \<longrightarrow> sym_v y \<le> v \<longrightarrow> sym_v y \<le> sym_v x) \<and>
    sym_find_nearest (sym_sort qsort tab) m v = Some (Some (sym_name x, v - sym_v x))"
proof -
  have "set (qsort (syms tab)) = set (syms tab)"
    using assms(1) by (metis sorts_def set_mset_mset)
  moreover have "sorted (map sym_v (qsort (syms tab)))" using assms(1) by (simp add: sorts_def)
  ultimately show ?thesis
    using find_last_loop_ok [of "[]" "qsort (syms tab)" m v a c] assms(2-7)
    by (simp add: sym_find_nearest_def sym_sort_def)
qed

lemma sort_key_sorts: "sorts (sort_key sym_v)"
  by (simp add: sorts_def)

lemma sym_find_last_nearest_witness:
  "sym_find_nearest (sym_sort (sort_key sym_v) (sym_add 1 [66] 20 (sym_add 1 [65] 10 no_symbols))) 1 13 = Some (Some ([65], 3))"
proof -
  let ?t = "sym_add 1 [66] 20 (sym_add 1 [65] 10 no_symbols)"
  have "\<exists>x \<in> set (syms ?t). mtype x = 1 \<and> sym_v x \<le> 13 \<and>
    (\<forall>y \<in> set (syms ?t). mtype y = 1 \<longrightarrow> sym_v y \<le> 13 \<longrightarrow> sym_v y \<le> sym_v x) \<and>
    sym_find_nearest (sym_sort (sort_key sym_v) ?t) 1 13 = Some (Some (sym_name x, 13 - sym_v x))"
    by (rule sym_find_last_nearest [OF sort_key_sorts, of "\<lparr>sym_name = [65], sym_v = 10, mtype = 1\<rparr>" _ _ _
          "\<lparr>sym_name = [66], sym_v = 20, mtype = 1\<rparr>"])
      (simp_all add: sym_add_def no_symbols_def)
  then show ?thesis by (auto simp: sym_add_def no_symbols_def)
qed

subsection \<open>A symbol file, written and read\<close>

definition type_name :: "nat \<Rightarrow> cstring" where
  "type_name n = (if n = 1 then cstr ''I-MEM'' else if n = 2 then cstr ''D-MEM'' else if n = 4 then cstr ''A-MEM''
     else if n = 5 then cstr ''M-MEM'' else cstr ''NUMBER'')"

definition symbol_line :: "sym_s \<Rightarrow> u8 list" where
  "symbol_line s = sym_name s @ [32] @ type_name (mtype s) @ [32] @ print_octal (sym_v s) @ [10]"

definition good_symbol :: "sym_s \<Rightarrow> bool" where
  "good_symbol s \<longleftrightarrow> sym_name s \<noteq> [] \<and> ascii (sym_name s) \<and> list_all (\<lambda>c. \<not> is_space c) (sym_name s) \<and>
     length (sym_name s) < 64 \<and> mtype s \<in> {1, 2, 4, 5, 6}"

lemma scan_s_word:
  assumes "w \<noteq> []" and "list_all (\<lambda>c. \<not> is_space c) w" and "is_space c"
  shows "scan_s (w @ c # r) = Some (w, c # r)" "scan_s (32 # w @ c # r) = Some (w, c # r)"
proof -
  have "takeWhile (\<lambda>c. \<not> is_space c) (w @ c # r) = w"
    using assms by (subst takeWhile_append2) (auto simp: list_all_iff)
  moreover have "skip_space (w @ c # r) = w @ c # r"
    using assms by (cases w) (auto simp: skip_space_def)
  moreover have "skip_space (32 # xs) = skip_space xs" for xs by (simp add: skip_space_def is_space_def)
  ultimately show "scan_s (w @ c # r) = Some (w, c # r)" "scan_s (32 # w @ c # r) = Some (w, c # r)"
    using assms(1) by (simp_all add: scan_s_def Let_def)
qed

lemma type_name_word:
  "type_name n \<noteq> []" "list_all (\<lambda>c. \<not> is_space c) (type_name n)" "length (type_name n) < 64"
  "n \<in> {1, 2, 4, 5, 6} \<Longrightarrow> symbol_type (type_name n) = n"
  by (auto simp: type_name_def is_space_def symbol_type_def symbol_types_def)

lemma strdup_line:
  "good_symbol s \<Longrightarrow> strdup (symbol_line s) = symbol_line s"
proof -
  assume s: "good_symbol s"
  have "list_all (digit 8) (print_octal (sym_v s))"
    using digits_of_digits [of 8 "unat (sym_v s)"] by (simp add: print_octal_def)
  then have "0 \<notin> set (print_octal (sym_v s))" by (auto simp: list_all_iff digit_def)
  moreover have "0 \<notin> set (type_name n)" for n by (simp add: type_name_def)
  moreover have "0 \<notin> set (sym_name s)" using s by (auto simp: good_symbol_def ascii_def)
  ultimately have "\<forall>c \<in> set (symbol_line s). c \<noteq> 0" by (auto simp: symbol_line_def)
  then show ?thesis by (simp add: strdup_def takeWhile_eq_all_conv)
qed

lemma sym_read_symbol_line:
  assumes "good_symbol s"
  shows "sym_read_line (symbol_line s) tab = Some (sym_add (mtype s) (sym_name s) (sym_v s) tab)"
proof -
  have name: "sym_name s \<noteq> []" "list_all (\<lambda>c. \<not> is_space c) (sym_name s)" "length (sym_name s) < 64"
    "mtype s \<in> {1, 2, 4, 5, 6}" using assms by (simp_all add: good_symbol_def)
  let ?r = "32 # print_octal (sym_v s) @ [10]"
  have "scan_s (symbol_line s) = Some (sym_name s, 32 # type_name (mtype s) @ ?r)"
    using scan_s_word(1) [OF name(1,2), of 32] by (simp add: symbol_line_def is_space_def)
  moreover have "scan_s (32 # type_name (mtype s) @ ?r) = Some (type_name (mtype s), ?r)"
    using scan_s_word(2) [OF type_name_word(1,2), of 32] by (simp add: is_space_def)
  moreover have "scan_octal ?r = Some (sym_v s, [10])"
    by (rule scan_octal_printed) (simp add: digit_def)
  ultimately show ?thesis
    using name type_name_word(3,4) [of "mtype s"] strdup_line [OF assms] by (simp add: sym_read_line_def not_le)
qed

lemma sym_read_symbol_lines:
  "list_all good_symbol xs \<Longrightarrow> \<exists>t. sym_read_lines (map symbol_line xs) tab = Some t \<and> syms t = rev xs @ syms tab"
proof (induction xs arbitrary: tab)
  case (Cons s xs)
  then show ?case
    using Cons.IH [of "sym_add (mtype s) (sym_name s) (sym_v s) tab"]
    by (auto simp: sym_read_symbol_line sym_add_def)
qed simp

text \<open>
  C23. A symbol file is read back: three heading lines of any text are skipped, and every line
  "name, memory, octal value" becomes a symbol with that name, memory and value, the last line first.
\<close>

theorem symbol_file_roundtrip:
  assumes "list_all good_symbol xs" and "list_all (\<lambda>l. 10 \<notin> set l \<and> length l < 8190) [h1, h2, h3]"
  shows "\<exists>t. sym_read_file fn (Some (concat (map (\<lambda>l. l @ [10]) [h1, h2, h3]) @ concat (map symbol_line xs))) no_symbols
      = Some (t, 0) \<and> syms t = rev xs"
proof -
  define body where "body = (\<lambda>s :: sym_s. sym_name s @ [32] @ type_name (mtype s) @ [32] @ print_octal (sym_v s))"
  have line: "symbol_line = (\<lambda>s. body s @ [10])" by (simp add: symbol_line_def body_def fun_eq_iff)
  have "10 \<notin> set (body s) \<and> length (body s) + 2 \<le> 8192" if s: "good_symbol s" for s
  proof -
    have ds: "list_all (digit 8) (print_octal (sym_v s))"
      using digits_of_digits [of 8 "unat (sym_v s)"] by (simp add: print_octal_def)
    have "unat (sym_v s) < 2 ^ 32" using unsigned_less [of "sym_v s", where 'a = nat] by simp
    then have "unat (sym_v s) < 8 ^ Suc 10" by simp
    then have "length (print_octal (sym_v s)) \<le> Suc 10" unfolding print_octal_def by (intro length_digits_of) simp_all
    moreover have "10 \<notin> set (print_octal (sym_v s))" using ds by (auto simp: list_all_iff digit_def)
    moreover have "10 \<notin> set (sym_name s)" "10 \<notin> set (type_name n)" for n
      using s by (auto simp: good_symbol_def list_all_iff is_space_def type_name_def)
    ultimately show ?thesis
      using s type_name_word(3) [of "mtype s"] by (simp add: good_symbol_def body_def)
  qed
  then have "fgets_lines 8192 (concat (map (\<lambda>l. l @ [10]) (map body xs)) @ []) = map (\<lambda>l. l @ [10]) (map body xs) @ []"
    using assms(1) by (subst fgets_lines_concat) (auto simp: list_all_iff)
  then have "fgets_lines 8192 (concat (map symbol_line xs)) = map symbol_line xs" by (simp add: line comp_def)
  then have "drop 3 (fgets_lines 8192 (concat (map (\<lambda>l. l @ [10]) [h1, h2, h3]) @ concat (map symbol_line xs)))
      = map symbol_line xs"
    using assms(2) by (subst fgets_lines_concat) auto
  then show ?thesis
    using sym_read_symbol_lines [OF assms(1), of "no_symbols\<lparr>tab_name := Some fn\<rparr>"]
    by (auto simp: sym_read_file_def no_symbols_def)
qed

lemma symbol_file_roundtrip_witness:
  "\<exists>t. sym_read_file [102] (Some ([10, 10, 10] @ symbol_line \<lparr>sym_name = cstr ''A-ZERO'', sym_v = 2, mtype = 4\<rparr>)) no_symbols = Some (t, 0)
     \<and> syms t = [\<lparr>sym_name = cstr ''A-ZERO'', sym_v = 2, mtype = 4\<rparr>]"
proof -
  have "good_symbol \<lparr>sym_name = cstr ''A-ZERO'', sym_v = 2, mtype = 4\<rparr>"
    by (simp add: good_symbol_def ascii_def is_space_def)
  then show ?thesis
    using symbol_file_roundtrip [of "[\<lparr>sym_name = cstr ''A-ZERO'', sym_v = 2, mtype = 4\<rparr>]" "[]" "[]" "[]" "[102]"] by simp
qed

end
