(* ===== verification/Usim_Mcr.thy ===== *)
theory Usim_Mcr
  imports Usim_Text
begin

section \<open>Microcode files (decode.c, readmcr.c)\<close>

text \<open>
  A microcode file is a sequence of sections, each with a code, a start address and a size. \<open>readmcr.c\<close>
  dumps it, \<open>read_prom_files\<close> of \<open>decode.c\<close> loads the PROM from its first section. Both
  exit when a read meets the end of the file: inside the option for undefined behaviour,
  \<open>None\<close> is \<open>exit(1)\<close>.
\<close>

subsection \<open>Halfwords and words\<close>

text \<open>\<open>needswap\<close> is true in \<open>decode.c\<close> and, unless the option \<open>-b\<close> is given, in \<open>readmcr.c\<close>.\<close>

fun read16 :: "bool \<Rightarrow> u8 list \<Rightarrow> (u32 \<times> u8 list) option" where
  "read16 needswap (b0 # b1 # f) =
     Some (if needswap then push_bit 8 (ucast b1) OR ucast b0 else push_bit 8 (ucast b0) OR ucast b1, f)"
| "read16 needswap _ = None"

fun read32 :: "bool \<Rightarrow> u8 list \<Rightarrow> (u32 \<times> u8 list) option" where
  "read32 needswap (b0 # b1 # b2 # b3 # f) =
     Some (if needswap
           then push_bit 24 (ucast b1) OR push_bit 16 (ucast b0) OR push_bit 8 (ucast b3) OR ucast b2
           else push_bit 24 (ucast b3) OR push_bit 16 (ucast b2) OR push_bit 8 (ucast b1) OR ucast b0, f)"
| "read32 needswap _ = None"

text \<open>Four halfwords, the most significant first.\<close>

definition read_ucw :: "bool \<Rightarrow> u8 list \<Rightarrow> (u64 \<times> u8 list) option" where
  "read_ucw needswap f = do {
     (w1, f1) \<leftarrow> read16 needswap f;
     (w2, f2) \<leftarrow> read16 needswap f1;
     (w3, f3) \<leftarrow> read16 needswap f2;
     (w4, f4) \<leftarrow> read16 needswap f3;
     Some (push_bit 48 (ucast w1) OR push_bit 32 (ucast w2) OR push_bit 16 (ucast w3) OR ucast w4, f4)
   }"

text \<open>\<open>n\<close> words into an array of \<open>cap\<close> words, from \<open>loc\<close> on.\<close>

primrec load_words ::
  "nat \<Rightarrow> bool \<Rightarrow> nat \<Rightarrow> u32 \<Rightarrow> u8 list \<Rightarrow> u64 arr \<Rightarrow> (u64 arr \<times> u8 list) option option" where
  "load_words cap needswap 0 loc f a = Some (Some (a, f))"
| "load_words cap needswap (Suc n) loc f a =
     (case read_ucw needswap f of
        None \<Rightarrow> Some None
      | Some (w, f1) \<Rightarrow> do {
          a1 \<leftarrow> st cap a (unat loc) w;
          load_words cap needswap n (loc + 1) f1 a1
        })"

definition read_prom_files :: "(cstring \<Rightarrow> u8 list option) \<Rightarrow> u64 arr \<Rightarrow> u64 arr option option" where
  "read_prom_files fs prom =
    (case fs (cstr ''../bands/promh.mcr.9'') of
       None \<Rightarrow> Some None
     | Some f \<Rightarrow>
        (case do { (code, f1) \<leftarrow> read32 True f; (start, f2) \<leftarrow> read32 True f1; (sz, f3) \<leftarrow> read32 True f2; Some (start, sz, f3) } of
           None \<Rightarrow> Some None
         | Some (start, sz, f3) \<Rightarrow> do {
             r \<leftarrow> load_words 512 True (unat sz) start f3 prom;
             Some (map_option fst r)
           }))"

subsection \<open>The dump (readmcr.c)\<close>

text \<open>Printing: octal with leading zeros up to a width (\<open>%03o\<close>, \<open>%016Lo\<close>).\<close>

definition pad_octal :: "nat \<Rightarrow> nat \<Rightarrow> cstring" where
  "pad_octal width n = (let ds = digits_of 8 n in replicate (width - length ds) 48 @ ds)"

text \<open>
  State of the dump: the rest of the file, the microcode array, the text printed.
\<close>

record dump =
  dfile :: "u8 list"
  ducode :: "u64 arr"
  out :: cstring

definition print :: "cstring \<Rightarrow> dump \<Rightarrow> dump" where
  "print s d = d\<lparr>out := out d @ s\<rparr>"

primrec dump_i_words :: "bool \<Rightarrow> bool \<Rightarrow> nat \<Rightarrow> u32 \<Rightarrow> dump \<Rightarrow> dump option option" where
  "dump_i_words needswap showmcr 0 loc d = Some (Some d)"
| "dump_i_words needswap showmcr (Suc n) loc d =
     (case read_ucw needswap (dfile d) of
        None \<Rightarrow> Some None
      | Some (ll, f1) \<Rightarrow> do {
          let d1 = d\<lparr>dfile := f1\<rparr>;
          let d2 = (if showmcr then print (pad_octal 3 (unat loc) @ [32] @ pad_octal 16 (unat ll) @ [10]) d1 else d1);
          a \<leftarrow> st 16384 (ducode d2) (unat loc) ll;
          dump_i_words needswap showmcr n (loc + 1) (d2\<lparr>ducode := a\<rparr>)
        })"

definition dump_i_mem :: "bool \<Rightarrow> bool \<Rightarrow> u32 \<Rightarrow> u32 \<Rightarrow> dump \<Rightarrow> dump option option" where
  "dump_i_mem needswap showmcr start sz d = dump_i_words needswap showmcr (nat (sint sz)) start d"

primrec skip_d_words :: "nat \<Rightarrow> u8 list \<Rightarrow> u8 list option" where
  "skip_d_words 0 f = Some f"
| "skip_d_words (Suc n) f = do {
     (_, f1) \<leftarrow> read16 True f;
     (_, f2) \<leftarrow> read16 True f1;
     skip_d_words n f2
   }"

definition dump_d_mem :: "u32 \<Rightarrow> dump \<Rightarrow> dump option" where
  "dump_d_mem sz d = do { f \<leftarrow> skip_d_words (nat (sint sz)) (dfile d); Some (d\<lparr>dfile := f\<rparr>) }"

primrec dump_a_words :: "bool \<Rightarrow> nat \<Rightarrow> nat \<Rightarrow> dump \<Rightarrow> dump option" where
  "dump_a_words needswap 0 i d = Some d"
| "dump_a_words needswap (Suc n) i d = do {
     (v, f) \<leftarrow> read32 needswap (dfile d);
     let d1 = d\<lparr>dfile := f\<rparr>;
     let shown = ((0xE7 \<le> i \<and> i \<le> 0x100) \<or> (0x180 \<le> i \<and> i \<le> 0x188) \<or> i < 8);
     dump_a_words needswap n (i + 1)
       (if shown then print (digits_of 8 i @ cstr '' <- '' @ print_octal v @ [10]) d1 else d1)
   }"

definition dump_a_mem :: "bool \<Rightarrow> u32 \<Rightarrow> u32 \<Rightarrow> dump \<Rightarrow> dump option" where
  "dump_a_mem needswap start sz d =
     dump_a_words needswap (nat (sint sz)) 0
       (print (cstr ''a-memory; start '' @ print_octal start @ cstr '', size '' @ print_octal sz @ [10]) d)"

definition dump_main_mem :: "bool \<Rightarrow> u32 \<Rightarrow> u32 \<Rightarrow> dump \<Rightarrow> dump option" where
  "dump_main_mem needswap start sz d = do {
     (_, f) \<leftarrow> read32 needswap (dfile d);
     Some (print (cstr ''start '' @ print_decimal start @ cstr '', size '' @ print_decimal sz @ [10]) (d\<lparr>dfile := f\<rparr>))
   }"

text \<open>
  One section: the header, then the dump its code selects; the flag says that the loop is
  done (after the A memory). Other codes are passed over.
\<close>

definition dump_section :: "bool \<Rightarrow> bool \<Rightarrow> dump \<Rightarrow> (dump \<times> bool) option option" where
  "dump_section needswap showmcr d =
    (case do { (code, f1) \<leftarrow> read32 needswap (dfile d); (start, f2) \<leftarrow> read32 needswap f1;
               (sz, f3) \<leftarrow> read32 needswap f2; Some (code, start, sz, f3) } of
       None \<Rightarrow> Some None
     | Some (code, start, sz, f3) \<Rightarrow>
        (let d1 = print (cstr ''code '' @ print_decimal code @ cstr '', start '' @ print_octal start
                         @ cstr '', size '' @ print_octal sz @ [10]) (d\<lparr>dfile := f3\<rparr>) in
         if code = 1 then do {
           r \<leftarrow> dump_i_mem needswap showmcr start sz (print (cstr ''i-memory'' @ [10]) d1);
           Some (map_option (\<lambda>d. (d, False)) r)
         }
         else if code = 2 then Some (map_option (\<lambda>d. (d, False)) (dump_d_mem sz (print (cstr ''d-memory'' @ [10]) d1)))
         else if code = 3 then
           Some (map_option (\<lambda>d. (d, False)) (dump_main_mem needswap start sz (print (cstr ''main-memory'' @ [10]) d1)))
         else if code = 4 then
           Some (map_option (\<lambda>d. (d, True)) (dump_a_mem needswap start sz (print (cstr ''a-memory'' @ [10]) d1)))
         else Some (Some (d1, False))))"

text \<open>
  The loop over the sections, with a bound on their number: every section takes 12 bytes or
  more, so the length of the file is enough. The last component says that the A memory was
  reached.
\<close>

primrec dump_sections :: "nat \<Rightarrow> bool \<Rightarrow> bool \<Rightarrow> dump \<Rightarrow> (dump \<times> bool) option option" where
  "dump_sections 0 needswap showmcr d = Some (Some (d, False))"
| "dump_sections (Suc n) needswap showmcr d = do {
     r \<leftarrow> dump_section needswap showmcr d;
     (case r of
        None \<Rightarrow> Some None
      | Some (d1, True) \<Rightarrow> Some (Some (d1, True))
      | Some (d1, False) \<Rightarrow> dump_sections n needswap showmcr d1)
   }"

text \<open>\<open>main\<close> after its options: \<open>-s\<close> skips words first (a negative number skips up to the end of the file).\<close>

primrec skip_words :: "nat \<Rightarrow> bool \<Rightarrow> u8 list \<Rightarrow> u8 list option" where
  "skip_words 0 needswap f = Some f"
| "skip_words (Suc n) needswap f = do { (_, f1) \<leftarrow> read32 needswap f; skip_words n needswap f1 }"

definition readmcr :: "bool \<Rightarrow> bool \<Rightarrow> u32 \<Rightarrow> u8 list \<Rightarrow> (dump \<times> bool) option option" where
  "readmcr needswap showmcr skip f =
    (if sint skip < 0 then Some None
     else (case skip_words (unat skip) needswap f of
             None \<Rightarrow> Some None
           | Some f1 \<Rightarrow> dump_sections (length f1 + 1) needswap showmcr \<lparr>dfile = f1, ducode = (\<lambda>i. 0), out = []\<rparr>))"

subsection \<open>The dump ends\<close>

lemma read16_length: "read16 w f = Some (v, g) \<Longrightarrow> length f = length g + 2"
  by (induction w f rule: read16.induct) auto

lemma read32_length: "read32 w f = Some (v, g) \<Longrightarrow> length f = length g + 4"
  by (induction w f rule: read32.induct) auto

lemma read_ucw_length: "read_ucw w f = Some (v, g) \<Longrightarrow> length f = length g + 8"
  by (auto simp: read_ucw_def dest!: read16_length split: bind_splits)

lemma dump_i_words_length:
  "dump_i_words w sh n loc d = Some (Some d') \<Longrightarrow> length (dfile d') \<le> length (dfile d)"
proof (induction n arbitrary: loc d)
  case (Suc n)
  then show ?case
    by (fastforce simp: Let_def print_def dest: read_ucw_length dest!: Suc.IH split: option.splits bind_splits if_splits)
qed simp

lemma skip_d_words_length: "skip_d_words n f = Some g \<Longrightarrow> length g \<le> length f"
  by (induction n arbitrary: f) (fastforce dest: read16_length split: bind_splits)+

lemma dump_a_words_length: "dump_a_words w n i d = Some d' \<Longrightarrow> length (dfile d') \<le> length (dfile d)"
proof (induction n arbitrary: i d)
  case (Suc n)
  then show ?case
    by (fastforce simp: Let_def print_def dest: read32_length dest!: Suc.IH split: bind_splits if_splits)
qed simp

lemma dump_section_length:
  assumes "dump_section w sh d = Some (Some (d', e))"
  shows "length (dfile d') + 12 \<le> length (dfile d)"
proof -
  obtain code f1 start f2 sz f3 where h: "read32 w (dfile d) = Some (code, f1)" "read32 w f1 = Some (start, f2)"
    "read32 w f2 = Some (sz, f3)"
    using assms by (auto simp: dump_section_def split: bind_splits option.splits)
  have "length (dfile d') \<le> length f3"
    using assms h
    by (auto simp: dump_section_def Let_def dump_i_mem_def dump_d_mem_def dump_a_mem_def dump_main_mem_def print_def
        dest!: dump_i_words_length skip_d_words_length dump_a_words_length read32_length
        split: if_splits bind_splits option.splits)
  with read32_length [OF h(1)] read32_length [OF h(2)] read32_length [OF h(3)] show ?thesis by simp
qed


subsection \<open>A PROM image is loaded\<close>

definition bytes16 :: "u32 \<Rightarrow> u8 list" where
  "bytes16 w = [ucast w, ucast (drop_bit 8 w)]"

text \<open>In the file, a word is two halfwords with the significant one first, each with its low byte first.\<close>

definition bytes32 :: "u32 \<Rightarrow> u8 list" where
  "bytes32 v = bytes16 (drop_bit 16 v) @ bytes16 v"

definition bytes_ucw :: "u64 \<Rightarrow> u8 list" where
  "bytes_ucw w = bytes16 (ucast (drop_bit 48 w)) @ bytes16 (ucast (drop_bit 32 w))
     @ bytes16 (ucast (drop_bit 16 w)) @ bytes16 (ucast w)"

definition mcr_section :: "u32 \<Rightarrow> u32 \<Rightarrow> u64 list \<Rightarrow> u8 list" where
  "mcr_section code start ws = bytes32 code @ bytes32 start @ bytes32 (of_nat (length ws)) @ concat (map bytes_ucw ws)"

lemma read16_bytes16: "read16 True (bytes16 w @ f) = Some (w AND 0xFFFF, f)"
proof -
  have "push_bit 8 (ucast (ucast (drop_bit 8 w) :: u8)) OR ucast (ucast w :: u8) = w AND mask 16"
    by (rule bit_word_eqI) (auto simp: bit_simps)
  then show ?thesis by (simp add: bytes16_def mask_num)
qed

lemma read32_bytes32: "read32 True (bytes32 v @ f) = Some (v, f)"
proof -
  have "push_bit 24 (ucast (ucast (drop_bit 8 (drop_bit 16 v)) :: u8)) OR push_bit 16 (ucast (ucast (drop_bit 16 v) :: u8))
      OR push_bit 8 (ucast (ucast (drop_bit 8 v) :: u8)) OR ucast (ucast v :: u8) = v"
    (is "?l = v")
  proof (rule bit_word_eqI)
    fix n :: nat
    assume "n < LENGTH(32)"
    then consider "n < 8" | "8 \<le> n" "n < 16" | "16 \<le> n" "n < 24" | "24 \<le> n" "n < 32"
      by fastforce
    then show "bit ?l n = bit v n" by cases (auto simp: bit_simps simp del: drop_bit_drop_bit)
  qed
  then show ?thesis by (simp add: bytes32_def bytes16_def)
qed

lemma read_ucw_bytes: "read_ucw True (bytes_ucw w @ f) = Some (w, f)"
proof -
  have "push_bit 48 (ucast (ucast (drop_bit 48 w) AND 0xFFFF :: u32)) OR push_bit 32 (ucast (ucast (drop_bit 32 w) AND 0xFFFF :: u32))
      OR push_bit 16 (ucast (ucast (drop_bit 16 w) AND 0xFFFF :: u32)) OR ucast (ucast w AND 0xFFFF :: u32) = w"
    (is "?l = w")
  proof (rule bit_word_eqI)
    fix n :: nat
    assume "n < LENGTH(64)"
    then consider "n < 16" | "16 \<le> n" "n < 32" | "32 \<le> n" "n < 48" | "48 \<le> n" "n < 64"
      by fastforce
    then show "bit ?l n = bit w n" by cases (auto simp: mask_num bit_simps)
  qed
  then show ?thesis by (simp add: read_ucw_def bytes_ucw_def read16_bytes16)
qed

lemma load_words_ok:
  assumes "unat loc + length ws \<le> cap" and "cap \<le> 2 ^ 14"
  shows "load_words cap True (length ws) loc (concat (map bytes_ucw ws) @ f) a
    = Some (Some (\<lambda>i. if unat loc \<le> i \<and> i < unat loc + length ws then ws ! (i - unat loc) else a i, f))"
  using assms
proof (induction ws arbitrary: loc a)
  case Nil
  then show ?case by (auto simp: fun_eq_iff)
next
  case (Cons w ws)
  have loc: "unat (loc + 1) = unat loc + 1" using Cons.prems by (simp add: unat_word_ariths)
  define a1 where "a1 = a(unat loc := w)"
  have "load_words cap True (length ws) (loc + 1) (concat (map bytes_ucw ws) @ f) a1 = Some (Some (\<lambda>i.
      if unat loc + 1 \<le> i \<and> i < unat loc + 1 + length ws then ws ! (i - (unat loc + 1)) else a1 i, f))"
    using Cons.IH [of "loc + 1" a1] Cons.prems by (simp only: loc) simp
  moreover have "(\<lambda>i. if unat loc + 1 \<le> i \<and> i < unat loc + 1 + length ws then ws ! (i - (unat loc + 1)) else a1 i)
      = (\<lambda>i. if unat loc \<le> i \<and> i < unat loc + length (w # ws) then (w # ws) ! (i - unat loc) else a i)"
    by (auto simp: fun_eq_iff a1_def nth_Cons')
  ultimately show ?case
    using Cons.prems by (simp add: read_ucw_bytes flip: a1_def)
qed

text \<open>
  C22. \<open>read_prom_files\<close> loads the PROM of a microcode file: the words of its first section appear at
  the start address of the section, in order, and the rest of the PROM is as it was, as
  long as the section fits the 512 words.
\<close>

theorem prom_roundtrip:
  assumes "fs (cstr ''../bands/promh.mcr.9'') = Some (mcr_section code start ws @ rest)"
    and "unat start + length ws \<le> 512"
  shows "read_prom_files fs prom
    = Some (Some (\<lambda>i. if unat start \<le> i \<and> i < unat start + length ws then ws ! (i - unat start) else prom i))"
proof -
  have "unat (of_nat (length ws) :: u32) = length ws" using assms(2) by (intro unat_of_nat_small) simp
  then show ?thesis
    using assms load_words_ok [of start ws 512 rest prom]
    by (simp add: read_prom_files_def mcr_section_def read32_bytes32)
qed

lemma prom_roundtrip_witness:
  "\<exists>p. read_prom_files ((\<lambda>n. None)(cstr ''../bands/promh.mcr.9'' := Some (mcr_section 1 3 [0x1234567890AB, 7]))) (\<lambda>i. 0)
      = Some (Some p) \<and> p 3 = 0x1234567890AB \<and> p 4 = 7 \<and> p 5 = 0"
  using prom_roundtrip [of "(\<lambda>n. None)(cstr ''../bands/promh.mcr.9'' := Some (mcr_section 1 3 [0x1234567890AB, 7]))"
      1 3 "[0x1234567890AB, 7]" "[]" "\<lambda>i. 0"] by simp

end
