(* ===== verification/Usim_Boot.thy ===== *)
theory Usim_Boot
  imports Usim_Invariant Usim_Image Usim_Symbols Usim_Mcr
begin

section \<open>Start of the simulator (disk.c, usim.c)\<close>

text \<open>
  \<open>disk_init\<close> maps the disk image and reads its label; \<open>boot\<close> is the order in which \<open>main\<close>
  of \<open>usim.c\<close> sets everything up before it calls \<open>run\<close>. As elsewhere, \<open>None\<close> inside the
  option is \<open>exit(1)\<close>.
\<close>

definition LABEL_BLANK :: u32 where
  "LABEL_BLANK = 0x80402010"

text \<open>\<open>strstr\<close> and \<open>memcpy\<close> on the first \<open>.mcr.\<close> of a name.\<close>

fun replace_mcr :: "cstring \<Rightarrow> cstring" where
  "replace_mcr [] = []"
| "replace_mcr (c # cs) =
     (if take 5 (c # cs) = cstr ''.mcr.'' then cstr ''.sym.'' @ drop 5 (c # cs) else c # replace_mcr cs)"

text \<open>
  \<open>file\<close> is the descriptor and the contents of the image if it can be opened; the result, the disk, the name \<open>mcrsym_filename\<close>
  gets from the comment of the label (\<open>None\<close>: it keeps its value), and the value returned.
\<close>

definition disk_init :: "(u32 \<times> u8 list) option \<Rightarrow> disk \<Rightarrow> (disk \<times> cstring option \<times> int) option option" where
  "disk_init file d =
    (case file of
       None \<Rightarrow> Some None
     | Some (fd, f) \<Rightarrow> do {
         let d1 = d\<lparr>disk_fd := fd, disk_mm := buffer_of f, disk_mm_words := length f div 4\<rparr>;
         label \<leftarrow> disk_read 0 d1;
         if label ! 0 \<noteq> LABEL_LABL then Some (Some (d1\<lparr>disk_fd := 0\<rparr>, None, -1))
         else do {
           let d2 = d1\<lparr>cyls := label ! 2, heads := label ! 3, blocks_per_track := label ! 4\<rparr>;
           if label ! 0x18 \<noteq> 0 \<and> label ! 0x18 \<noteq> LABEL_BLANK then do {
             fn \<leftarrow> c_string (\<lambda>i. label ! i) 96;
             Some (Some (d2, Some (replace_mcr fn), 0))
           }
           else Some (Some (d2, None, 0))
         }
       })"

record start_options =
  disk_filename :: cstring
  save_state_opt :: bool
  warm_boot_opt :: bool

text \<open>
  \<open>main\<close> without the loop: the options set their flags (\<open>-s\<close> sets one that is never read, \<open>-l\<close> opens a serial port first), then the window is polled once, the disk,
  the PROM, the symbols, the I/O board, the Chaosnet and the Ethernet interface are set up, and
  a warm boot presses its key. \<open>char_signed\<close> is the signedness of \<open>char\<close>, \<open>qsort\<close> that of the C
  library.
\<close>

definition boot ::
  "start_options \<Rightarrow> (cstring \<Rightarrow> u8 list option) \<Rightarrow> u32 \<Rightarrow> (sym_s list \<Rightarrow> sym_s list) \<Rightarrow> bool \<Rightarrow> world
     \<Rightarrow> machine \<Rightarrow> (machine \<times> symbols) option option" where
  "boot opt fs fd qsort char_signed w s0 = do {
     let s1 = s0\<lparr>save_state_flag := save_state_opt opt, warm_boot_flag := warm_boot_opt opt\<rparr>;
     s2 \<leftarrow> tv_poll w s1;
     r \<leftarrow> disk_init (map_option (Pair fd) (fs (disk_filename opt))) (disk s2);
     (case r of
        None \<Rightarrow> Some None
      | Some (d, mcrsym, _) \<Rightarrow> do {
          let s3 = s2\<lparr>disk := d\<rparr>;
          p \<leftarrow> read_prom_files fs (prom_ucode (cpu s3));
          (case p of
             None \<Rightarrow> Some None
           | Some prom \<Rightarrow> do {
               let s4 = s3\<lparr>cpu := (cpu s3)\<lparr>prom_ucode := prom\<rparr>\<rparr>;
               t \<leftarrow> read_sym_files qsort fs (cstr ''../bands/promh.sym.9'')
                     (case mcrsym of None \<Rightarrow> cstr ''../bands/ucadr.sym.841'' | Some n \<Rightarrow> n)
                     \<lparr>sym_prom = no_symbols, sym_mcr = no_symbols\<rparr>;
               b \<leftarrow> iob_init char_signed (\<lambda>n. sym_find t True (cstr n)) (iob s4);
               let (c, _) = chaos_init (sock w) (chaos b);
               let (e, _) = ether_init (ether s4);
               let (k, i) = (if warm_boot_flag s4 then kbd_warm_boot_key (kbd b) (intr s4) else (kbd b, intr s4));
               Some (Some (s4\<lparr>iob := b\<lparr>chaos := c, kbd := k\<rparr>, ether := e, intr := i\<rparr>, t))
             })
        })
   }"

text \<open>The first word of a comment of ASCII characters is neither 0 nor \<open>LABEL_BLANK\<close>.\<close>

lemma comment_word:
  assumes "c_string b 96 = Some c" and "ascii c" and "c \<noteq> []"
  shows "b 24 \<noteq> 0" "b 24 \<noteq> LABEL_BLANK"
proof -
  note s = c_string_bytes [OF assms(1)]
  have "byte_at b 96 = c ! 0" using s(1) [of 0] assms(3) by simp
  moreover have "c ! 0 \<in> set c" using assms(3) by simp
  then have "c ! 0 \<noteq> 0" using assms(2) by (auto simp: ascii_def)
  ultimately have "byte_at b 96 \<noteq> 0" by simp
  then show "b 24 \<noteq> 0" by (auto simp: byte_at_def)
  show "b 24 \<noteq> LABEL_BLANK"
  proof
    assume "b 24 = LABEL_BLANK"
    then have v: "byte_at b 96 = 0x10" "byte_at b 97 = 0x20" "byte_at b 98 = 0x40" "byte_at b 99 = 0x80"
      by (simp_all add: byte_at_def LABEL_BLANK_def)
    have "3 < length c"
    proof (rule ccontr)
      assume "\<not> 3 < length c"
      then consider "length c = 0" | "length c = 1" | "length c = 2" | "length c = 3" by linarith
      then show False using s(2) v by cases simp_all
    qed
    then have "c ! 3 = 0x80" using s(1) [of 3] v by simp
    moreover have "c ! 3 < 0x80" using assms(2) \<open>3 < length c\<close> by (simp add: ascii_def)
    ultimately show False by simp
  qed
qed

lemma tv_poll_keeps: "tv_poll w s = Some s' \<Longrightarrow> cpu s' = cpu s \<and> mem s' = mem s"
proof -
  have ev: "x11_events es t = Some t' \<Longrightarrow> cpu t' = cpu t \<and> mem t' = mem t" for es t t'
    by (induction es arbitrary: t)
      (fastforce simp: x11_handle_def Let_def split: xevent.splits bind_splits prod.splits)+
  show "tv_poll w s = Some s' \<Longrightarrow> cpu s' = cpu s \<and> mem s' = mem s"
    by (auto simp: tv_poll_def x11_event_def Let_def dest!: ev
        split: if_splits bind_splits prod.splits)
qed

lemma kbd_init_ring: "kbd_init cs k = Some k' \<Longrightarrow> ring_inv k' = ring_inv k"
  by (auto simp: kbd_init_def ring_inv_def queue_items_def split: bind_splits)

lemma boot_inv:
  assumes "boot opt fs fd qsort cs w s0 = Some (Some (s, t))" and "machine_inv s0"
  shows "machine_inv s \<and> mem s = mem s0"
proof -
  obtain s2 where s2: "tv_poll w (s0\<lparr>save_state_flag := save_state_opt opt, warm_boot_flag := warm_boot_opt opt\<rparr>) = Some s2"
    using assms(1) by (auto simp: boot_def Let_def split: bind_splits)
  have "device_inv s2" "cpu_inv (cpu s2)" "mem s2 = mem s0"
    using tv_poll_inv [OF s2] tv_poll_keeps [OF s2] assms(2) by (simp_all add: machine_inv_def device_inv_def)
  then show ?thesis
    using assms(1) s2
    by (auto simp: boot_def iob_init_def Let_def machine_inv_def device_inv_def cpu_inv_def kbd_warm_boot_key_def kbd_init_ring
        dest!: kbd_key_event_inv split: bind_splits option.splits prod.splits if_splits)
qed

text \<open>
  From the start of the program to its end: whatever state \<open>main\<close> sets up, with any disk
  image, PROM and symbol files, the states of the loop of \<open>run\<close> keep the invariant of the machine (consistent interrupt
  status, memory, key queue, stack pointers in their range), for any outside and any timer signals.
\<close>

theorem booted_invariant:
  assumes "boot opt fs fd qsort cs w (machine_start h) = Some (Some (s, t))" and "reachable s sl"
  shows "machine_inv (fst sl)"
  using reachable_invariant [OF assms(2)] boot_inv [OF assms(1) machine_start_inv] by simp

lemma disk_read_mapped:
  assumes "disk_mm d = buffer_of f" and "disk_mm_words d = length f div 4" and "disk_byteswap d = 0"
    and "n < 2 ^ 21" and "1024 * (n + 1) \<le> length f"
  shows "disk_read (of_nat n) d = Some (map (\<lambda>k. buffer_of f (256 * n + k)) [0..<256])"
proof -
  obtain w where w: "c_mul (of_nat n) 1024 = Some w" "unat w = 1024 * n" "\<not> sint w < 0"
    using block_offset [OF assms(4)] by blast
  have "sint w = int (unat w)" using w(2) assms(4) by (intro sint_eq_unat) simp
  then have "nat (sint w) = 1024 * n" using w(2) by simp
  moreover have "1024 * n + 1024 \<le> 4 * (length f div 4)"
    using div_le_mono [OF assms(5), of 4] by simp
  ultimately show ?thesis using assms w by (simp add: disk_read_def image_index_def)
qed

lemma disk_init_labelled:
  assumes "disk_read 0 (d\<lparr>disk_fd := fd, disk_mm := buffer_of f, disk_mm_words := length f div 4\<rparr>) = Some L"
    and "L ! 0 = LABEL_LABL" and "L ! 24 \<noteq> 0" and "L ! 24 \<noteq> LABEL_BLANK" and "c_string (\<lambda>i. L ! i) 96 = Some c"
  shows "disk_init (Some (fd, f)) d = Some (Some (d\<lparr>disk_fd := fd, disk_mm := buffer_of f, disk_mm_words := length f div 4,
    cyls := L ! 2, heads := L ! 3, blocks_per_track := L ! 4\<rparr>, Some (replace_mcr c), 0))"
  using assms(2-4) by (simp only: disk_init_def option.case prod.case Let_def assms(1,5) bind.bind_lunit simp_thms if_False if_True not_False_eq_True)

text \<open>
  C4. A pack that the image tool makes from a template is one the simulator accepts: \<open>disk_init\<close> finds its
  label, takes the geometry from it, derives the name of the symbol file from its comment, and each block of a
  partition that \<open>_disk_read\<close> then reads holds the words of the file the template named for it.
\<close>

theorem made_pack_boots:
  assumes "parse_template (fs tn) k0 = Some k" and "img_filename k = Some img" and "fs img = None"
    and "layout_ok fs k" and "length b = 1024" and "comment k \<noteq> []" and "disk_byteswap d0 = 0"
  shows "\<exists>f d. create_disk fs b (Some tn) k0 = Some (Some (k, f, 0)) \<and>
    disk_init (Some (fd, f)) d0 = Some (Some (d, Some (replace_mcr (comment k)), 0)) \<and>
    cyls d = dm_cyls k \<and> heads d = dm_heads k \<and> blocks_per_track d = dm_blocks_per_track k \<and>
    (\<forall>x \<in> set (parts k). \<forall>j < unat (p_size x). disk_read (p_start x + of_nat j) d
       = Some (map (\<lambda>i. partition_word fs x (256 * j + i)) [0..<256]))"
proof -
  have good: "good_pack k" using assms(4) by (simp add: layout_ok_def)
  obtain w where w: "labl_words k = Some w" and c: "Some (w 0) = str4 (cstr ''LABL'')" "w 2 = dm_cyls k" "w 3 = dm_heads k"
      "w 4 = dm_blocks_per_track k" "c_string w 96 = Some (comment k)"
    using labl_words_ok [OF good] by blast
  obtain f rest where f: "make_partitions fs b (parts k) (page_bytes w) = Some f" "f = page_bytes w @ rest"
    and x: "\<And>x i. x \<in> set (parts k) \<Longrightarrow> i < 1024 * unat (p_size x) \<Longrightarrow> file_byte f (1024 * unat (p_start x) + i) = partition_byte fs x i"
    "\<And>x. x \<in> set (parts k) \<Longrightarrow> 1024 * (unat (p_start x) + unat (p_size x)) \<le> length f"
    using create_image [OF assms(4,5) w] by blast
  have made: "create_disk fs b (Some tn) k0 = Some (Some (k, f, 0))"
    using assms(1-3) f(1) by (simp add: create_disk_def make_labl_def w file_write_def)
  define d1 where "d1 = d0\<lparr>disk_fd := fd, disk_mm := buffer_of f, disk_mm_words := length f div 4\<rparr>"
  define d where "d = d1\<lparr>cyls := dm_cyls k, heads := dm_heads k, blocks_per_track := dm_blocks_per_track k\<rparr>"
  have bw: "buffer_of f i = w i" if "i < 256" for i using that by (simp add: f(2) buffer_of_page_bytes)
  have "1024 \<le> length f" by (simp add: f(2))
  define L where "L = map w [0..<256]"
  have nth: "L ! i = w i" if "i < 256" for i using that by (simp add: L_def)
  have lab: "disk_read 0 d1 = Some L"
    using disk_read_mapped [of d1 f 0] \<open>1024 \<le> length f\<close> bw assms(7) by (simp add: d1_def L_def cong: map_cong)
  have l0: "L ! 0 = LABEL_LABL"
    using c(1) by (simp add: nth str4_ascii ascii_def LABEL_LABL_def bytes_word_def)
  have l24: "L ! 24 \<noteq> 0" "L ! 24 \<noteq> LABEL_BLANK"
    using comment_word [OF c(5)] good assms(6) by (simp_all add: good_pack_def nth)
  have "map (byte_at (\<lambda>i. L ! i)) [off..<1024] = map (byte_at w) [off..<1024]" for off
    by (rule map_cong) (auto simp: byte_at_def nth less_mult_imp_div_less)
  then have cs: "c_string (\<lambda>i. L ! i) 96 = Some (comment k)" using c(5) by (simp only: c_string_def)
  have "L ! 2 = dm_cyls k" "L ! 3 = dm_heads k" "L ! 4 = dm_blocks_per_track k" by (simp_all add: nth c)
  then have init: "disk_init (Some (fd, f)) d0 = Some (Some (d, Some (replace_mcr (comment k)), 0))"
    using disk_init_labelled [OF lab [unfolded d1_def] l0 l24 cs] by (simp only: d_def d1_def)
  have "disk_read (p_start x + of_nat j) d = Some (map (\<lambda>i. partition_word fs x (256 * j + i)) [0..<256])"
    if xj: "x \<in> set (parts k)" "j < unat (p_size x)" for x j
  proof -
    let ?n = "unat (p_start x) + j"
    have small: "unat (p_start x) + unat (p_size x) < 2 ^ 21" using assms(4) xj by (auto simp: layout_ok_def fits_def)
    have "disk_read (of_nat ?n) d = Some (map (\<lambda>k. buffer_of f (256 * ?n + k)) [0..<256])"
      using small xj(2) x(2) [OF xj(1)] assms(7) by (intro disk_read_mapped) (simp_all add: d_def d1_def)
    moreover have "buffer_of f (256 * ?n + i) = partition_word fs x (256 * j + i)" if "i < 256" for i
      using image_word [of x f fs "256 * j + i", OF x(1) x(2)] xj that by (simp add: algebra_simps)
    ultimately show ?thesis by simp
  qed
  then show ?thesis using made init by (fastforce simp: d_def)
qed

lemma run_start_defined: "mem s = mem_start h \<Longrightarrow> run_start s \<noteq> None"
  using write_phy_mem_ram [OF mem_start_inv [of h], where p = 0 and v = 0]
  by (auto simp: run_start_def ram_addr_def)

definition example_files :: "cstring \<Rightarrow> u8 list option" where
  "example_files = (\<lambda>n. None)(cstr ''disk.img'' := Some (replicate 1024 0),
     cstr ''../bands/promh.mcr.9'' := Some (mcr_section 1 0 [5]))"

lemma disk_init_unlabelled:
  assumes "disk_read 0 (d\<lparr>disk_fd := fd, disk_mm := buffer_of f, disk_mm_words := length f div 4\<rparr>) = Some L"
    and "L ! 0 \<noteq> LABEL_LABL"
  shows "disk_init (Some (fd, f)) d
    = Some (Some (d\<lparr>disk_fd := 0, disk_mm := buffer_of f, disk_mm_words := length f div 4\<rparr>, None, -1))"
  using assms by (simp add: disk_init_def)

lemma example_prom: "\<exists>p. read_prom_files example_files prom = Some (Some p)"
proof -
  have "example_files (cstr ''../bands/promh.mcr.9'') = Some (mcr_section 1 0 [5] @ [])"
    by (simp add: example_files_def)
  then show ?thesis
    using load_words_ok [of 0 "[5]" 512 "[]" prom] by (simp add: read_prom_files_def mcr_section_def read32_bytes32)
qed

lemma example_disk:
  assumes "disk_byteswap d = 0"
  shows "\<exists>d'. disk_init (Some (3, replicate 1024 0)) d = Some (Some (d', None, -1))"
proof -
  define f :: "u8 list" where "f = replicate 1024 0"
  have len: "length f = 1024" and "buffer_of f 0 = 0"
    by (simp_all add: f_def buffer_of_def numeral_eq_Suc bytes_word_def)
  define L where "L = map (buffer_of f) [0..<256]"
  have "disk_read 0 (d\<lparr>disk_fd := 3, disk_mm := buffer_of f, disk_mm_words := length f div 4\<rparr>) = Some L"
    using disk_read_mapped [of _ f 0] assms by (simp add: len L_def)
  moreover have "L ! 0 \<noteq> LABEL_LABL" using \<open>buffer_of f 0 = 0\<close> by (simp add: L_def LABEL_LABL_def)
  ultimately show ?thesis using disk_init_unlabelled unfolding f_def by blast
qed

lemma example_boot:
  "\<exists>s t. boot \<lparr>disk_filename = cstr ''disk.img'', save_state_opt = False, warm_boot_opt = True\<rparr> example_files 3 id False
     quiet_world (machine_start h) = Some (Some (s, t))"
proof -
  have f: "example_files (cstr ''disk.img'') = Some (replicate 1024 0)" "example_files (cstr ''../bands/promh.sym.9'') = None"
    "example_files (cstr ''../bands/ucadr.sym.841'') = None"
    by (simp_all add: example_files_def)
  obtain d where d: "disk_init (Some (3, replicate 1024 0)) (disk (machine_start h)) = Some (Some (d, None, -1))"
    using example_disk [of "disk (machine_start h)"] by (auto simp: machine_start_def)
  obtain p where p: "read_prom_files example_files (prom_ucode (cpu (machine_start h))) = Some (Some p)"
    using example_prom by blast
  show ?thesis
    by (auto simp: boot_def tv_poll_def x11_event_def quiet_world_def f d p read_sym_files_def sym_read_file_def
       iob_init_def kbd_init_def okb_init_us_table Let_def simp del: cstr_simps split: prod.splits)
qed

lemma booted_invariant_witness:
  "\<exists>s t sl. boot \<lparr>disk_filename = cstr ''disk.img'', save_state_opt = False, warm_boot_opt = True\<rparr> example_files 3 id False
     quiet_world (machine_start (\<lambda>a i. 0)) = Some (Some (s, t)) \<and> reachable s sl \<and> machine_inv (fst sl)"
proof -
  obtain s t where b: "boot \<lparr>disk_filename = cstr ''disk.img'', save_state_opt = False, warm_boot_opt = True\<rparr> example_files 3 id False
     quiet_world (machine_start (\<lambda>a i. 0)) = Some (Some (s, t))" using example_boot by blast
  have "mem s = mem_start (\<lambda>a i. 0)" using boot_inv [OF b machine_start_inv] by (simp add: machine_start_def)
  then obtain sl where "run_start s = Some sl" using run_start_defined by blast
  then have "reachable s sl" by (rule reachable.start)
  then show ?thesis using b booted_invariant [OF b] by blast
qed

lemma made_pack_boots_witness:
  "\<exists>f d. create_disk ((\<lambda>n. None)(cstr ''f'' := Some (replicate 1024 7))) (replicate 1024 0) (Some (cstr ''t'')) example_pack
      = Some (Some (example_pack, f, 0)) \<and>
    disk_init (Some (3, f)) (disk (machine_start (\<lambda>a i. 0))) = Some (Some (d, Some (cstr ''x.sym.8''), 0)) \<and>
    cyls d = 815 \<and> disk_read 1 d = Some (replicate 256 0x07070707)"
proof -
  let ?fs = "(\<lambda>n. None)(cstr ''f'' := Some (replicate 1024 7)) :: cstring \<Rightarrow> u8 list option"
  have "fits ?fs example_part"
    by (auto simp: fits_def example_part_def intro!: exI [of _ 1])
  then have "layout_ok ?fs example_pack"
    using example_pack_good by (simp add: layout_ok_def apart_def example_pack_def) (simp add: example_part_def)
  then obtain f d where fd: "create_disk ?fs (replicate 1024 0) (Some (cstr ''t'')) example_pack = Some (Some (example_pack, f, 0))"
    "disk_init (Some (3, f)) (disk (machine_start (\<lambda>a i. 0))) = Some (Some (d, Some (replace_mcr (comment example_pack)), 0))"
    "cyls d = dm_cyls example_pack"
    "\<forall>x \<in> set (parts example_pack). \<forall>j < unat (p_size x). disk_read (p_start x + of_nat j) d
       = Some (map (\<lambda>i. partition_word ?fs x (256 * j + i)) [0..<256])"
    using made_pack_boots [of ?fs "cstr ''t''" example_pack example_pack "cstr ''d''" "replicate 1024 0" "disk (machine_start (\<lambda>a i. 0))" 3]
    by (auto simp: parse_template_def example_pack_def machine_start_def)
  have "disk_read (p_start example_part + of_nat 0) d = Some (map (\<lambda>i. partition_word ?fs example_part (256 * 0 + i)) [0..<256])"
    by (rule fd(4) [rule_format]) (simp_all add: example_pack_def example_part_def)
  moreover
  have "partition_word ?fs example_part i = 0x07070707" if "i < 256" for i
    using that by (simp add: partition_word_def partition_byte_def example_part_def stored_byte_def file_byte_def half_swap_def bytes_word_def)
  then have "map (\<lambda>i. partition_word ?fs example_part (256 * 0 + i)) [0..<256] = replicate 256 0x07070707"
    by (intro nth_equalityI) simp_all
  ultimately have "disk_read 1 d = Some (replicate 256 0x07070707)" by (simp add: example_part_def)
  then show ?thesis using fd(1-3) by (simp add: example_pack_def)
qed

end
