(* ===== verification/Usim_Disasm.thy ===== *)
theory Usim_Disasm
  imports Usim_Exec Usim_Mcr
begin

section \<open>Disassembly of micro-instructions (decode.c)\<close>

text \<open>
  What \<open>disassemble_ucode_loc\<close> prints, as a function of the instruction word. The lemmas compare
  the names it prints with what the processor does.
\<close>

text \<open>Hexadecimal (\<open>%04x\<close>); decimal (\<open>%d\<close> of a number that is not negative, \<open>PRIu64\<close>).\<close>

definition pad_hex :: "nat \<Rightarrow> nat \<Rightarrow> cstring" where
  "pad_hex width n =
    (let ds = map (\<lambda>c. if 57 < c then c + 39 else c) (digits_of 16 n) in replicate (width - length ds) 48 @ ds)"

definition dec :: "nat \<Rightarrow> cstring" where
  "dec n = digits_of 10 n"

definition pick :: "u32 \<Rightarrow> (u32 \<times> string) list \<Rightarrow> cstring" where
  "pick c xs = (case map_of xs c of None \<Rightarrow> [] | Some s \<Rightarrow> cstr s)"

definition alu_bool_op :: "string list" where
  "alu_bool_op = [''SETZ'', ''AND'', ''ANDCA'', ''SETM'', ''ANDCM'', ''SETA'', ''XOR'', ''IOR'',
     ''ANDCB'', ''EQV'', ''SETCA'', ''ORCA'', ''SETCM'', ''ORCM'', ''ORCB'', ''SETO'']"

definition alu_arith_op :: "string list" where
  "alu_arith_op = [''-1'', ''(M&A)-1'', ''(M&~A)-1'', ''M-1'', ''M|~A'', ''(M|~A)+(M&A)'', ''M-A-1 [M-A-1]'',
     ''(M|~A)+M'', ''M|A'', ''M+A [ADD]'', ''(M|A)+(M&~A)'', ''(M|A)+M'', ''M'', ''M+(M&A)'', ''M+(M|~A)'', ''M+M'']"

definition disassemble_m_src :: "u64 \<Rightarrow> u32 \<Rightarrow> cstring" where
  "disassemble_m_src u m_src =
    (if m_src AND 0x20 \<noteq> 0 then
       (let f = m_src AND 0x1F in
        if f = 2 then cstr ''PDL-ptr '' @ print_octal (ucast u AND 0x3FF) @ [32]
        else if f = 3 then cstr ''PDL-index '' @ print_octal (ucast u AND 0x3FF) @ [32]
        else if f = 6 then cstr ''OPC register '' @ print_octal (ucast u AND 0x1FFF) @ [32]
        else pick f
          [(0, ''dispatch-constant ''), (1, ''SPC-ptr, spc-data ''), (5, ''PDL-buffer ''), (7, ''Q ''), (8, ''VMA ''),
           (9, ''MAP[MD] ''), (10, ''MD ''), (11, ''LC ''), (12, ''SPC pointer and data, pop ''),
           (20, ''PDL[Pointer], pop ''), (21, ''PDL[Pointer] '')])
     else cstr ''m['' @ print_octal m_src @ cstr ''] '')"

definition disassemble_dest :: "u32 \<Rightarrow> cstring" where
  "disassemble_dest dest =
    (if dest AND 0x800 \<noteq> 0 then cstr ''->a_mem['' @ print_octal (dest AND 0x3FF) @ cstr ''] ''
     else pick (drop_bit 5 dest)
       [(0, ''-><none>''), (1, ''->LC ''), (2, ''->IC ''), (8, ''->PDL[ptr] ''), (9, ''->PDL[ptr],push ''),
        (10, ''->PDL[index] ''), (11, ''->PDL index ''), (12, ''->PDL ptr ''), (13, ''->SPC data,push ''),
        (14, ''->OA-reg-lo ''), (15, ''->OA-reg-hi ''), (16, ''->VMA ''), (17, ''->VMA,start-read ''),
        (18, ''->VMA,start-write ''), (19, ''->VMA,write-map ''), (24, ''->MD ''), (25, ''->MD,start-read ''),
        (26, ''->MD,start-write ''), (27, ''->MD,write-map '')]
       @ cstr '',m['' @ print_octal (dest AND 0x1F) @ cstr ''] '')"

definition disassemble_alu :: "u64 \<Rightarrow> cstring" where
  "disassemble_alu u =
    (if u AND NOP_MASK = 0 then cstr ''no-op''
     else
       (let m_src = ir_field u 26 0x3F; alu_op = ir_field u 3 0xF in
        (if ir_field u 8 1 = 0
         then cstr ((if ir_field u 7 1 = 0 then alu_bool_op else alu_arith_op) ! unat alu_op) @ [32]
         else pick alu_op [(0, ''mult-step ''), (1, ''div-step ''), (5, ''rem-corr ''), (9, ''init-div-step '')])
        @ cstr ''a='' @ print_octal (ir_field u 32 0x3FF) @ cstr '' m='' @ print_octal m_src @ [32]
        @ disassemble_m_src u m_src
        @ cstr (if ir_field u 2 1 \<noteq> 0 then ''C=1 '' else ''C=0 '')
        @ pick (ir_field u 12 3) [(1, ''alu-> ''), (2, ''alu>>+s ''), (3, ''alu<<+q31 '')]
        @ pick (ir_field u 0 3) [(1, ''<<Q ''), (2, ''>>Q ''), (3, ''Q-R '')]
        @ disassemble_dest (ir_field u 14 0xFFF)))"

definition jump_names :: "(u32 \<times> string) list" where
  "jump_names =
    [(0, ''M-src < A-src ''), (1, ''M-src < A-src ''), (2, ''M-src <= A-src ''), (3, ''M-src = A-src ''),
     (4, ''pf ''), (5, ''pf/int ''), (6, ''pf/int/seq ''), (7, ''jump-always '')]"

definition disassemble_jump :: "u64 \<Rightarrow> cstring" where
  "disassemble_jump u =
    cstr ''a='' @ print_octal (ir_field u 32 0x3FF) @ cstr '' m='' @ disassemble_m_src u (ir_field u 26 0x3F)
    @ cstr ''pc '' @ print_octal (ir_field u 12 0x3FFF) @ cstr '', ''
    @ (if ir_field u 9 1 \<noteq> 0 then cstr ''R '' else []) @ (if ir_field u 8 1 \<noteq> 0 then cstr ''P '' else [])
    @ (if ir_field u 7 1 \<noteq> 0 then cstr ''!next '' else [])
    @ (if bit u 6 then cstr ''!jump '' else [])
    @ (if bit u 5 then pick (ir_field u 0 0xF) jump_names else cstr ''m-rot<< '' @ print_octal (ucast u AND 0x1F))"

definition disassemble_dispatch :: "u64 \<Rightarrow> cstring" where
  "disassemble_dispatch u =
    (let m_src = ir_field u 26 0x3F in
     (if ir_field u 25 1 \<noteq> 0 then cstr ''!N+1 '' else []) @ (if ir_field u 24 1 \<noteq> 0 then cstr ''ISH '' else [])
     @ cstr ''m='' @ print_octal m_src @ [32] @ disassemble_m_src u m_src
     @ cstr ''disp-const '' @ print_octal (ir_field u 32 0x3FF) @ cstr '', disp-addr '' @ print_octal (ir_field u 12 0x7FF)
     @ cstr '', map '' @ print_octal (ir_field u 8 3) @ cstr '', len '' @ print_octal (ir_field u 5 7)
     @ cstr '', rot '' @ print_octal (ir_field u 0 0x1F) @ [32])"

definition disassemble_byte :: "u64 \<Rightarrow> cstring" where
  "disassemble_byte u =
    (let at = cstr ''pos='' @ print_octal (ir_field u 0 0x1F) @ cstr '', width='' @ print_octal (ir_field u 5 0x1F + 1) @ [32];
         mr_sr_bits = ir_field u 12 3 in
     cstr ''a='' @ print_octal (ir_field u 32 0x3FF) @ cstr '' m='' @ disassemble_m_src u (ir_field u 26 0x3F)
     @ (if mr_sr_bits = 1 then cstr ''ldb '' @ at
        else if mr_sr_bits = 2 then cstr ''sel dep (a<-m&mask) '' @ at
        else if mr_sr_bits = 3 then cstr ''dpb '' @ at
        else [])
     @ disassemble_dest (ir_field u 14 0xFFF))"

definition disassemble_ucode_loc :: "u64 \<Rightarrow> cstring" where
  "disassemble_ucode_loc u =
    (let op = ir_field u 43 3 in
     (if ir_field u 42 1 \<noteq> 0 then cstr ''popj; '' else [])
     @ (if op = 0 then cstr ''(alu) '' @ disassemble_alu u
        else if op = 1 then cstr ''(jump) '' @ disassemble_jump u
        else if op = 2 then cstr ''(dispatch) '' @ disassemble_dispatch u
        else cstr ''(byte) '' @ disassemble_byte u)
     @ [10])"

definition show_prom :: "u64 arr \<Rightarrow> cstring" where
  "show_prom prom =
    concat (map (\<lambda>i. pad_octal 3 i @ [32] @ pad_octal 16 (unat (prom i)) @ [10]) [0..<512]) @ cstr ''----'' @ [10]"

definition disassemble_prom :: "u64 arr \<Rightarrow> cstring" where
  "disassemble_prom prom =
    concat (map (\<lambda>i. pad_octal 3 i @ [32] @ pad_octal 16 (unat (prom i)) @ [32] @ disassemble_ucode_loc (prom i)) [0..<512])"

subsection \<open>The text is one line\<close>

definition printable :: "u8 \<Rightarrow> bool" where
  "printable c \<longleftrightarrow> 32 \<le> c \<and> c < 127"

lemma printable_digits: "base \<le> 10 \<Longrightarrow> 2 \<le> base \<Longrightarrow> list_all printable (digits_of base n)"
  using digits_of_digits [of base n]
  by (auto simp: list_all_iff digit_def printable_def word_le_nat_alt word_less_nat_alt)

lemma printable_octal [simp]: "list_all printable (print_octal v)"
  by (simp add: print_octal_def printable_digits)

lemma printable_pick:
  "list_all (\<lambda>x. list_all printable (cstr (snd x))) xs \<Longrightarrow> list_all printable (pick c xs)"
  by (cases "map_of xs c") (auto simp: pick_def list_all_iff dest!: map_of_SomeD)

lemma printable_m_src [simp]: "list_all printable (disassemble_m_src u m)"
  unfolding disassemble_m_src_def Let_def
  by (auto simp: printable_def intro!: printable_pick)

lemma printable_dest [simp]: "list_all printable (disassemble_dest d)"
  unfolding disassemble_dest_def Let_def
  by (auto simp: printable_def intro!: printable_pick)

lemma printable_op:
  "i < 16 \<Longrightarrow> list_all printable (cstr (alu_bool_op ! i))" "i < 16 \<Longrightarrow> list_all printable (cstr (alu_arith_op ! i))"
proof -
  have "list_all (\<lambda>s. list_all printable (cstr s)) alu_bool_op" "list_all (\<lambda>s. list_all printable (cstr s)) alu_arith_op"
    by (simp_all add: alu_bool_op_def alu_arith_op_def printable_def)
  moreover have "length alu_bool_op = 16" "length alu_arith_op = 16" by (simp_all add: alu_bool_op_def alu_arith_op_def)
  ultimately show "i < 16 \<Longrightarrow> list_all printable (cstr (alu_bool_op ! i))" "i < 16 \<Longrightarrow> list_all printable (cstr (alu_arith_op ! i))"
    by (simp_all add: list_all_length)
qed

lemma printable_alu: "list_all printable (disassemble_alu u)"
proof -
  have "unat (ir_field u 3 0xF) < 16"
    using unat_and_mask [of "ucast (drop_bit 3 u) :: u32" 4] by (simp add: ir_field_def mask_eq_exp_minus_1)
  note op = printable_op [OF this]
  show ?thesis
    unfolding disassemble_alu_def Let_def
    using op by (auto simp: printable_def intro!: printable_pick)
qed

lemma printable_rest:
  "list_all printable (disassemble_jump u)" "list_all printable (disassemble_dispatch u)" "list_all printable (disassemble_byte u)"
  unfolding disassemble_jump_def disassemble_dispatch_def disassemble_byte_def Let_def
  by (auto simp: printable_def jump_names_def intro!: printable_pick)


subsection \<open>The names and what the processor does\<close>

text \<open>What the names of the boolean operations mean, for the M and the A source.\<close>

definition boolean_meaning :: "(string \<times> (u32 \<Rightarrow> u32 \<Rightarrow> u32)) list" where
  "boolean_meaning =
    [(''SETZ'', \<lambda>m a. 0), (''SETO'', \<lambda>m a. -1), (''SETM'', \<lambda>m a. m), (''SETA'', \<lambda>m a. a),
     (''SETCM'', \<lambda>m a. NOT m), (''SETCA'', \<lambda>m a. NOT a),
     (''AND'', \<lambda>m a. m AND a), (''ANDCA'', \<lambda>m a. m AND NOT a), (''ANDCM'', \<lambda>m a. NOT m AND a), (''ANDCB'', \<lambda>m a. NOT m AND NOT a),
     (''IOR'', \<lambda>m a. m OR a), (''ORCA'', \<lambda>m a. m OR NOT a), (''ORCM'', \<lambda>m a. NOT m OR a), (''ORCB'', \<lambda>m a. NOT m OR NOT a),
     (''XOR'', \<lambda>m a. m XOR a), (''EQV'', \<lambda>m a. NOT (m XOR a))]"

lemma less_16_cases:
  assumes "op < (16 :: u32)"
  shows "op = 0 \<or> op = 1 \<or> op = 2 \<or> op = 3 \<or> op = 4 \<or> op = 5 \<or> op = 6 \<or> op = 7 \<or>
    op = 8 \<or> op = 9 \<or> op = 10 \<or> op = 11 \<or> op = 12 \<or> op = 13 \<or> op = 14 \<or> op = 15"
proof -
  have "unat op < 16" using assms by (simp add: word_less_nat_alt)
  then have "unat op = 0 \<or> unat op = 1 \<or> unat op = 2 \<or> unat op = 3 \<or> unat op = 4 \<or> unat op = 5 \<or> unat op = 6 \<or> unat op = 7 \<or>
    unat op = 8 \<or> unat op = 9 \<or> unat op = 10 \<or> unat op = 11 \<or> unat op = 12 \<or> unat op = 13 \<or> unat op = 14 \<or> unat op = 15"
    by presburger
  then show ?thesis by (simp add: word_unat_eq_iff)
qed

text \<open>
  The disassembler has a name for each boolean operation of the ALU, and the name denotes
  the operation that the processor performs, for every code except 011: EQV is named as the
  bitwise equivalence, but the processor compares the words.
\<close>

theorem boolean_names_match:
  assumes "op < 16"
  shows "\<exists>f. map_of boolean_meaning (alu_bool_op ! unat op) = Some f \<and> ((\<forall>m a. alu_bool op m a = f m a) \<longleftrightarrow> op \<noteq> 9)"
proof (cases "op = 9")
  case True
  have "\<exists>m a. alu_bool 9 m a \<noteq> NOT (m XOR a)"
    by (intro exI [of _ 3]) (simp add: alu_bool_def)
  then show ?thesis using True
    by (auto simp: boolean_meaning_def alu_bool_op_def)
next
  case False
  then show ?thesis
    using less_16_cases [OF assms]
    by (elim disjE) (simp_all add: boolean_meaning_def alu_bool_op_def alu_bool_def and.commute)
qed

lemma boolean_names_match_witness:
  "\<exists>f. map_of boolean_meaning ''ANDCA'' = Some f \<and> alu_bool 2 0xFF 0x0F = f 0xFF 0x0F"
  using boolean_names_match [of 2] by (auto simp: alu_bool_op_def)

definition condition_meaning :: "(string \<times> (u32 \<Rightarrow> u32 \<Rightarrow> u32 \<Rightarrow> u32 \<Rightarrow> u32 \<Rightarrow> bool)) list" where
  "condition_meaning =
    [(''M-src < A-src '', \<lambda>m a pf int seq. sint m < sint a), (''M-src <= A-src '', \<lambda>m a pf int seq. sint m \<le> sint a),
     (''M-src = A-src '', \<lambda>m a pf int seq. m = a), (''pf '', \<lambda>m a pf int seq. pf \<noteq> 0),
     (''pf/int '', \<lambda>m a pf int seq. pf \<noteq> 0 \<or> int \<noteq> 0), (''pf/int/seq '', \<lambda>m a pf int seq. pf \<noteq> 0 \<or> int \<noteq> 0 \<or> seq \<noteq> 0),
     (''jump-always '', \<lambda>m a pf int seq. True)]"

text \<open>Code 0, which is printed like code 1, tests nothing: it keeps the outcome of the jump before.\<close>

lemma jump_code_0: "bit u 5 \<Longrightarrow> ir_field u 0 0xF = 0 \<Longrightarrow> fst (jump_condition u before m a pf ie pend seq) = before"
  by (simp add: jump_condition_def Let_def)

text \<open>
  C25. The condition the disassembler prints for a jump is the one the processor tests, for each of
  the codes 1 to 7 and flags that are 0 or 1, except that a pending sequence break is never seen.
\<close>

theorem jump_names_match:
  assumes "bit u 5" and "pf \<in> {0, 1}" and "pend \<in> {0, 1}" and "irq = (if ie \<noteq> 0 then pend else 0)"
    and "1 \<le> ir_field u 0 0xF" and "ir_field u 0 0xF \<le> 7" and "ir_field u 0 0xF = 6 \<longrightarrow> seq = 0"
  shows "\<exists>s g. map_of jump_names (ir_field u 0 0xF) = Some s \<and> map_of condition_meaning s = Some g \<and>
    (fst (jump_condition u before m a pf ie pend seq) = 1 \<longleftrightarrow> g m a pf irq seq)"
proof -
  have "ir_field u 0 0xF < 16" "ir_field u 0 0xF \<noteq> 0" using assms(5,6) by (auto simp: word_le_nat_alt word_less_nat_alt)
  then have "ir_field u 0 0xF = 1 \<or> ir_field u 0 0xF = 2 \<or> ir_field u 0 0xF = 3 \<or> ir_field u 0 0xF = 4
      \<or> ir_field u 0 0xF = 5 \<or> ir_field u 0 0xF = 6 \<or> ir_field u 0 0xF = 7"
    using less_16_cases [of "ir_field u 0 0xF"] assms(6) by auto
  then show ?thesis
    using assms by (elim disjE) (auto simp: jump_condition_def jump_names_def condition_meaning_def Let_def)
qed

lemma jump_names_match_witness:
  "\<exists>s g. map_of jump_names 2 = Some s \<and> map_of condition_meaning s = Some g \<and>
    (fst (jump_condition 0x22 0 5 7 0 0 0 0) = 1 \<longleftrightarrow> g 5 7 0 0 0)"
proof -
  have "ir_field 0x22 0 0xF = 2" "bit (0x22 :: u64) 5" by (simp_all add: ir_field_def)
  then show ?thesis using jump_names_match [of "0x22" 0 0 0 0 0 0 5 7] by simp
qed

end
