(* ===== verification/Usim_Band.thy ===== *)
theory Usim_Band
  imports Usim_Image
begin

section \<open>Load bands on the disk (decode.c)\<close>

text \<open>
  The debugging aids of \<open>decode.c\<close> read the virtual memory of the LOD1 partition straight
  from the disk image, one block at a time; \<open>f\<close> is the contents of the image.
\<close>

record band =
  partoff :: u32
  bnum :: u32
  buf :: "u32 arr"

definition band_start :: band where
  "band_start = \<lparr>partoff = 0, bnum = -1, buf = (\<lambda>i. 0)\<rparr>"

text \<open>The entries of the partition table: \<open>Some\<close> the start of LOD1 if it is among the first \<open>n\<close>.\<close>

primrec find_lod1 :: "nat \<Rightarrow> u32 \<Rightarrow> u32 \<Rightarrow> u32 arr \<Rightarrow> u32 option option" where
  "find_lod1 0 p nw b = Some None"
| "find_lod1 (Suc n) p nw b = do {
     name \<leftarrow> ld 256 b (unat p);
     if Some name = str4 (cstr ''LOD1'') then do { off \<leftarrow> ld 256 b (unat (p + 1)); Some (Some off) }
     else find_lod1 n (p + nw) nw b
   }"

definition find_disk_partition_table :: "u8 list \<Rightarrow> band \<Rightarrow> (band \<times> int) option" where
  "find_disk_partition_table f s =
    (let s1 = s\<lparr>buf := overlay (take 1024 f) (buf s)\<rparr> in
     if length f < 1024 then Some (s1, -1)
     else do {
       r \<leftarrow> find_lod1 (unat (buf s1 0x80)) 0x82 (buf s1 0x81) (buf s1);
       Some (s1\<lparr>partoff := (case r of None \<Rightarrow> partoff s1 | Some off \<Rightarrow> off), bnum := -1\<rparr>, 0)
     })"

text \<open>
  \<open>read_virt\<close>: the word at an address, \<open>None\<close> inside when the block cannot be read (the C
  function then returns 1). The block counts as buffered even if reading it failed.
\<close>

definition read_virt :: "u8 list \<Rightarrow> u32 \<Rightarrow> band \<Rightarrow> (band \<times> u32 option) option" where
  "read_virt f addr0 s = do {
     let addr = addr0 AND 0xFFFFFF;
     let b = drop_bit 8 addr;
     n \<leftarrow> c_add b (partoff s);
     offset \<leftarrow> c_mul n 1024;
     if b = bnum s then Some (s, Some (buf s (unat (addr AND 0xFF))))
     else
       let s1 = s\<lparr>bnum := b\<rparr> in
       if sint offset < 0 then Some (s1, None)
       else
         let got = take 1024 (drop (unat offset) f);
             s2 = s1\<lparr>buf := overlay got (buf s1)\<rparr>
         in if length got < 1024 then Some (s2, None)
            else Some (s2, Some (buf s2 (unat (addr AND 0xFF))))
   }"

text \<open>\<open>get\<close>: 0 when the word cannot be read.\<close>

definition get :: "u8 list \<Rightarrow> u32 \<Rightarrow> band \<Rightarrow> (band \<times> u32) option" where
  "get f a s = do { (s1, v) \<leftarrow> read_virt f a s; Some (s1, case v of None \<Rightarrow> 0 | Some v \<Rightarrow> v) }"

text \<open>
  A string: its length in the low byte of the header word, then four characters a word. \<open>n\<close>
  words are read from \<open>loc\<close> on; \<open>None\<close> inside when one of them cannot be read.
\<close>

primrec read_chars :: "nat \<Rightarrow> u8 list \<Rightarrow> u32 \<Rightarrow> band \<Rightarrow> (band \<times> u8 list option) option" where
  "read_chars 0 f loc s = Some (s, Some [])"
| "read_chars (Suc n) f loc s = do {
     (s1, v) \<leftarrow> read_virt f loc s;
     (case v of
        None \<Rightarrow> Some (s1, None)
      | Some v \<Rightarrow> do {
          (s2, r) \<leftarrow> read_chars n f (loc + 1) s1;
          Some (s2, map_option (\<lambda>bs. word_bytes v @ bs) r)
        })
   }"

definition read_string :: "u8 list \<Rightarrow> u32 \<Rightarrow> band \<Rightarrow> (band \<times> cstring option) option" where
  "read_string f loc s = do {
     (s1, v) \<leftarrow> read_virt f loc s;
     (case v of
        None \<Rightarrow> Some (s1, None)
      | Some v \<Rightarrow> do {
          let t = unat (v AND 0xFF);
          (s2, r) \<leftarrow> read_chars ((t + 3) div 4) f (loc + 1) s1;
          Some (s2, Some (case r of None \<Rightarrow> cstr ''<read-failed>'' | Some bs \<Rightarrow> strdup (take t bs)))
        })
   }"

text \<open>
  Going back word by word, at most \<open>n\<close> of them, to a header with tag 7; the tag of the last
  word read and the place where the search stopped.
\<close>

primrec find_header :: "nat \<Rightarrow> u32 \<Rightarrow> u8 list \<Rightarrow> u32 \<Rightarrow> u32 \<Rightarrow> band \<Rightarrow> (band \<times> u32 \<times> u32) option" where
  "find_header 0 tag_mask f tag loc s = Some (s, tag, loc)"
| "find_header (Suc n) tag_mask f tag loc s = do {
     (s1, v) \<leftarrow> read_virt f loc s;
     (case v of
        None \<Rightarrow> Some (s1, tag, loc)
      | Some v \<Rightarrow>
          let tag1 = drop_bit 24 v AND tag_mask in
          if tag1 = 7 then Some (s1, tag1, loc) else find_header n tag_mask f tag1 (loc - 1) s1)
   }"

definition with_partition :: "u8 list \<Rightarrow> band \<Rightarrow> band option" where
  "with_partition f s =
    (if partoff s = 0 then do { (s1, _) \<leftarrow> find_disk_partition_table f s; Some s1 } else Some s)"

definition find_function_name :: "u8 list \<Rightarrow> u32 \<Rightarrow> band \<Rightarrow> (band \<times> cstring option) option" where
  "find_function_name f the_lc s = do {
     s1 \<leftarrow> with_partition f s;
     (s2, tag, loc) \<leftarrow> find_header 512 0x3F f 0 (drop_bit 2 the_lc) s1;
     if tag \<noteq> 7 then Some (s2, Some (cstr ''<no-function>''))
     else do {
       (s3, v) \<leftarrow> read_virt f (loc + 2) s2;
       (case v of
          None \<Rightarrow> Some (s3, Some (cstr ''<no-function>''))
        | Some p \<Rightarrow> do {
            (s4, v1) \<leftarrow> read_virt f p s3;
            (case v1 of
               None \<Rightarrow> Some (s4, Some (cstr ''<read-failed>''))
             | Some v1 \<Rightarrow>
                 if drop_bit 24 p AND 0x3F = 0xE then do {
                   (s5, v2) \<leftarrow> read_virt f v1 s4;
                   (case v2 of
                      None \<Rightarrow> Some (s5, Some (cstr ''<read-failed>''))
                    | Some v2 \<Rightarrow> read_string f v2 s5)
                 }
                 else read_string f v1 s4)
          })
     }
   }"

lemma find_lod1_ok:
  assumes "\<forall>x \<in> set xs. good_part x" and "p + 7 * length xs \<le> 256" and "distinct (map p_name xs)"
    and "y \<in> set xs" and "p_name y = cstr ''LOD1''"
    and "\<And>j i. j < length xs \<Longrightarrow> i < 7 \<Longrightarrow> b (p + 7 * j + i) = part_words (xs ! j) ! i"
  shows "find_lod1 (length xs) (of_nat p) 7 b = Some (Some (p_start y))"
  using assms
proof (induction xs arbitrary: p)
  case (Cons x xs)
  have idx: "unat (of_nat p + of_nat i :: u32) = p + i" if "i < 7" for i
    using that Cons.prems(2) unat_of_nat_small [of "p + i"] by simp
  have w: "b p = bytes_word (p_name x)" "b (Suc p) = p_start x"
    using Cons.prems(6) [of 0 0] Cons.prems(6) [of 0 1] by (simp_all add: part_words_def)
  have l: "length (p_name x) = 4" "str4 (cstr ''LOD1'') = Some (bytes_word (cstr ''LOD1''))"
    using Cons.prems(1) by (simp_all add: good_part_def str4_ascii ascii_def)
  then have eq: "Some (b p) = str4 (cstr ''LOD1'') \<longleftrightarrow> p_name x = cstr ''LOD1''"
    using bytes_word_inj [of "p_name x" "cstr ''LOD1''"] by (simp add: w del: cstr_simps) (simp add: cstr_def)
  show ?case
  proof (cases "p_name x = cstr ''LOD1''")
    case True
    then have "x = y" using Cons.prems(3-5) by (metis distinct_map image_set inj_on_def list.set_intros(1))
    then show ?thesis using idx [of 0] idx [of 1] Cons.prems(2) True w by (simp add: l(2) del: cstr_simps)
  next
    case False
    have "find_lod1 (length xs) (of_nat (p + 7)) 7 b = Some (Some (p_start y))"
    proof (rule Cons.IH)
      show "y \<in> set xs" using Cons.prems(4,5) False by auto
      show "b (p + 7 + 7 * j + i) = part_words (xs ! j) ! i" if "j < length xs" "i < 7" for j i
      proof -
        have "p + 7 + 7 * j + i = p + 7 * Suc j + i" by simp
        then show ?thesis using Cons.prems(6) [of "Suc j" i] that by (simp only: length_Cons nth_Cons_Suc)
      qed
    qed (use Cons.prems in auto)
    then show ?thesis using idx [of 0] Cons.prems(2) eq False by (simp add: add.commute del: cstr_simps)
  qed
qed simp

text \<open>
  The band is found and its block, if one is buffered, is a block of the partition.
\<close>

definition band_holds :: "(cstring \<Rightarrow> u8 list option) \<Rightarrow> part_s \<Rightarrow> band \<Rightarrow> bool" where
  "band_holds fs y s \<longleftrightarrow> partoff s = p_start y \<and>
     (bnum s = -1 \<or> (\<forall>i < 256. buf s i = partition_word fs y (256 * unat (bnum s) + i)))"

lemma read_virt_partition:
  assumes "\<And>i. i < 1024 * unat (p_size y) \<Longrightarrow> file_byte f (1024 * unat (p_start y) + i) = partition_byte fs y i"
    and "1024 * (unat (p_start y) + unat (p_size y)) \<le> length f" and "unat (p_start y) + unat (p_size y) < 2 ^ 21"
    and "band_holds fs y s" and "unat a < 256 * unat (p_size y)" and "unat a < 2 ^ 24"
  shows "\<exists>s'. read_virt f a s = Some (s', Some (partition_word fs y (unat a))) \<and> band_holds fs y s'"
proof -
  have "unat (a AND 0xFFFFFF) = unat a" using unat_and_mask [of a 24] assms(6) by (simp add: mask_eq_exp_minus_1)
  then have m: "a AND 0xFFFFFF = a" by (rule unsigned_word_eqI)
  define n where "n = unat a div 256"
  have ub: "unat (drop_bit 8 a) = n" by (simp add: n_def unat_div drop_bit_eq_div)
  then have b: "drop_bit 8 a = of_nat n" by (simp flip: ub)
  have i: "unat a = 256 * n + unat a mod 256" "unat a mod 256 < 256" by (simp_all add: n_def)
  have n: "n < unat (p_size y)" using assms(5) by (simp add: n_def div_less_iff_less_mult mult.commute)
  have add: "c_add (of_nat n) (p_start y) = Some (of_nat (n + unat (p_start y)))"
    using block_number [of n "unat (p_start y)"] n assms(3) by simp
  obtain w where w: "c_mul (of_nat (n + unat (p_start y))) 1024 = Some w" "unat w = 1024 * (n + unat (p_start y))" "\<not> sint w < 0"
    using block_offset [of "n + unat (p_start y)"] n assms(3) by auto
  have word: "buffer_of f (256 * (n + unat (p_start y)) + j) = partition_word fs y (256 * n + j)" if "j < 256" for j
    using image_word [OF assms(1,2), of "256 * n + j"] n that by (simp add: algebra_simps)
  have fit: "1024 * (n + unat (p_start y)) + 1024 \<le> length f"
  proof -
    have "n + unat (p_start y) + 1 \<le> unat (p_start y) + unat (p_size y)" using n by simp
    then have "1024 * (n + unat (p_start y) + 1) \<le> 1024 * (unat (p_start y) + unat (p_size y))" by (rule mult_le_mono2)
    then show ?thesis using assms(2) by simp
  qed
  have start: "partoff s = p_start y" using assms(4) by (simp add: band_holds_def)
  show ?thesis
  proof (cases "of_nat n = bnum s")
    case True
    moreover have "bnum s \<noteq> -1"
    proof
      assume "bnum s = -1"
      then have "unat (drop_bit 8 a) = unat (-1 :: u32)" using True b by simp
      then show False using ub n assms(3) by (simp add: unsigned_minus_1_eq_mask mask_eq_exp_minus_1)
    qed
    ultimately have "buf s (unat a mod 256) = partition_word fs y (256 * n + unat a mod 256)"
      using assms(4) ub b i(2) by (simp add: band_holds_def)
    then show ?thesis using True assms(4) add w i(1) start by (simp add: read_virt_def m b)
  next
    case False
    define s' where "s' = s\<lparr>bnum := of_nat n, buf := overlay (take 1024 (drop (1024 * (n + unat (p_start y))) f)) (buf s)\<rparr>"
    have page: "buf s' j = partition_word fs y (256 * n + j)" if "j < 256" for j
      using overlay_page [OF fit that] word [OF that] by (simp add: s'_def)
    have "band_holds fs y s'" using page ub b start by (simp add: band_holds_def s'_def)
    moreover have "read_virt f a s = Some (s', Some (buf s' (unat a mod 256)))"
      using False add w fit start by (simp add: read_virt_def m b s'_def Let_def)
    ultimately show ?thesis using page [OF i(2)] i(1) by auto
  qed
qed

text \<open>
  C12. \<open>find_disk_partition_table\<close> finds the LOD1 partition of a pack the image tool made, and from
  there \<open>read_virt\<close> answers every address inside the band with the word of the band's file, whichever block is
  buffered.
\<close>

theorem band_reads_partition:
  assumes "parse_template (fs tn) k0 = Some k" and "img_filename k = Some img" and "fs img = None"
    and "layout_ok fs k" and "length b = 1024" and "y \<in> set (parts k)" and "p_name y = cstr ''LOD1''"
  shows "\<exists>f s. create_disk fs b (Some tn) k0 = Some (Some (k, f, 0)) \<and>
    find_disk_partition_table f band_start = Some (s, 0) \<and> band_holds fs y s \<and>
    (\<forall>s a. band_holds fs y s \<longrightarrow> unat a < min (256 * unat (p_size y)) (2 ^ 24) \<longrightarrow>
       (\<exists>s'. read_virt f a s = Some (s', Some (partition_word fs y (unat a))) \<and> band_holds fs y s'))"
proof -
  have good: "good_pack k" "length (parts k) \<le> 18" using assms(4) by (simp_all add: layout_ok_def good_pack_def)
  obtain w where w: "labl_words k = Some w" and c: "w 0x80 = of_nat (length (parts k))" "w 0x81 = 7"
      "\<forall>j < length (parts k). \<forall>i < 7. w (0x82 + 7 * j + i) = part_words (parts k ! j) ! i"
    using labl_words_ok [OF good(1)] by blast
  obtain f rest where f: "make_partitions fs b (parts k) (page_bytes w) = Some f" "f = page_bytes w @ rest"
    and x: "\<And>i. i < 1024 * unat (p_size y) \<Longrightarrow> file_byte f (1024 * unat (p_start y) + i) = partition_byte fs y i"
    "1024 * (unat (p_start y) + unat (p_size y)) \<le> length f"
    using create_image [OF assms(4,5) w] assms(6) by blast
  have made: "create_disk fs b (Some tn) k0 = Some (Some (k, f, 0))"
    using assms(1-3) f(1) by (simp add: create_disk_def make_labl_def w file_write_def)
  have len: "1024 \<le> length f" by (simp add: f(2))
  define B where "B = overlay (take 1024 f) (\<lambda>i. 0)"
  have B: "B i = w i" if "i < 256" for i
    using overlay_page [of 0 f i] that len by (simp add: B_def f(2) buffer_of_page_bytes)
  have "find_lod1 (length (parts k)) (of_nat 0x82) 7 B = Some (Some (p_start y))"
    using assms(4) good c(3) assms(6,7) by (intro find_lod1_ok) (auto simp: layout_ok_def good_pack_def B)
  then have "find_disk_partition_table f band_start = Some (\<lparr>partoff = p_start y, bnum = -1, buf = B\<rparr>, 0)"
    using len B c(1,2) count_entries(1) [OF good(2)]
    by (simp add: find_disk_partition_table_def band_start_def flip: B_def)
  moreover have "band_holds fs y \<lparr>partoff = p_start y, bnum = -1, buf = B\<rparr>" by (simp add: band_holds_def)
  moreover have small: "unat (p_start y) + unat (p_size y) < 2 ^ 21" using assms(4,6) by (auto simp: layout_ok_def fits_def)
  moreover note read_virt_partition [OF x small]
  ultimately show ?thesis using made by auto
qed

lemma band_reads_partition_witness:
  "\<exists>f s s'. create_disk ((\<lambda>n. None)(cstr ''f'' := Some (replicate 1024 7))) (replicate 1024 0) (Some (cstr ''t''))
       (example_pack\<lparr>parts := [example_part\<lparr>p_name := cstr ''LOD1''\<rparr>]\<rparr>)
      = Some (Some (example_pack\<lparr>parts := [example_part\<lparr>p_name := cstr ''LOD1''\<rparr>]\<rparr>, f, 0)) \<and>
    find_disk_partition_table f band_start = Some (s, 0) \<and> read_virt f 5 s = Some (s', Some 0x07070707)"
proof -
  let ?fs = "(\<lambda>n. None)(cstr ''f'' := Some (replicate 1024 7)) :: cstring \<Rightarrow> u8 list option"
  let ?y = "example_part\<lparr>p_name := cstr ''LOD1''\<rparr>"
  let ?k = "example_pack\<lparr>parts := [?y]\<rparr>"
  have "fits ?fs ?y"
    by (auto simp: fits_def example_part_def intro!: exI [of _ 1])
  moreover have "good_pack ?k"
    by (simp add: good_pack_def good_part_def example_pack_def example_part_def ascii_def c_mul_def c_int_def)
  ultimately have "layout_ok ?fs ?k"
    by (simp add: layout_ok_def apart_def) (simp add: example_part_def)
  then obtain f s where fs: "create_disk ?fs (replicate 1024 0) (Some (cstr ''t'')) ?k = Some (Some (?k, f, 0))"
    "find_disk_partition_table f band_start = Some (s, 0)" "band_holds ?fs ?y s"
    and rd: "\<forall>s a. band_holds ?fs ?y s \<longrightarrow> unat a < min (256 * unat (p_size ?y)) (2 ^ 24) \<longrightarrow>
       (\<exists>s'. read_virt f a s = Some (s', Some (partition_word ?fs ?y (unat a))) \<and> band_holds ?fs ?y s')"
    using band_reads_partition [of ?fs "cstr ''t''" ?k ?k "cstr ''d''" "replicate 1024 0" ?y]
    by (auto simp: parse_template_def example_pack_def)
  obtain s' where "read_virt f 5 s = Some (s', Some (partition_word ?fs ?y 5))"
    using rd [rule_format, OF fs(3), of 5] by (auto simp: example_part_def)
  moreover have "partition_word ?fs ?y 5 = 0x07070707"
    by (simp add: partition_word_def partition_byte_def example_part_def stored_byte_def file_byte_def half_swap_def bytes_word_def)
  ultimately have "read_virt f 5 s = Some (s', Some 0x07070707)" by simp
  with fs(1,2) show ?thesis by blast
qed

end
