(* ===== verification/Usim_Macro.thy ===== *)
theory Usim_Macro
  imports Usim_Disasm Usim_Band Usim_Symbols
begin

section \<open>Disassembly of macro-instructions (decode.c, macroops.h)\<close>

text \<open>
  The names of the instructions that the microcode interprets, and the text \<open>disass\<close> makes of one.
  For a call it looks up the function in the load band; for an operand on the constants page
  it reads the memory of the running machine.
\<close>

subsection \<open>Names (macroops.h)\<close>

definition op_names :: "string list" where
  "op_names =
    [''CALL'', ''CALL0'', ''MOVE'', ''CAR'', ''CDR'', ''CADR'', ''CDDR'', ''CDAR'', ''CAAR'', ''ND1'',
     ''ND2'', ''ND3'', ''BRANCH'', ''MISC'', ''16 UNUSED'', ''17 UNUSED'']"

definition reg_names :: "string list" where
  "reg_names =
    [''FEF'', ''FEF+100'', ''FEF+200'', ''FEF+300'', ''CONSTANTS PAGE'', ''LOCAL'', ''ARG POINTER'', ''PDL'']"

definition dest_names :: "string list" where
  "dest_names =
    [''D-IGNORE'', ''D-PDL'', ''D-NEXT'', ''D-LAST'', ''D-RETURN'', ''D-NEXT-Q'', ''D-LAST-Q'',
     ''D-NEXT-LIST'', ''D-MICRO, POPJ'', ''illegal'', ''illegal'', ''illegal'', ''illegal'', ''illegal'',
     ''illegal'', ''illegal'']"

definition branch_names :: "string list" where
  "branch_names =
    [''BR'', ''BR-NIL'', ''BR-NOT-NIL'', ''BR-NIL-POP'', ''BR-NOT-NIL-POP'', ''BR-ATOM'', ''BR-NOT-ATOM'',
     ''BR-ILL-7'']"

definition nd1_names :: "string list" where
  "nd1_names =
    [''ND1-UNUSED'', ''+'', ''-'', ''*'', ''/'', ''LOGAND'', ''LOGXOR'', ''LOGIOR'']"

definition nd2_names :: "string list" where
  "nd2_names =
    [''='', ''>'', ''<'', ''EQ'', ''SETE-CDR'', ''SETE-CDDR'', ''SETE-1+'', ''SETE-1-'']"

definition nd3_names :: "string list" where
  "nd3_names =
    [''BIND-OBSOLETE?'', ''BIND-NIL'', ''BIND-POP'', ''SET-NIL'', ''SET-ZERO'', ''PUSH-E'', ''MOVEM'', ''POP'']"

definition call_names :: "string list" where
  "call_names =
    [''CALL'', ''CALL0'', ''MOVE'', ''CAR'', ''CDR'', ''CADR'', ''CDDR'', ''CDAR'', ''CAAR'']"

text \<open>The miscellaneous instructions and their codes; the first entry is a dummy.\<close>

definition misc_inst_1 :: "(string \<times> nat) list" where
  "misc_inst_1 =
    [('''', 0x0), (''(CAR . M-CAR)'', 0xA2), (''(CDR . M-CDR)'', 0xA3), (''(CAAR . M-CAAR)'', 0xA4),
     (''(CADR . M-CADR)'', 0xA5), (''(CDAR . M-CDAR)'', 0xA6), (''(CDDR . M-CDDR)'', 0xA7),
     (''CAAAR'', 0xA8), (''CAADR'', 0xA9), (''CADAR'', 0xAA), (''CADDR'', 0xAB), (''CDAAR'', 0xAC),
     (''CDADR'', 0xAD), (''CDDAR'', 0xAE), (''CDDDR'', 0xAF), (''CAAAAR'', 0xB0), (''CAAADR'', 0xB1),
     (''CAADAR'', 0xB2), (''CAADDR'', 0xB3), (''CADAAR'', 0xB4), (''CADADR'', 0xB5), (''CADDAR'', 0xB6),
     (''CADDDR'', 0xB7), (''CDAAAR'', 0xB8), (''CDAADR'', 0xB9), (''CDADAR'', 0xBA), (''CDADDR'', 0xBB),
     (''CDDAAR'', 0xBC), (''CDDADR'', 0xBD), (''CDDDAR'', 0xBE), (''CDDDDR'', 0xBF),
     (''%LOAD-FROM-HIGHER-CONTEXT'', 0xC0), (''%LOCATE-IN-HIGHER-CONTEXT'', 0xC1),
     (''%STORE-IN-HIGHER-CONTEXT'', 0xC2), (''%DATA-TYPE'', 0xC3), (''%POINTER'', 0xC4),
     (''%MAKE-POINTER'', 0xC8), (''%SPREAD'', 0xC9), (''%P-STORE-CONTENTS'', 0xCA), (''%LOGLDB'', 0xCB),
     (''%LOGDPB'', 0xCC), (''LDB'', 0xCD), (''DPB'', 0xCE), (''%P-STORE-TAG-AND-POINTER'', 0xCF),
     (''GET'', 0xD0), (''GETL'', 0xD1), (''ASSQ'', 0xD2), (''LAST'', 0xD3), (''LENGTH'', 0xD4),
     (''1+'', 0xD5), (''1-'', 0xD6), (''RPLACA'', 0xD7), (''RPLACD'', 0xD8), (''ZEROP'', 0xD9),
     (''SET'', 0xDA), (''FIXP'', 0xDB), (''FLOATP'', 0xDC), (''EQUAL'', 0xDD), (''STORE'', 0xDE),
     (''XSTORE'', 0xDF), (''FALSE'', 0xE0), (''TRUE'', 0xE1), (''NOT'', 0xE2), (''(NULL . NOT)'', 0xE2),
     (''ATOM'', 0xE3), (''ODDP'', 0xE4), (''EVENP'', 0xE5), (''%HALT'', 0xE6), (''GET-PNAME'', 0xE7),
     (''LSH'', 0xE8), (''ROT'', 0xE9), (''*BOOLE'', 0xEA), (''NUMBERP'', 0xEB), (''PLUSP'', 0xEC),
     (''MINUSP'', 0xED), ([CHR 0x5C], 0xEE), (''MINUS'', 0xEF), (''PRINT-NAME-CELL-LOCATION'', 0xF0),
     (''VALUE-CELL-LOCATION'', 0xF1), (''FUNCTION-CELL-LOCATION'', 0xF2), (''PROPERTY-CELL-LOCATION'', 0xF3),
     (''NCONS'', 0xF4), (''NCONS-IN-AREA'', 0xF5), (''CONS'', 0xF6), (''CONS-IN-AREA'', 0xF7),
     (''XCONS'', 0xF8), (''XCONS-IN-AREA'', 0xF9), (''%SPREAD-N'', 0xFA), (''SYMEVAL'', 0xFB),
     (''POP-M-FROM-UNDER-N'', 0xFC), (''%OLD-MAKE-LIST'', 0xFD), (''%CALL-MULT-VALUE'', 0xFE),
     (''%CALL0-MULT-VALUE'', 0xFF)]"

definition misc_inst_2 :: "(string \<times> nat) list" where
  "misc_inst_2 =
    [(''%RETURN-2'', 0x100), (''%RETURN-3'', 0x101), (''%RETURN-N'', 0x102), (''RETURN-NEXT-VALUE'', 0x103),
     (''RETURN-LIST'', 0x104), (''UNBIND-TO-INDEX-UNDER-N'', 0x105), (''BIND'', 0x106),
     (''%MAKE-LEXICAL-CLOSURE'', 0x107), (''MEMQ'', 0x108), (''(INTERNAL-< . M-<)'', 0x109),
     (''(INTERNAL-> . M->)'', 0x10A), (''(= . M-=)'', 0x10B), (''CHAR-EQUAL'', 0x10C),
     (''%STRING-SEARCH-CHAR'', 0x10D), (''%STRING-EQUAL'', 0x10E), (''NTH'', 0x10F), (''NTHCDR'', 0x110),
     (''(*PLUS . M-+)'', 0x111), (''(*DIF . M--)'', 0x112), (''(*TIMES . M-*)'', 0x113),
     (''(*QUO . M-//)'', 0x114), (''(*LOGAND . M-LOGAND)'', 0x115), (''(*LOGXOR . M-LOGXOR)'', 0x116),
     (''(*LOGIOR . M-LOGIOR)'', 0x117), (''ARRAY-LEADER'', 0x118), (''STORE-ARRAY-LEADER'', 0x119),
     (''GET-LIST-POINTER-INTO-ARRAY'', 0x11A), (''ARRAY-PUSH'', 0x11B), (''APPLY'', 0x11C),
     (''%MAKE-LIST'', 0x11D), (''LIST'', 0x11E), (''LIST*'', 0x11F), (''LIST-IN-AREA'', 0x120),
     (''LIST*-IN-AREA'', 0x121), (''%P-FLAG-BIT'', 0x122), (''%P-CDR-CODE'', 0x123),
     (''%P-DATA-TYPE'', 0x124), (''%P-POINTER'', 0x125), (''%PAGE-TRACE'', 0x126),
     (''%P-STORE-FLAG-BIT'', 0x127), (''%P-STORE-CDR-CODE'', 0x128), (''%P-STORE-DATA-TYPE'', 0x129),
     (''%P-STORE-POINTER'', 0x12A), (''%CATCH-OPEN'', 0x12E), (''%CATCH-OPEN-MV'', 0x12F),
     (''%FEXPR-CALL'', 0x132), (''%FEXPR-CALL-MV'', 0x133), (''%LEXPR-CALL'', 0x134),
     (''%LEXPR-CALL-MV'', 0x135), (''*CATCH'', 0x136), (''%BLT'', 0x137), (''*THROW'', 0x138),
     (''%XBUS-WRITE-SYNC'', 0x139), (''%P-LDB'', 0x13A), (''%P-DPB'', 0x13B), (''MASK-FIELD'', 0x13C),
     (''%P-MASK-FIELD'', 0x13D), (''DEPOSIT-FIELD'', 0x13E), (''%P-DEPOSIT-FIELD'', 0x13F),
     (''COPY-ARRAY-CONTENTS'', 0x140), (''COPY-ARRAY-CONTENTS-AND-LEADER'', 0x141),
     (''%FUNCTION-INSIDE-SELF'', 0x142), (''ARRAY-HAS-LEADER-P'', 0x143), (''COPY-ARRAY-PORTION'', 0x144),
     (''FIND-POSITION-IN-LIST'', 0x145), (''FIND-POSITION-IN-LIST-EQUAL'', 0x146), (''G-L-P'', 0x147),
     (''FIND-POSITION-IN-VECTOR'', 0x148), (''FIND-POSITION-IN-VECTOR-EQUAL'', 0x149), (''AR-1'', 0x14A),
     (''AR-2'', 0x14B), (''AR-3'', 0x14C), (''AS-1'', 0x14D), (''AS-2'', 0x14E), (''AS-3'', 0x14F),
     (''%INSTANCE-REF'', 0x150), (''%INSTANCE-LOC'', 0x151), (''%INSTANCE-SET'', 0x152),
     (''%BINDING-INSTANCES'', 0x153), (''%INTERNAL-VALUE-CELL'', 0x154),
     (''%USING-BINDING-INSTANCES'', 0x155), (''%GC-CONS-WORK'', 0x156), (''%P-CONTENTS-OFFSET'', 0x157),
     (''%DISK-RESTORE'', 0x158), (''%DISK-SAVE'', 0x159), (''%ARGS-INFO'', 0x15A),
     (''%OPEN-CALL-BLOCK'', 0x15B), (''%PUSH'', 0x15C), (''%ACTIVATE-OPEN-CALL-BLOCK'', 0x15D),
     (''%ASSURE-PDL-ROOM'', 0x15E), (''STACK-GROUP-RETURN'', 0x15F), (''%STACK-GROUP-RETURN-MULTI'', 0x160),
     (''%MAKE-STACK-LIST'', 0x161), (''STACK-GROUP-RESUME'', 0x162), (''%CALL-MULT-VALUE-LIST'', 0x163),
     (''%CALL0-MULT-VALUE-LIST'', 0x164), (''%GC-SCAV-RESET'', 0x165), (''%P-STORE-CONTENTS-OFFSET'', 0x166),
     (''%GC-FREE-REGION'', 0x167)]"

definition misc_inst_3 :: "(string \<times> nat) list" where
  "misc_inst_3 =
    [(''%GC-FLIP'', 0x168), (''ARRAY-LENGTH'', 0x169), (''ARRAY-ACTIVE-LENGTH'', 0x16A),
     (''%COMPUTE-PAGE-HASH'', 0x16B), (''GET-LOCATIVE-POINTER-INTO-ARRAY'', 0x16C),
     (''%UNIBUS-READ'', 0x16D), (''%UNIBUS-WRITE'', 0x16E), (''%GC-SCAVENGE'', 0x16F),
     (''%CHAOS-WAKEUP'', 0x170), (''%AREA-NUMBER'', 0x171), (''*MAX'', 0x172), (''*MIN'', 0x173),
     (''CLOSURE'', 0x175), (''DOWNWARD-CLOSURE'', 0x176), (''LISTP'', 0x177), (''NLISTP'', 0x178),
     (''SYMBOLP'', 0x179), (''NSYMBOLP'', 0x17A), (''ARRAYP'', 0x17B), (''FBOUNDP'', 0x17C),
     (''STRINGP'', 0x17D), (''BOUNDP'', 0x17E), (''INTERNAL-'' @ [CHR 0x5C], 0x17F), (''FSYMEVAL'', 0x180),
     (''AP-1'', 0x181), (''AP-2'', 0x182), (''AP-3'', 0x183), (''AP-LEADER'', 0x184),
     (''%P-LDB-OFFSET'', 0x185), (''%P-DPB-OFFSET'', 0x186), (''%P-MASK-FIELD-OFFSET'', 0x187),
     (''%P-DEPOSIT-FIELD-OFFSET'', 0x188), (''%MULTIPLY-FRACTIONS'', 0x189), (''%DIVIDE-DOUBLE'', 0x18A),
     (''%REMAINDER-DOUBLE'', 0x18B), (''HAULONG'', 0x18C), (''%ALLOCATE-AND-INITIALIZE'', 0x18D),
     (''%ALLOCATE-AND-INITIALIZE-ARRAY'', 0x18E), (''%MAKE-POINTER-OFFSET'', 0x18F), (''^'', 0x190),
     (''%CHANGE-PAGE-STATUS'', 0x191), (''%CREATE-PHYSICAL-PAGE'', 0x192),
     (''%DELETE-PHYSICAL-PAGE'', 0x193), (''%24-BIT-PLUS'', 0x194), (''%24-BIT-DIFFERENCE'', 0x195),
     (''%24-BIT-TIMES'', 0x196), (''ABS'', 0x197), (''%POINTER-DIFFERENCE'', 0x198),
     (''%P-CONTENTS-AS-LOCATIVE'', 0x199), (''%P-CONTENTS-AS-LOCATIVE-OFFSET'', 0x19A),
     (''(EQ . M-EQ)'', 0x19B), (''%STORE-CONDITIONAL'', 0x19C), (''%STACK-FRAME-POINTER'', 0x19D),
     (''*UNWIND-STACK'', 0x19E), (''%XBUS-READ'', 0x19F), (''%XBUS-WRITE'', 0x1A0),
     (''PACKAGE-CELL-LOCATION'', 0x1A1), (''MOVE-PDL-TOP'', 0x1A2), (''SHRINK-PDL-SAVE-TOP'', 0x1A3),
     (''SPECIAL-PDL-INDEX'', 0x1A4), (''UNBIND-TO-INDEX'', 0x1A5), (''UNBIND-TO-INDEX-MOVE'', 0x1A6),
     (''FIX'', 0x1A7), (''FLOAT'', 0x1A8), (''SMALL-FLOAT'', 0x1A9), (''%FLOAT-DOUBLE'', 0x1AA),
     (''BIGNUM-TO-ARRAY'', 0x1AB), (''ARRAY-TO-BIGNUM'', 0x1AC), (''%UNWIND-PROTECT-CONTINUE'', 0x1AD),
     (''%WRITE-INTERNAL-PROCESSOR-MEMORIES'', 0x1AE), (''%PAGE-STATUS'', 0x1AF), (''%REGION-NUMBER'', 0x1B0),
     (''%FIND-STRUCTURE-HEADER'', 0x1B1), (''%STRUCTURE-BOXED-SIZE'', 0x1B2),
     (''%STRUCTURE-TOTAL-SIZE'', 0x1B3), (''%MAKE-REGION'', 0x1B4), (''BITBLT'', 0x1B5),
     (''%DISK-OP'', 0x1B6), (''%PHYSICAL-ADDRESS'', 0x1B7), (''POP-OPEN-CALL'', 0x1B8), (''%BEEP'', 0x1B9),
     (''%FIND-STRUCTURE-LEADER'', 0x1BA), (''BPT'', 0x1BB), (''%FINDCORE'', 0x1BC), (''%PAGE-IN'', 0x1BD),
     (''ASH'', 0x1BE), (''%MAKE-EXPLICIT-STACK-LIST'', 0x1BF), (''%DRAW-CHAR'', 0x1C0),
     (''%DRAW-RECTANGLE'', 0x1C1), (''%DRAW-LINE'', 0x1C2), (''%DRAW-TRIANGLE'', 0x1C3),
     (''%COLOR-TRANSFORM'', 0x1C4), (''%RECORD-EVENT'', 0x1C5), (''%AOS-TRIANGLE'', 0x1C6),
     (''%SET-MOUSE-SCREEN'', 0x1C7), (''%OPEN-MOUSE-CURSOR'', 0x1C8), (''%ether-wakeup'', 0x1C9),
     (''%checksum-pup'', 0x1CA), (''%decode-pup'', 0x1CB)]"

definition misc_inst :: "(string \<times> nat) list" where
  "misc_inst = misc_inst_1 @ misc_inst_2 @ misc_inst_3"

text \<open>The table from codes to entries; 0 stands for none.\<close>

primrec set_misc_vector :: "nat \<Rightarrow> (string \<times> nat) list \<Rightarrow> nat arr \<Rightarrow> nat arr option" where
  "set_misc_vector i [] vec = Some vec"
| "set_misc_vector i (x # xs) vec = do {
     vec1 \<leftarrow> st 1024 vec (snd x) i;
     set_misc_vector (i + 1) xs vec1
   }"

definition misc_inst_vector :: "nat arr option" where
  "misc_inst_vector = set_misc_vector 0 misc_inst (\<lambda>i. 0)"

definition misc_name :: "u32 \<Rightarrow> cstring option" where
  "misc_name adr = do {
     vec \<leftarrow> misc_inst_vector;
     let i = vec (unat adr);
     Some ((if adr < 1024 \<and> i \<noteq> 0 then cstr (fst (misc_inst ! i)) else print_octal adr) @ [32])
   }"

subsection \<open>The band and the memory of the machine\<close>

text \<open>
  The static variables of the functions below: the buffered block of the band, the running machine that
  \<open>read_mem\<close> changes, and the address of the constants area once it has been looked up.
\<close>

record decoder =
  dband :: band
  dmach :: machine
  constants_area :: u32
  constants_done :: bool

text \<open>\<open>show_list\<close> prints a list in the band: \<open>v\<close> is the variable that keeps its value when a word cannot be read.\<close>

definition reread :: "u8 list \<Rightarrow> u32 \<Rightarrow> u32 \<Rightarrow> band \<Rightarrow> (band \<times> u32) option" where
  "reread f loc v s = do { (s1, r) \<leftarrow> read_virt f loc s; Some (s1, case r of None \<Rightarrow> v | Some x \<Rightarrow> x) }"

definition list_line :: "u32 \<Rightarrow> u32 \<Rightarrow> cstring" where
  "list_line loc v = [32] @ pad_octal 11 (unat loc) @ [32] @ pad_octal 11 (unat v) @ [32]
     @ pad_octal 3 (unat (drop_bit 24 v AND 0x3F)) @ [32] @ pad_octal 1 (unat (drop_bit 30 v AND 3)) @ [10]"

text \<open>The null pointer that \<open>read_string\<close> may return is not checked before it is printed.\<close>

definition show_string :: "u8 list \<Rightarrow> u32 \<Rightarrow> band \<Rightarrow> (band \<times> cstring) option" where
  "show_string f loc s = do {
     (s1, r) \<leftarrow> read_string f loc s;
     t \<leftarrow> r;
     Some (s1, [32, 39] @ t @ [39, 32])
   }"

definition show_string_at :: "u8 list \<Rightarrow> u32 \<Rightarrow> band \<Rightarrow> (band \<times> u32 \<times> cstring) option" where
  "show_string_at f l1 s = do {
     (s1, v) \<leftarrow> reread f l1 l1 s;
     (s2, t) \<leftarrow> show_string f l1 s1;
     Some (s2, v, list_line l1 v @ t @ [10])
   }"

definition show_element :: "u8 list \<Rightarrow> u32 \<Rightarrow> band \<Rightarrow> (band \<times> u32 \<times> cstring) option" where
  "show_element f v s =
    (let tag = drop_bit 24 v AND 0x3F in
     if v AND 0xFFFFFF = 0 then Some (s, v, [])
     else if tag = 3 then do {
       (s1, v1) \<leftarrow> reread f v v s;
       (s2, v2, t) \<leftarrow> show_string_at f v1 s1;
       Some (s2, v2, list_line v v1 @ t)
     }
     else if tag = 4 \<or> tag = 0x11 then show_string_at f v s
     else Some (s, v, []))"

primrec show_elements :: "nat \<Rightarrow> u8 list \<Rightarrow> u32 \<Rightarrow> u32 \<Rightarrow> band \<Rightarrow> (band \<times> cstring) option" where
  "show_elements 0 f loc v s = Some (s, [])"
| "show_elements (Suc n) f loc v s = do {
     (s1, v1) \<leftarrow> reread f loc v s;
     (s2, v2, t) \<leftarrow> show_element f v1 s1;
     (s3, ts) \<leftarrow> (if drop_bit 30 v1 AND 3 = 2 then Some (s2, []) else show_elements n f (loc + 1) v2 s2);
     Some (s3, list_line loc v1 @ t @ ts)
   }"

definition show_list :: "u8 list \<Rightarrow> band \<Rightarrow> (band \<times> cstring) option" where
  "show_list f s = do {
     (s1, v) \<leftarrow> reread f 0xC3064505 0 s;
     show_elements 10 f 0xC3064505 v s1
   }"

subsection \<open>Operands\<close>

definition find_constant :: "world \<Rightarrow> symbols \<Rightarrow> nat \<Rightarrow> decoder \<Rightarrow> decoder option" where
  "find_constant w t i s =
    (case sym_find_by_type_val t True 4 (of_nat i) of
       None \<Rightarrow> Some s
     | Some nm \<Rightarrow>
        if strcasecmp_eq nm (cstr ''A-V-CONSTANTS-AREA'') then do {
          (m, v, _) \<leftarrow> read_mem w (a_memory (cpu (dmach s)) i) (constants_area s) (dmach s);
          Some (s\<lparr>dmach := m, constants_area := v\<rparr>)
        }
        else Some s)"

primrec find_constants :: "world \<Rightarrow> symbols \<Rightarrow> nat list \<Rightarrow> decoder \<Rightarrow> decoder option" where
  "find_constants w t [] s = Some s"
| "find_constants w t (i # is) s = do { s1 \<leftarrow> find_constant w t i s; find_constants w t is s1 }"

text \<open>\<open>u\<close> is what the uninitialised variable holds that \<open>read_mem\<close> is to fill.\<close>

definition disassemble_address :: "world \<Rightarrow> symbols \<Rightarrow> u32 \<Rightarrow> u32 \<Rightarrow> u32 \<Rightarrow> decoder \<Rightarrow> (decoder \<times> cstring) option" where
  "disassemble_address w t u reg delta s =
    (if reg < 4 then Some (s, cstr ''FEF|'' @ print_octal delta @ cstr '';'')
     else if reg = 4 then do {
       s1 \<leftarrow> (if constants_done s then Some s
              else map_option (\<lambda>s. s\<lparr>constants_done := True\<rparr>) (find_constants w t [0..<1024] s));
       (m, v, _) \<leftarrow> read_mem w (constants_area s1 + (delta AND 0x3F)) u (dmach s1);
       Some (s1\<lparr>dmach := m\<rparr>, cstr ''/'' @ print_octal v)
     }
     else if delta = 0x1FF then Some (s, cstr ''PDL-POP'')
     else if reg = 5 then Some (s, cstr ''LOCAL|'' @ print_octal (delta AND 0x3F))
     else if reg = 6 then Some (s, cstr ''ARG|'' @ print_octal (delta AND 0x3F))
     else Some (s, cstr ''PDL|'' @ print_octal (delta AND 0x3F)))"

subsection \<open>Instructions\<close>

definition bget :: "u8 list \<Rightarrow> u32 \<Rightarrow> decoder \<Rightarrow> (decoder \<times> u32) option" where
  "bget f a s = do { (b, v) \<leftarrow> get f a (dband s); Some (s\<lparr>dband := b\<rparr>, v) }"

text \<open>The type of an object: five bits above the pointer. The shift is undefined for 32 bits and more.\<close>

definition tag_of :: "u32 \<Rightarrow> u32 \<Rightarrow> u32 option" where
  "tag_of width v = (if width < 32 then Some (drop_bit (unat width) v AND 0x1F) else None)"

primrec fetch_words :: "(u32 \<Rightarrow> 's \<Rightarrow> ('s \<times> u32) option) \<Rightarrow> nat \<Rightarrow> u32 \<Rightarrow> 's \<Rightarrow> ('s \<times> u8 list) option" where
  "fetch_words rd 0 a s = Some (s, [])"
| "fetch_words rd (Suc n) a s = do {
     (s1, v) \<leftarrow> rd a s;
     (s2, bs) \<leftarrow> fetch_words rd n (a + 1) s1;
     Some (s2, word_bytes v @ bs)
   }"

definition showstr :: "u8 list \<Rightarrow> u32 \<Rightarrow> bool \<Rightarrow> decoder \<Rightarrow> (decoder \<times> cstring) option" where
  "showstr f a cr s = do {
     (s1, v) \<leftarrow> bget f a s;
     let t = unat (v AND 0xFF);
     (s2, bs) \<leftarrow> fetch_words (bget f) ((t + 3) div 4) (a + 1) s1;
     Some (s2, [39] @ strdup (take t bs) @ [39, 32] @ (if cr then cstr '' <break> '' else []))
   }"

definition show_fef_func_name :: "u8 list \<Rightarrow> u32 \<Rightarrow> u32 \<Rightarrow> decoder \<Rightarrow> (decoder \<times> cstring) option" where
  "show_fef_func_name f fefptr width s = do {
     (s1, n) \<leftarrow> bget f (fefptr + 2) s;
     (s2, v) \<leftarrow> bget f n s1;
     tag \<leftarrow> tag_of width v;
     (s3, v1, tag1) \<leftarrow> (if tag = 3 then do {
         (s', v') \<leftarrow> bget f v s2;
         tag' \<leftarrow> tag_of width v';
         Some (s', v', tag')
       }
       else Some (s2, v, tag));
     if tag1 = 4 then do {
       (s4, t) \<leftarrow> showstr f v1 False s3;
       Some (s4, [32, 32] @ t)
     }
     else Some (s3, [32])
   }"

primrec find_fef :: "nat \<Rightarrow> u32 \<Rightarrow> u8 list \<Rightarrow> u32 \<Rightarrow> band \<Rightarrow> (band \<times> u32) option" where
  "find_fef 0 width f addr s = Some (s, addr)"
| "find_fef (Suc n) width f addr s = do {
     (s1, v) \<leftarrow> read_virt f addr s;
     (case v of
        None \<Rightarrow> Some (s1, addr)
      | Some v \<Rightarrow> do {
          tag \<leftarrow> tag_of width v;
          if tag = 7 then Some (s1, addr) else find_fef n width f (addr - 1) s1
        })
   }"

text \<open>The function that a call names.\<close>

definition show_callee :: "u8 list \<Rightarrow> u32 \<Rightarrow> u32 \<Rightarrow> u32 \<Rightarrow> decoder \<Rightarrow> (decoder \<times> cstring) option" where
  "show_callee f fefptr delta width s = do {
     (s1, v) \<leftarrow> bget f (fefptr + delta) s;
     tag \<leftarrow> tag_of width v;
     if tag = 3 then do { (s2, v1) \<leftarrow> bget f v s1; showstr f v1 False s2 }
     else if tag = 4 then showstr f v False s1
     else if tag = 0x17 then Some (s1, [])
     else do { (s2, v1) \<leftarrow> bget f v s1; show_fef_func_name f v1 width s2 }
   }"

text \<open>The offset of a branch, as the code computes it, and the text for it.\<close>

definition branch_offset :: "u32 \<Rightarrow> u32" where
  "branch_offset inst =
    (if inst AND 0x100 \<noteq> 0 then (inst AND 0x3FF) OR 0x600 OR NOT 0x3FF
     else push_bit 1 (inst AND 0x7FF) OR (if inst AND 0x8000 \<noteq> 0 then 1 else 0))"

definition show_target :: "u32 \<Rightarrow> cstring" where
  "show_target nlc = cstr ''; '' @ print_octal (nlc div 2) @ (if nlc AND 1 \<noteq> 0 then cstr ''o '' else cstr ''e '')"

definition show_branch :: "u32 \<Rightarrow> bool \<Rightarrow> u32 \<Rightarrow> cstring option" where
  "show_branch loc ev inst = do {
     let to = branch_offset inst;
     l2 \<leftarrow> c_mul loc 2;
     l3 \<leftarrow> c_add l2 (if ev then 0 else 1);
     nlc \<leftarrow> c_add l3 to;
     Some ((if 0 < sint to then cstr ''+'' @ print_octal to else cstr ''-'' @ print_octal (- to)) @ show_target nlc)
   }"

definition disass_op ::
  "world \<Rightarrow> symbols \<Rightarrow> u32 \<Rightarrow> u8 list \<Rightarrow> u32 \<Rightarrow> u32 \<Rightarrow> bool \<Rightarrow> u32 \<Rightarrow> u32 \<Rightarrow> decoder \<Rightarrow> (decoder \<times> cstring) option" where
  "disass_op w t u f fefptr loc ev inst width s =
    (let op = drop_bit 9 inst AND 0xF; dest = unat (drop_bit 13 inst AND 7); reg = drop_bit 6 inst AND 7; delta = inst AND 0x1FF in
     if op < 2 then do {
       (s1, a) \<leftarrow> disassemble_address w t u reg delta s;
       (s2, c) \<leftarrow> show_callee f fefptr (delta AND 0x3F) width s1;
       Some (s2, cstr (call_names ! unat op) @ [32] @ cstr (dest_names ! dest) @ [32] @ a @ c)
     }
     else if op < 9 then do {
       (s1, a) \<leftarrow> disassemble_address w t u reg delta s;
       Some (s1, cstr (call_names ! unat op) @ [32] @ cstr (dest_names ! dest) @ [32] @ a)
     }
     else if op < 12 then do {
       (s1, a) \<leftarrow> disassemble_address w t u reg delta s;
       Some (s1, cstr ((if op = 9 then nd1_names else if op = 10 then nd2_names else nd3_names) ! dest) @ [32] @ a)
     }
     else if op = 12 then do {
       b \<leftarrow> show_branch loc ev inst;
       Some (s, cstr (branch_names ! dest) @ [32] @ b)
     }
     else if op = 13 then do {
       m \<leftarrow> misc_name (inst AND 0x1FF);
       Some (s, cstr ''(MISC) '' @ m @ cstr (dest_names ! dest) @ [32])
     }
     else Some (s, []))"

definition disass ::
  "world \<Rightarrow> symbols \<Rightarrow> u32 \<Rightarrow> u8 list \<Rightarrow> u32 \<Rightarrow> bool \<Rightarrow> u32 \<Rightarrow> u32 \<Rightarrow> decoder \<Rightarrow> (decoder \<times> cstring) option" where
  "disass w t u f loc ev inst width s = do {
     b0 \<leftarrow> with_partition f (dband s);
     (b1, fefptr) \<leftarrow> find_fef 512 width f (drop_bit 2 loc) b0;
     (s1, text) \<leftarrow> disass_op w t u f fefptr loc ev inst width (s\<lparr>dband := b1\<rparr>);
     Some (s1, pad_octal 11 (unat loc) @ (if ev then cstr ''e '' else cstr ''o '') @ pad_octal 6 (unat inst) @ [32] @ text)
   }"

subsection \<open>Miscellaneous instructions\<close>

lemma set_misc_vector_ok:
  assumes "\<forall>x \<in> set xs. snd x < 1024"
  shows "\<exists>vec1. set_misc_vector k xs vec = Some vec1 \<and>
    (\<forall>c. (\<forall>x \<in> set xs. snd x \<noteq> c) \<longrightarrow> vec1 c = vec c) \<and>
    (\<forall>i < length xs. (\<forall>j. i < j \<longrightarrow> j < length xs \<longrightarrow> snd (xs ! j) \<noteq> snd (xs ! i)) \<longrightarrow> vec1 (snd (xs ! i)) = k + i)"
  using assms
proof (induction xs arbitrary: k vec)
  case (Cons x xs)
  obtain vec1 where v: "set_misc_vector (k + 1) xs (vec(snd x := k)) = Some vec1"
    "\<forall>c. (\<forall>x \<in> set xs. snd x \<noteq> c) \<longrightarrow> vec1 c = (vec(snd x := k)) c"
    "\<forall>i < length xs. (\<forall>j. i < j \<longrightarrow> j < length xs \<longrightarrow> snd (xs ! j) \<noteq> snd (xs ! i)) \<longrightarrow> vec1 (snd (xs ! i)) = k + 1 + i"
    using Cons.IH [of "k + 1" "vec(snd x := k)"] Cons.prems by (simp only: set_simps ball_simps) blast
  have "vec1 (snd ((x # xs) ! i)) = k + i"
    if i: "i < length (x # xs)" and later: "\<forall>j. i < j \<longrightarrow> j < length (x # xs) \<longrightarrow> snd ((x # xs) ! j) \<noteq> snd ((x # xs) ! i)" for i
  proof (cases i)
    case 0
    have "\<forall>y \<in> set xs. snd y \<noteq> snd x"
    proof
      fix y assume "y \<in> set xs"
      then obtain m where "m < length xs" "y = xs ! m" by (auto simp: in_set_conv_nth)
      then show "snd y \<noteq> snd x" using later [rule_format, of "Suc m"] by (simp add: 0)
    qed
    then show ?thesis using v(2) by (simp add: 0)
  next
    case (Suc m)
    have "\<forall>j. m < j \<longrightarrow> j < length xs \<longrightarrow> snd (xs ! j) \<noteq> snd (xs ! m)"
      using later Suc by (metis Suc_less_eq length_Cons nth_Cons_Suc)
    then show ?thesis using v(3) i by (simp add: Suc)
  qed
  then show ?case using v(1,2) Cons.prems by (auto simp: st_def)
qed simp

text \<open>The codes ascend; only NOT shares its code with the entry that follows.\<close>

fun ascending :: "(string \<times> nat) list \<Rightarrow> bool" where
  "ascending (x # y # xs) \<longleftrightarrow> (snd x < snd y \<or> fst x = ''NOT'' \<and> snd x \<le> snd y) \<and> ascending (y # xs)"
| "ascending _ \<longleftrightarrow> True"

lemma ascending_nth:
  "ascending xs \<Longrightarrow> i < j \<Longrightarrow> j < length xs \<Longrightarrow> snd (xs ! i) \<le> snd (xs ! j) \<and> (fst (xs ! i) \<noteq> ''NOT'' \<longrightarrow> snd (xs ! i) < snd (xs ! j))"
proof (induction xs arbitrary: i j rule: ascending.induct)
  case (1 x y xs)
  obtain k where k: "j = Suc k" using 1(3) by (cases j) auto
  have xy: "snd x < snd y \<or> fst x = ''NOT'' \<and> snd x \<le> snd y" and as: "ascending (y # xs)" using 1(2) by auto
  show ?case
  proof (cases i)
    case 0
    have "snd y \<le> snd ((y # xs) ! k)"
    proof (cases k)
      case (Suc m)
      then show ?thesis using 1(1) [OF as, of 0 k] 1(4) by (simp add: k)
    qed simp
    then show ?thesis using xy by (auto simp: 0 k)
  next
    case (Suc m)
    then show ?thesis using 1(1) [OF as, of m k] 1(3,4) by (simp add: k)
  qed
qed auto

lemma misc_inst_ascending: "ascending misc_inst"
  by (simp add: misc_inst_def misc_inst_1_def misc_inst_2_def misc_inst_3_def)

lemma misc_inst_codes: "list_all (\<lambda>x. snd x < 512) misc_inst"
  by (simp add: misc_inst_def misc_inst_1_def misc_inst_2_def misc_inst_3_def)

text \<open>
  C28. A MISC instruction is printed with the name that the table has for its code, for every entry but the
  dummy at its start and NOT, which prints as the entry after it with the same code.
\<close>

theorem misc_names_found:
  assumes "i < length misc_inst" and "0 < i" and "misc_inst ! i = (name, code)" and "name \<noteq> ''NOT''"
  shows "misc_name (of_nat code) = Some (cstr name @ [32])"
proof -
  have codes: "\<forall>x \<in> set misc_inst. snd x < 512" using misc_inst_codes by (simp add: list_all_iff)
  then have c: "code < 512" using assms(1,3) nth_mem [of i misc_inst] by fastforce
  then have u: "unat (of_nat code :: u32) = code" by (simp add: unat_of_nat_small)
  have lt: "(of_nat code :: u32) < 1024" using c u by (simp add: word_less_nat_alt)
  obtain vec where vec: "misc_inst_vector = Some vec"
    "\<forall>i < length misc_inst. (\<forall>j. i < j \<longrightarrow> j < length misc_inst \<longrightarrow> snd (misc_inst ! j) \<noteq> snd (misc_inst ! i)) \<longrightarrow> vec (snd (misc_inst ! i)) = i"
    using set_misc_vector_ok [of misc_inst 0 "\<lambda>i. 0"] codes by (fastforce simp: misc_inst_vector_def)
  have "vec (snd (misc_inst ! i)) = i"
    using vec(2) assms ascending_nth [OF misc_inst_ascending, of i] by fastforce
  then show ?thesis using assms(2,3) u lt by (simp add: misc_name_def vec(1) Let_def del: cstr_simps)
qed

lemma misc_names_found_witness: "misc_name 0xA8 = Some (cstr ''CAAAR'' @ [32])"
proof -
  have "7 < length misc_inst" "misc_inst ! 7 = (''CAAAR'', 0xA8)" by (simp_all add: misc_inst_def misc_inst_1_def)
  then show ?thesis using misc_names_found [of 7 "''CAAAR''" "0xA8"] by simp
qed

subsection \<open>Branches\<close>

text \<open>
  The offset of a branch is printed on two scales: nine bits are a signed offset when they are
  negative, but a positive offset is doubled, and one more is added when the top bit of the
  condition is set.
\<close>

theorem branch_offset_inconsistent:
  assumes "drop_bit 9 inst AND 0xF = 12"
  shows "sint (branch_offset inst) =
    (let d = unat (inst AND 0x1FF) in
     if d < 256 then 2 * int d + (if bit inst 15 then 1 else 0) else int d - 512)"
proof -
  define d where "d = unat (inst AND mask 9)"
  have m: "inst AND 0x1FF = inst AND mask 9" by (simp add: mask_eq_exp_minus_1)
  have v: "inst AND mask 9 = of_nat d" by (simp add: d_def)
  have d: "d < 512" by (simp add: d_def unat_and_mask)
  have b: "\<not> bit inst 9" "\<not> bit inst 10"
    using arg_cong [OF assms, of "\<lambda>x. bit x 0"] arg_cong [OF assms, of "\<lambda>x. bit x 1"] by (simp_all add: bit_simps)
  have one: "inst AND 0x100 \<noteq> 0 \<longleftrightarrow> bit inst 8" "inst AND 0x8000 \<noteq> 0 \<longleftrightarrow> bit inst 15"
    using bit_iff_and_push_bit_not_eq_0 [of inst 8] bit_iff_and_push_bit_not_eq_0 [of inst 15] by simp_all
  have "bit d 8 = bit (inst AND mask 9) 8" by (simp add: d_def bit_unsigned_iff bit_simps)
  moreover have "bit d 8 \<longleftrightarrow> 256 \<le> d"
  proof -
    have "d div 256 = 0 \<or> d div 256 = 1" using d by linarith
    then show ?thesis by (auto simp: bit_iff_odd div_eq_0_iff)
  qed
  ultimately have sgn: "bit inst 8 \<longleftrightarrow> 256 \<le> d" by (simp add: bit_simps)
  have ms: "(0x3FF :: u32) = mask 10" "(0x7FF :: u32) = mask 11" "(0x600 :: u32) = push_bit 9 (mask 2)"
    by (simp_all add: mask_eq_exp_minus_1)
  have nm: "NOT (mask 9) = (- 512 :: u32)" by (simp add: mask_eq_exp_minus_1 not_eq_complement)
  show ?thesis
  proof (cases "256 \<le> d")
    case True
    have "branch_offset inst = inst AND mask 9 OR NOT (mask 9)"
    proof (rule bit_word_eqI)
      fix n assume "n < LENGTH(32)"
      consider "n \<le> 8" | "n = 9" | "n = 10" | "n = 11" | "11 < n" by linarith
      then show "bit (branch_offset inst) n = bit (inst AND mask 9 OR NOT (mask 9)) n"
        unfolding branch_offset_def one ms using True sgn b by cases (auto simp: bit_simps)
    qed
    also have "\<dots> = (inst AND mask 9) + NOT (mask 9)"
      by (rule disjunctive_add_eq_or [symmetric]) (simp add: and.assoc)
    also have "\<dots> = word_of_int (int d - 512)" unfolding v nm by simp
    finally show ?thesis using True d sint_word_of_int [of "int d - 512"] by (simp add: m v unat_of_nat_small)
  next
    case False
    have "inst AND mask 11 = inst AND mask 9"
    proof (rule bit_word_eqI)
      fix n assume "n < LENGTH(32)"
      consider "n < 9" | "n = 9" | "n = 10" | "10 < n" by linarith
      then show "bit (inst AND mask 11) n = bit (inst AND mask 9) n"
        using b by cases (auto simp: bit_simps)
    qed
    then have "branch_offset inst = push_bit 1 (inst AND mask 9) OR (if bit inst 15 then 1 else 0)"
      unfolding branch_offset_def one ms using False sgn by simp
    also have "\<dots> = push_bit 1 (inst AND mask 9) + (if bit inst 15 then 1 else 0)"
    proof (rule disjunctive_add_eq_or [symmetric])
      have "push_bit 1 x AND 1 = 0" for x :: u32
        by (rule bit_word_eqI) (auto simp only: bit_and_iff bit_push_bit_iff bit_1_iff bit_0_eq simp_thms)
      then show "push_bit 1 (inst AND mask 9) AND (if bit inst 15 then 1 else 0) = 0"
        by (simp only: and_zero_eq split: if_split) simp
    qed
    also have "\<dots> = word_of_int (2 * int d + (if bit inst 15 then 1 else 0))" by (simp add: v push_bit_eq_mult)
    finally show ?thesis using False d sint_word_of_int [of "2 * int d + (if bit inst 15 then 1 else 0)"] by (simp add: m v unat_of_nat_small)
  qed
qed

lemma branch_offset_inconsistent_witness:
  "sint (branch_offset 0x1805) = 10 \<and> sint (branch_offset 0x19FB) = -5"
  using branch_offset_inconsistent [of "0x1805"] branch_offset_inconsistent [of "0x19FB"] by simp

end
