(* ===== verification/Usim_Lod.thy ===== *)
theory Usim_Lod
  imports Usim_Macro
begin

section \<open>The load band tool (lod.c)\<close>

text \<open>
  \<open>lod\<close> prints areas and functions of a load band, and the communication area of the swap partition of
  a disk image. Both files are read through one buffer of a block. The state holds the two files
  with their positions, the buffer, the partition table and the text printed.
\<close>

record channel =
  cbytes :: "u8 list"
  cpos :: nat

record lod_part =
  lp_name :: cstring
  lp_start :: u32
  lp_size :: u32

record lod =
  lodfd :: channel
  swapfd :: channel
  lod_partoff :: u32
  lod_bnum :: u32
  lod_buf :: "u32 arr"
  lod_parts :: "lod_part list"
  lod_text :: cstring

definition no_channel :: channel where
  "no_channel = \<lparr>cbytes = [], cpos = 0\<rparr>"

definition lod_start :: lod where
  "lod_start = \<lparr>lodfd = no_channel, swapfd = no_channel, lod_partoff = 0, lod_bnum = -1, lod_buf = (\<lambda>i. 0),
     lod_parts = [], lod_text = []\<rparr>"

definition put :: "cstring \<Rightarrow> lod \<Rightarrow> lod" where
  "put t s = s\<lparr>lod_text := lod_text s @ t\<rparr>"

definition sys_com :: "(string \<times> u32) list" where
  "sys_com =
    [(''%SYS-COM-AREA-ORIGIN-PNTR'', 0x100), (''%SYS-COM-VALID-SIZE'', 0x101),
     (''%SYS-COM-PAGE-TABLE-PNTR'', 0x102), (''%SYS-COM-PAGE-TABLE-SIZE'', 0x103),
     (''%SYS-COM-OBARRAY-PNTR'', 0x104), (''%SYS-COM-ETHER-FREE-LIST'', 0x105),
     (''%SYS-COM-ETHER-TRANSMIT-LIST'', 0x106), (''%SYS-COM-ETHER-RECEIVE-LIST'', 0x107),
     (''%SYS-COM-BAND-FORMAT'', 0x108), (''%SYS-COM-SPARE-2'', 0x109),
     (''%SYS-COM-UNIBUS-INTERRUPT-LIST'', 0x10A), (''%SYS-COM-TEMPORARY'', 0x10B),
     (''%SYS-COM-FREE-AREA/#-LIST'', 0x10C), (''%SYS-COM-FREE-REGION/#-LIST'', 0x10D),
     (''%SYS-COM-MEMORY-SIZE'', 0x10E), (''%SYS-COM-WIRED-SIZE'', 0x10F)]"

definition cv :: "string list" where
  "cv =
    [''A-V-RESIDENT-SYMBOL-AREA'', ''A-V-SYSTEM-COMMUNICATION-AREA'', ''A-V-SCRATCH-PAD-INIT-AREA'',
     ''A-V-MICRO-CODE-SYMBOL-AREA'', ''A-V-PAGE-TABLE-AREA'', ''A-V-PHYSICAL-PAGE-DATA'',
     ''A-V-REGION-ORIGIN'', ''A-V-REGION-LENGTH'', ''A-V-REGION-BITS'', ''A-V-ADDRESS-SPACE-MAP'',
     ''A-V-REGION-FREE-POINTER'', ''A-V-REGION-GC-POINTER'', ''A-V-REGION-LIST-THREAD'', ''A-V-AREA-NAME'',
     ''A-V-AREA-REGION-LIST'', ''A-V-AREA-REGION-SIZE'', ''A-V-AREA-MAXIMUM-SIZE'',
     ''A-V-AREA-SWAP-RECOMMENDATIONS'', ''A-V-GC-TABLE-AREA'', ''A-V-SUPPORT-ENTRY-VECTOR'',
     ''A-V-CONSTANTS-AREA'', ''A-V-EXTRA-PDL-AREA'', ''A-V-MICRO-CODE-ENTRY-AREA'',
     ''A-V-MICRO-CODE-ENTRY-NAME-AREA'', ''A-V-MICRO-CODE-ENTRY-ARGS-INFO-AREA'',
     ''A-V-MICRO-CODE-ENTRY-MAX-PDL-USAGE'', ''A-V-MICRO-CODE-ENTRY-ARGLIST-AREA'',
     ''A-V-MICRO-CODE-SYMBOL-NAME-AREA'', ''A-V-LINEAR-PDL-AREA'', ''A-V-LINEAR-BIND-PDL-AREA'',
     ''A-V-INIT-LIST-AREA'', ''A-V-FIRST-UNFIXED-AREA'']"

definition sv :: "string list" where
  "sv =
    [''A-INITIAL-FEF'', ''A-QTRSTKG'', ''A-QCSTKG'', ''A-QISTKG'']"

subsection \<open>Reading\<close>

text \<open>
  One \<open>read\<close> of a block into the buffer, at the position of the file. A failed \<open>lseek\<close>
  leaves the position as it was, and the block is read all the same.
\<close>

definition read_buf :: "channel \<Rightarrow> u32 arr \<Rightarrow> channel \<times> u32 arr \<times> nat" where
  "read_buf c b =
    (let got = take 1024 (drop (cpos c) (cbytes c)) in (c\<lparr>cpos := cpos c + length got\<rparr>, overlay got b, length got))"

definition seek :: "u32 \<Rightarrow> channel \<Rightarrow> channel" where
  "seek offset c = (if sint offset < 0 then c else c\<lparr>cpos := unat offset\<rparr>)"

definition fd :: "bool \<Rightarrow> lod \<Rightarrow> channel" where
  "fd swap s = (if swap then swapfd s else lodfd s)"

definition lod_read_virt :: "bool \<Rightarrow> u32 \<Rightarrow> lod \<Rightarrow> (lod \<times> u32) option" where
  "lod_read_virt swap addr0 s = do {
     let addr = addr0 AND 0xFFFFFF;
     let b = drop_bit 8 addr;
     n \<leftarrow> c_add b (lod_partoff s);
     offset \<leftarrow> c_mul n 1024;
     let s1 = (if b \<noteq> lod_bnum s then
         (let (c, bf, _) = read_buf (seek offset (fd swap s)) (lod_buf s) in
          if swap then s\<lparr>lod_bnum := b, swapfd := c, lod_buf := bf\<rparr> else s\<lparr>lod_bnum := b, lodfd := c, lod_buf := bf\<rparr>)
       else s);
     Some (s1, lod_buf s1 (unat (addr AND 0xFF)))
   }"

text \<open>A table entry is added for each partition, but the pointer to it stays on the first.\<close>

primrec read_table :: "nat \<Rightarrow> u32 arr \<Rightarrow> lod_part list \<Rightarrow> lod_part list option" where
  "read_table 0 b ps = Some ps"
| "read_table (Suc n) b ps =
     (if length ps < 16
      then read_table n b (ps @ [\<lparr>lp_name = strdup (word_bytes (b 0x82)), lp_start = b 0x83, lp_size = b 0x84\<rparr>])
      else None)"

definition read_partition_table :: "lod \<Rightarrow> (lod \<times> int) option" where
  "read_partition_table s =
    (let (c, b, got) = read_buf (swapfd s) (lod_buf s); s1 = s\<lparr>swapfd := c, lod_buf := b\<rparr> in
     if got \<noteq> 1024 then Some (s1, -1)
     else if Some (b 0) \<noteq> str4 (cstr ''LABL'') then Some (s1, -1)
     else if b 1 \<noteq> 1 then Some (s1, -1)
     else do {
       ps \<leftarrow> read_table (nat (sint (b 0x80))) b [];
       Some (s1\<lparr>lod_parts := ps\<rparr>, 0)
     })"

definition start_of :: "string \<Rightarrow> u32 \<Rightarrow> lod \<Rightarrow> u32" where
  "start_of name def s =
    (case find (\<lambda>p. lp_name p = cstr name) (lod_parts s) of None \<Rightarrow> def | Some p \<Rightarrow> lp_start p)"

definition set_swap :: "lod \<Rightarrow> lod" where
  "set_swap s = (let p = start_of ''SWAP'' 0x154 s in
     put (cstr ''SWAP partoff '' @ print_octal p @ [10]) (s\<lparr>lod_partoff := p, lod_bnum := -1\<rparr>))"

definition set_lod1 :: "lod \<Rightarrow> lod" where
  "set_lod1 s = (let p = start_of ''LOD1'' 0x2288 s in
     put (cstr ''LOD1 partoff '' @ print_octal p @ [10]) (s\<lparr>lod_partoff := p, lod_bnum := -1\<rparr>))"

definition lod_show :: "bool \<Rightarrow> u32 \<Rightarrow> bool \<Rightarrow> lod \<Rightarrow> (lod \<times> u32) option" where
  "lod_show swap a cr s = do {
     (s1, v) \<leftarrow> lod_read_virt swap a s;
     Some (put (pad_octal 11 (unat a) @ [32] @ pad_octal 11 (unat v) @ cstr '' (0x'' @ pad_hex 8 (unat v) @ cstr '')''
            @ (if cr then [10] else [])) s1, v)
   }"

definition showlabel :: "bool \<Rightarrow> string \<Rightarrow> u32 \<Rightarrow> bool \<Rightarrow> lod \<Rightarrow> (lod \<times> u32) option" where
  "showlabel swap l a cr s = lod_show swap a cr (put (cstr l @ cstr '': '') s)"

definition lod_showstr :: "u32 \<Rightarrow> bool \<Rightarrow> lod \<Rightarrow> lod option" where
  "lod_showstr a cr s = do {
     (s1, v) \<leftarrow> lod_read_virt False a s;
     let t = unat (v AND 0xFF);
     (s2, bs) \<leftarrow> fetch_words (lod_read_virt False) ((t + 3) div 4) (a + 1) s1;
     Some (put ([39] @ strdup (take t bs) @ [39, 32] @ (if cr then [10] else [])) s2)
   }"

definition lod_fef_func_name :: "u32 \<Rightarrow> u32 \<Rightarrow> lod \<Rightarrow> lod option" where
  "lod_fef_func_name fefptr width s = do {
     (s1, n) \<leftarrow> lod_read_virt False (fefptr + 2) s;
     (s2, v) \<leftarrow> lod_read_virt False n (put [32] s1);
     tag \<leftarrow> tag_of width v;
     (s3, v1, tag1) \<leftarrow> (if tag = 3 then do {
         (s', v') \<leftarrow> lod_read_virt False v s2;
         tag' \<leftarrow> tag_of width v';
         Some (s', v', tag')
       }
       else Some (s2, v, tag));
     if tag1 = 4 then lod_showstr v1 False (put [32] s3) else Some s3
   }"

subsection \<open>Disassembly\<close>

definition lod_callee :: "u32 \<Rightarrow> u32 \<Rightarrow> u32 \<Rightarrow> lod \<Rightarrow> lod option" where
  "lod_callee fefptr delta width s = do {
     (s1, v) \<leftarrow> lod_read_virt False (fefptr + delta) s;
     tag \<leftarrow> tag_of width v;
     if tag = 3 then do { (s2, v1) \<leftarrow> lod_read_virt False v s1; lod_showstr v1 False s2 }
     else if tag = 4 then lod_showstr v False s1
     else if tag = 0x17 then Some s1
     else do { (s2, v1) \<leftarrow> lod_read_virt False v s1; lod_fef_func_name v1 width s2 }
   }"

definition lod_operand :: "u32 \<Rightarrow> nat \<Rightarrow> u32 \<Rightarrow> cstring" where
  "lod_operand reg dest delta =
    cstr ''reg '' @ cstr (reg_names ! unat reg) @ cstr '', dest '' @ cstr (dest_names ! dest) @ cstr '', delta '' @ print_octal delta @ [32]"

definition lod_branch :: "u32 \<Rightarrow> bool \<Rightarrow> u32 \<Rightarrow> cstring" where
  "lod_branch loc ev inst =
    (let to = branch_offset inst; nlc = loc * 2 + (if ev then 0 else 1) + to in
     (if 0 < sint to then cstr ''+'' @ print_octal to else cstr ''-'' @ print_octal (- to)) @ show_target nlc)"

definition lod_disass :: "u32 \<Rightarrow> u32 \<Rightarrow> bool \<Rightarrow> u32 \<Rightarrow> u32 \<Rightarrow> lod \<Rightarrow> lod option" where
  "lod_disass fefptr loc ev inst width s =
    (let op = drop_bit 9 inst AND 0xF; dest = unat (drop_bit 13 inst AND 7); reg = drop_bit 6 inst AND 7; delta = inst AND 0x3F;
         s0 = put (pad_octal 11 (unat loc) @ (if ev then cstr ''e '' else cstr ''o '') @ pad_octal 6 (unat inst) @ [32]
                @ cstr (op_names ! unat op) @ [32]) s in do {
     s1 \<leftarrow>
       (if op = 0 then lod_callee fefptr delta width (put (lod_operand reg dest delta) s0)
        else if 2 \<le> op \<and> op \<le> 5 then Some (put (lod_operand reg dest delta) s0)
        else if op = 9 then Some (put (cstr (nd1_names ! dest) @ [32]) s0)
        else if op = 10 then Some (put (cstr (nd2_names ! dest) @ [32]) s0)
        else if op = 11 then Some (put (cstr (nd3_names ! dest) @ [32]) s0)
        else if op = 12 then Some (put (cstr ''type '' @ cstr (branch_names ! dest) @ cstr '', '' @ lod_branch loc ev inst) s0)
        else if op = 13 then do {
          m \<leftarrow> misc_name (inst AND 0x1FF);
          Some (put (m @ cstr ''dest '' @ cstr (dest_names ! dest) @ cstr '', '') s0)
        }
        else Some s0);
     Some (put [10] s1)
   })"

text \<open>
  The search for the header: the counter starts at 0 and goes down, so that it stays below 512 until it
  overflows; \<open>k\<close> is the number of trips left before that.
\<close>

fun lod_find_fef :: "nat \<Rightarrow> u32 \<Rightarrow> u32 \<Rightarrow> lod \<Rightarrow> (lod \<times> u32) option" where
  "lod_find_fef k width addr s =
    (if k = 0 then None
     else do {
       (s1, n) \<leftarrow> lod_read_virt False addr s;
       tag \<leftarrow> tag_of width n;
       if tag = 7 then Some (s1, addr) else lod_find_fef (k - 1) width (addr - 1) s1
     })"

declare lod_find_fef.simps [simp del]

text \<open>The words of the function; the instructions of the first \<open>max\<close> words are collected in \<open>ib\<close>.\<close>

definition dump_word :: "u32 \<Rightarrow> u32 \<Rightarrow> u32 \<Rightarrow> nat \<Rightarrow> u16 list \<Rightarrow> lod \<Rightarrow> (lod \<times> u16 list) option" where
  "dump_word addr off width i ib s = do {
     let loc = addr + of_nat i;
     (s1, inst) \<leftarrow> lod_read_virt False loc s;
     ib1 \<leftarrow> (if length ib + 2 \<le> 512 then Some (ib @ [ucast inst, ucast (drop_bit 16 inst)]) else None);
     s2 \<leftarrow> (if i < unat off div 2 then map_option fst (lod_show False loc True s1) else Some s1);
     s3 \<leftarrow> (if i = 2 then do {
         (t1, v) \<leftarrow> lod_show False inst False (put [32] s2);
         tag \<leftarrow> tag_of width v;
         (t2, v1, tag1) \<leftarrow> (if tag = 3 then do {
             (t', v') \<leftarrow> lod_show False v False (put [10, 32] t1);
             Some (t', v', drop_bit 24 v' AND 0x1F)
           }
           else Some (t1, v, tag));
         if tag1 = 4 then lod_showstr v1 True (put [32] t2) else Some t2
       }
       else Some s2);
     Some (s3, ib1)
   }"

primrec dump_words :: "nat \<Rightarrow> nat \<Rightarrow> u32 \<Rightarrow> u32 \<Rightarrow> u32 \<Rightarrow> u16 list \<Rightarrow> lod \<Rightarrow> (lod \<times> u16 list) option" where
  "dump_words 0 i addr off width ib s = Some (s, ib)"
| "dump_words (Suc n) i addr off width ib s = do {
     (s1, ib1) \<leftarrow> dump_word addr off width i ib s;
     dump_words n (i + 1) addr off width ib1 s1
   }"

text \<open>\<open>g\<close> is what the elements of \<open>ib\<close> hold that were never set.\<close>

primrec dump_insts :: "nat \<Rightarrow> nat \<Rightarrow> u32 \<Rightarrow> u32 \<Rightarrow> u16 \<Rightarrow> u16 list \<Rightarrow> lod \<Rightarrow> lod option" where
  "dump_insts 0 i addr width g ib s = Some s"
| "dump_insts (Suc n) i addr width g ib s = do {
     inst \<leftarrow> (if i < length ib then Some (ib ! i) else if i < 512 then Some g else None);
     s1 \<leftarrow> lod_disass addr (addr + of_nat (i div 2)) (i mod 2 = 0) (ucast inst) width s;
     dump_insts n (i + 1) addr width g ib s1
   }"

definition find_and_dump_fef :: "bool \<Rightarrow> u16 \<Rightarrow> u32 \<Rightarrow> lod \<Rightarrow> lod option" where
  "find_and_dump_fef wide g pc s = do {
     let width = (if wide then 25 else 24);
     let addr0 = drop_bit 2 pc;
     (s1, addr) \<leftarrow> lod_find_fef (2 ^ 31 + 1) width addr0
        (put ([10] @ cstr ''pc '' @ print_octal pc @ cstr '', addr '' @ print_octal addr0 @ [10]) s);
     (s2, n) \<leftarrow> lod_read_virt False addr s1;
     let off = n AND 0x1FF;
     (s3, m) \<leftarrow> lod_read_virt False (addr + 1) (put (cstr ''code offset '' @ print_octal off @ [10]) s2);
     let max = unat (m AND 0xFFF);
     (s4, ib) \<leftarrow> dump_words max 0 addr off width [] s3;
     dump_insts (2 * max + unat off mod 2 - unat off) (unat off) addr width g ib s4
   }"

subsection \<open>The program\<close>

text \<open>The options; \<open>pc\<close> and \<open>addr\<close> as \<open>-p\<close>, \<open>-a\<close> and \<open>-m\<close> leave them.\<close>

record lod_options =
  loadband_filename :: "cstring option"
  lod_disk_filename :: "cstring option"
  show_comm :: bool
  show_scratch :: bool
  show_initial_fef :: bool
  show_fef :: bool
  show_initial_sg :: bool
  show_memory :: bool
  set_wide :: bool
  lod_pc :: u32
  lod_addr :: u32

primrec lod_each :: "('a \<Rightarrow> lod \<Rightarrow> lod option) \<Rightarrow> 'a list \<Rightarrow> lod \<Rightarrow> lod option" where
  "lod_each g [] s = Some s"
| "lod_each g (x # xs) s = do { s1 \<leftarrow> g x s; lod_each g xs s1 }"

definition show_two :: "u32 \<Rightarrow> nat \<times> string \<Rightarrow> lod \<Rightarrow> lod option" where
  "show_two base x s = do {
     (s1, v) \<leftarrow> lod_show False (base + of_nat (fst x)) False (put (cstr (snd x) @ [32]) s);
     (s2, _) \<leftarrow> lod_show False v True (put (cstr ''; '') s1);
     Some s2
   }"

definition lod_when :: "bool \<Rightarrow> (lod \<Rightarrow> lod option) \<Rightarrow> lod \<Rightarrow> lod option" where
  "lod_when b g s = (if b then g s else Some s)"

definition dump_initial_fef :: "bool \<Rightarrow> u16 \<Rightarrow> lod \<Rightarrow> lod option" where
  "dump_initial_fef wide g s = do {
     (s1, p) \<leftarrow> showlabel False (sv ! 0) 0x200 True s;
     (s2, v) \<leftarrow> lod_show False p True s1;
     find_and_dump_fef wide g (push_bit 2 v) s2
   }"

definition dump_initial_sg :: "lod \<Rightarrow> lod option" where
  "dump_initial_sg s = do {
     (s1, p) \<leftarrow> showlabel False (sv ! 3) 0x203 True s;
     let a = p AND 0xFFFFFF;
     lod_each (\<lambda>i s. map_option fst (lod_show False (a - of_nat i) True s)) (rev [0..<11])
       (put ([10] @ cstr ''initial sg:'' @ [10]) s1)
   }"

definition dump_band :: "lod_options \<Rightarrow> u16 \<Rightarrow> lod \<Rightarrow> lod option" where
  "dump_band opts g s = do {
     (s1, com) \<leftarrow> showlabel False ''%SYS-COM-AREA-ORIGIN-PNTR'' 0x100 True s;
     (s2, _) \<leftarrow> showlabel False ''%SYS-COM-BAND-FORMAT'' 0x108 True s1;
     s3 \<leftarrow> lod_when (show_comm opts) (\<lambda>s. map_option (put [10]) (lod_each (show_two com) (enumerate 0 cv) s)) s2;
     s4 \<leftarrow> lod_when (show_scratch opts)
            (\<lambda>s. map_option (put [10]) (lod_each (show_two 0x200) (enumerate 0 sv) (put (cstr ''scratch-pad'' @ [10]) s))) s3;
     s5 \<leftarrow> lod_when (show_initial_fef opts) (dump_initial_fef (set_wide opts) g) s4;
     s6 \<leftarrow> lod_when (show_fef opts) (find_and_dump_fef (set_wide opts) g (lod_pc opts)) s5;
     s7 \<leftarrow> lod_when (show_initial_sg opts) dump_initial_sg s6;
     lod_when (show_memory opts)
       (\<lambda>s. lod_each (\<lambda>i s. map_option fst (lod_show False (lod_addr opts + of_nat i) True s)) [0..<10]
             (put (cstr ''memory @ '' @ print_octal (lod_addr opts) @ cstr '':'' @ [10]) s)) s7
   }"

text \<open>\<open>main\<close> after the options are read; the value inside is what it printed and its exit code.\<close>

definition lod_main :: "(cstring \<Rightarrow> u8 list option) \<Rightarrow> lod_options \<Rightarrow> u16 \<Rightarrow> (lod \<times> int) option" where
  "lod_main fs opts g =
    (let band = (case loadband_filename opts of None \<Rightarrow> Some None | Some n \<Rightarrow> map_option Some (fs n));
         disk = (case lod_disk_filename opts of None \<Rightarrow> Some None | Some n \<Rightarrow> map_option Some (fs n)) in
     case (band, disk) of
       (Some b, Some d) \<Rightarrow> do {
         let s0 = (case b of None \<Rightarrow> lod_start | Some f \<Rightarrow> lod_start\<lparr>lodfd := \<lparr>cbytes = f, cpos = 0\<rparr>\<rparr>);
         s1 \<leftarrow> (case d of None \<Rightarrow> Some s0
                | Some f \<Rightarrow> map_option (set_swap \<circ> fst) (read_partition_table (s0\<lparr>swapfd := \<lparr>cbytes = f, cpos = 0\<rparr>\<rparr>)));
         if b = None \<and> d = None then Some (s1, 2)
         else do {
           s2 \<leftarrow> lod_when (b \<noteq> None) (dump_band opts g) s1;
           s3 \<leftarrow> lod_when (d \<noteq> None \<and> show_comm opts)
                  (lod_each (\<lambda>x s. map_option fst (showlabel True (fst x) (snd x) True s)) sys_com) s2;
           Some (s3, 0)
         }
       }
     | _ \<Rightarrow> Some (lod_start, 1))"

subsection \<open>The buffer of a block\<close>

text \<open>The buffer holds the block of the file that it is thought to hold.\<close>

definition lod_holds :: "lod \<Rightarrow> bool" where
  "lod_holds s \<longleftrightarrow> lod_bnum s = -1 \<or>
     (\<forall>j < 256. lod_buf s j = buffer_of (cbytes (lodfd s)) (256 * (unat (lod_partoff s) + unat (lod_bnum s)) + j))"

text \<open>
  Reading a word of the load band, with the buffer right or empty: it is the word of the file at that address,
  moved on by the start of the partition - by 0 if there is only a load band, but when a disk image is given too
  the start of its swap partition is added, and the words shown are not those of the band.
\<close>

theorem lod_reads_band:
  assumes "lod_holds s" and "unat a < 2 ^ 24" and "unat (lod_partoff s) < 2 ^ 20"
    and "1024 * (unat (lod_partoff s) + unat a div 256 + 1) \<le> length (cbytes (lodfd s))"
  shows "\<exists>s'. lod_read_virt False a s = Some (s', buffer_of (cbytes (lodfd s)) (256 * unat (lod_partoff s) + unat a))
    \<and> lod_holds s' \<and> lod_partoff s' = lod_partoff s \<and> cbytes (lodfd s') = cbytes (lodfd s)"
proof -
  have "unat (a AND 0xFFFFFF) = unat a" using unat_and_mask [of a 24] assms(2) by (simp add: mask_eq_exp_minus_1)
  then have m: "a AND 0xFFFFFF = a" by (rule unsigned_word_eqI)
  define n where "n = unat a div 256"
  have ub: "unat (drop_bit 8 a) = n" by (simp add: n_def unat_div drop_bit_eq_div)
  then have b: "drop_bit 8 a = of_nat n" by (simp flip: ub)
  have i: "unat a = 256 * n + unat a mod 256" "unat a mod 256 < 256" by (simp_all add: n_def)
  have n: "n < 2 ^ 16" using assms(2) by (simp add: n_def)
  let ?P = "unat (lod_partoff s)"
  have add: "c_add (of_nat n) (lod_partoff s) = Some (of_nat (n + ?P))"
    using block_number [of n ?P] n assms(3) by simp
  obtain w where w: "c_mul (of_nat (n + ?P)) 1024 = Some w" "unat w = 1024 * (n + ?P)" "\<not> sint w < 0"
    using block_offset [of "n + ?P"] n assms(3) by auto
  have fit: "1024 * (n + ?P) + 1024 \<le> length (cbytes (lodfd s))" using assms(4) by (simp add: n_def algebra_simps)
  show ?thesis
  proof (cases "of_nat n = lod_bnum s")
    case True
    have "lod_bnum s \<noteq> -1"
    proof
      assume "lod_bnum s = -1"
      then have "unat (drop_bit 8 a) = unat (-1 :: u32)" using True b by simp
      then show False using ub n by (simp add: unsigned_minus_1_eq_mask mask_eq_exp_minus_1)
    qed
    then have f: "lod_buf s (unat a mod 256) = buffer_of (cbytes (lodfd s)) (256 * (?P + n) + unat a mod 256)"
      using assms(1) ub b True i(2) by (simp add: lod_holds_def)
    have "256 * (?P + n) + unat a mod 256 = 256 * ?P + unat a"
      by (simp only: distrib_left add.assoc i(1) [symmetric])
    then have "lod_buf s (unat a mod 256) = buffer_of (cbytes (lodfd s)) (256 * ?P + unat a)"
      using f by (simp only:)
    then show ?thesis using True assms(1) add w by (simp add: lod_read_virt_def m b)
  next
    case False
    define bf where "bf = overlay (take 1024 (drop (1024 * (n + ?P)) (cbytes (lodfd s)))) (lod_buf s)"
    have page: "bf j = buffer_of (cbytes (lodfd s)) (256 * (n + ?P) + j)" if "j < 256" for j
      using overlay_page [OF fit that] by (simp add: bf_def)
    have "256 * (n + ?P) + unat a mod 256 = 256 * ?P + unat a"
      by (simp only: add.commute [of n] distrib_left add.assoc i(1) [symmetric])
    then have "bf (unat a mod 256) = buffer_of (cbytes (lodfd s)) (256 * ?P + unat a)"
      using page [OF i(2)] by (simp only:)
    moreover define s' where "s' = s\<lparr>lod_bnum := of_nat n, lodfd := (lodfd s)\<lparr>cpos := 1024 * (n + ?P) + 1024\<rparr>, lod_buf := bf\<rparr>"
    moreover have "lod_read_virt False a s = Some (s', bf (unat a mod 256))"
      using False add w fit by (simp add: lod_read_virt_def m b read_buf_def seek_def fd_def Let_def s'_def bf_def min_def)
    moreover have "lod_holds s'"
      using page ub b by (simp add: lod_holds_def s'_def add.commute)
    ultimately show ?thesis by simp
  qed
qed


lemma buffer_of_replicate: "4 * i + 4 \<le> n \<Longrightarrow> buffer_of (replicate n v) i = bytes_word [v, v, v, v]"
proof -
  assume "4 * i + 4 \<le> n"
  then have "take 4 (drop (4 * i) (replicate n v)) = replicate 4 v" by (simp del: replicate.simps)
  also have "\<dots> = [v, v, v, v]" by (simp add: numeral_eq_Suc)
  finally show ?thesis by (simp only: buffer_of_def)
qed

lemma lod_reads_band_witness:
  "\<exists>s'. lod_read_virt False 3 (lod_start\<lparr>lodfd := \<lparr>cbytes = replicate 2048 7, cpos = 0\<rparr>, lod_partoff := 1\<rparr>) = Some (s', 0x07070707)"
proof -
  let ?s = "lod_start\<lparr>lodfd := \<lparr>cbytes = replicate 2048 7, cpos = 0\<rparr>, lod_partoff := 1\<rparr>"
  have "buffer_of (replicate 2048 7) 259 = 0x07070707"
    by (simp add: buffer_of_replicate bytes_word_def del: replicate.simps)
  then show ?thesis
    using lod_reads_band [of ?s 3] by (auto simp: lod_start_def lod_holds_def)
qed

text \<open>The word of the load band at an address.\<close>

definition band_word :: "lod \<Rightarrow> u32 \<Rightarrow> u32" where
  "band_word s x = buffer_of (cbytes (lodfd s)) (256 * unat (lod_partoff s) + unat x)"

lemma find_fef_steps:
  assumes "width < 32" and "unat (lod_partoff s) < 2 ^ 20" and "tag_of width (band_word s h) = Some 7"
    and "lod_holds s" and "h \<le> a" and "unat a < 2 ^ 24"
    and "1024 * (unat (lod_partoff s) + unat a div 256 + 1) \<le> length (cbytes (lodfd s))"
    and "\<And>x. h < x \<Longrightarrow> x \<le> a \<Longrightarrow> tag_of width (band_word s x) \<noteq> Some 7" and "unat a - unat h < k"
  shows "\<exists>s'. lod_find_fef k width a s = Some (s', h)"
  using assms(2-)
proof (induction k arbitrary: a s)
  case (Suc k)
  obtain s1 where s1: "lod_read_virt False a s = Some (s1, band_word s a)"
      "lod_holds s1" "lod_partoff s1 = lod_partoff s" "cbytes (lodfd s1) = cbytes (lodfd s)"
    using lod_reads_band [of s a] Suc.prems by (auto simp: band_word_def)
  obtain t where t: "tag_of width (band_word s a) = Some t" using assms(1) by (simp add: tag_of_def)
  have same: "band_word s1 = band_word s" using s1(3,4) by (simp add: fun_eq_iff band_word_def)
  show ?case
  proof (cases "a = h")
    case True
    then show ?thesis using s1(1) Suc.prems(2) by (simp add: lod_find_fef.simps [of "Suc k"])
  next
    case False
    then have less: "h < a" using Suc.prems(4) by simp
    then have un: "unat (a - 1) = unat a - 1" and pos: "0 < unat a" by (auto simp: word_less_nat_alt unat_sub_if')
    have "\<exists>s'. lod_find_fef k width (a - 1) s1 = Some (s', h)"
    proof (rule Suc.IH)
      show "h \<le> a - 1" using less un by (simp add: word_le_nat_alt word_less_nat_alt)
      show "1024 * (unat (lod_partoff s1) + unat (a - 1) div 256 + 1) \<le> length (cbytes (lodfd s1))"
      proof -
        have "(unat a - 1) div 256 \<le> unat a div 256" by (rule div_le_mono) simp
        then have "1024 * (unat (lod_partoff s) + (unat a - 1) div 256 + 1) \<le> 1024 * (unat (lod_partoff s) + unat a div 256 + 1)"
          by simp
        then show ?thesis using Suc.prems(6) s1(3,4) un by (simp del: mult_le_cancel1 mult_le_mono2)
      qed
      show "tag_of width (band_word s1 x) \<noteq> Some 7" if "h < x" "x \<le> a - 1" for x
        using Suc.prems(7) [of x] that un same pos by (simp add: word_le_nat_alt)
    qed (use Suc.prems s1 same un pos less in \<open>auto simp: word_less_nat_alt\<close>)
    moreover have "t \<noteq> 7" using Suc.prems(7) [of a] less t by auto
    ultimately show ?thesis using s1(1) t by (simp add: lod_find_fef.simps [of "Suc k"])
  qed
qed simp

text \<open>
  C26. The search for the header of a function finds the nearest word at or below the address whose type is that of a
  header, however far below: the loop is meant to give up after 512 words but counts down and never does,
  and the words of the band are fewer than the trips it can make before its counter overflows.
\<close>

theorem function_header_is_found:
  assumes "lod_holds s" and "width < 32" and "unat (lod_partoff s) < 2 ^ 20" and "unat a < 2 ^ 24"
    and "1024 * (unat (lod_partoff s) + unat a div 256 + 1) \<le> length (cbytes (lodfd s))"
    and "h \<le> a" and "tag_of width (band_word s h) = Some 7"
    and "\<And>x. h < x \<Longrightarrow> x \<le> a \<Longrightarrow> tag_of width (band_word s x) \<noteq> Some 7"
  shows "\<exists>s'. lod_find_fef (2 ^ 31 + 1) width a s = Some (s', h)"
proof -
  have "unat a - unat h < 2 ^ 31 + 1" using assms(4) by simp
  then show ?thesis using find_fef_steps [of width s h a "2 ^ 31 + 1"] assms by blast
qed

lemma function_header_is_found_witness:
  "\<exists>s'. lod_find_fef (2 ^ 31 + 1) 24 3 (lod_start\<lparr>lodfd := \<lparr>cbytes = replicate 8 7 @ replicate 2040 0, cpos = 0\<rparr>\<rparr>) = Some (s', 1)"
proof -
  let ?s = "lod_start\<lparr>lodfd := \<lparr>cbytes = replicate 8 7 @ replicate 2040 0, cpos = 0\<rparr>\<rparr>"
  have four: "take 4 (drop 4 (replicate 8 v @ replicate 2040 0)) = [v, v, v, v]" for v :: u8
    by (simp add: numeral_eq_Suc del: replicate.simps(2)) (simp add: numeral_eq_Suc)
  have low: "band_word ?s 1 = 0x07070707"
    using four [of 7] by (simp add: band_word_def lod_start_def buffer_of_def bytes_word_def del: replicate.simps(2))
  have "band_word ?s x = 0" if "1 < x" "x \<le> 3" for x
  proof -
    have "1 < unat x" "unat x \<le> 3" using that by (simp_all add: word_less_nat_alt word_le_nat_alt)
    then have "unat x = 2 \<or> unat x = 3" by linarith
    then show ?thesis
      by (elim disjE) (simp_all add: band_word_def lod_start_def buffer_of_def bytes_word_def numeral_eq_Suc del: replicate.simps(2))
  qed
  then show ?thesis
    using low function_header_is_found [of ?s 24 3 1] by (auto simp: lod_start_def lod_holds_def tag_of_def)
qed

text \<open>
  The buffer is known by its block number only: after a word of the load band is read, the word
  at the same address of the swap partition is the word of the band, whatever the disk image holds.
\<close>

theorem swap_word_is_stale:
  assumes "lod_read_virt False a s = Some (s1, v)"
  shows "lod_read_virt True a s1 = Some (s1, v)"
proof -
  define addr where "addr = a AND 0xFFFFFF"
  obtain n offset where n: "c_add (drop_bit 8 addr) (lod_partoff s) = Some n" "c_mul n 1024 = Some offset"
    using assms by (auto simp: lod_read_virt_def addr_def Let_def split: bind_splits)
  have "lod_bnum s1 = drop_bit 8 addr" "lod_partoff s1 = lod_partoff s" "v = lod_buf s1 (unat (addr AND 0xFF))"
    using assms n by (auto simp: lod_read_virt_def addr_def Let_def split: bind_splits prod.splits if_splits)
  then show ?thesis using n by (simp add: lod_read_virt_def addr_def)
qed

lemma swap_word_is_stale_witness:
  "\<exists>s1. lod_read_virt True 0 s1 = Some (s1, 0x07070707) \<and> buffer_of (cbytes (swapfd s1)) 0 = 0x09090909"
proof -
  let ?s = "lod_start\<lparr>lodfd := \<lparr>cbytes = replicate 1024 7, cpos = 0\<rparr>, swapfd := \<lparr>cbytes = replicate 1024 9, cpos = 0\<rparr>\<rparr>"
  let ?s1 = "?s\<lparr>lod_bnum := 0, lodfd := \<lparr>cbytes = replicate 1024 7, cpos = 1024\<rparr>, lod_buf := overlay (replicate 1024 7) (\<lambda>i. 0)\<rparr>"
  have "overlay (replicate 1024 7) (\<lambda>i. 0) 0 = (0x07070707 :: u32)"
    using overlay_page [of 0 "replicate 1024 7" 0 "\<lambda>i. 0"] by (simp add: buffer_of_replicate bytes_word_def)
  then have "lod_read_virt False 0 ?s = Some (?s1, 0x07070707)"
    by (simp add: lod_read_virt_def lod_start_def fd_def seek_def read_buf_def c_add_def c_mul_def c_int_def Let_def)
  then have "lod_read_virt True 0 ?s1 = Some (?s1, 0x07070707)" by (rule swap_word_is_stale)
  then show ?thesis
    by (intro exI [of _ ?s1]) (simp add: lod_start_def buffer_of_replicate bytes_word_def)
qed


subsection \<open>The partition table\<close>

lemma read_table_same:
  "length ps + n \<le> 16 \<Longrightarrow>
    read_table n b ps = Some (ps @ replicate n \<lparr>lp_name = strdup (word_bytes (b 0x82)), lp_start = b 0x83, lp_size = b 0x84\<rparr>)"
proof (induction n arbitrary: ps)
  case (Suc n)
  then show ?case by (simp add: replicate_app_Cons_same)
qed simp

lemma find_replicate: "\<not> g x \<Longrightarrow> find g (replicate n x) = None"
  by (induction n) simp_all

text \<open>
  C37. The swap partition of a pack that the image tool made is not found unless it is the first: the loop over the
  partition table reads the first entry again and again, and \<open>set_swap\<close> falls back on block 0524,
  wherever the partition SWAP is.
\<close>

theorem swap_partition_not_found:
  assumes "parse_template (fs tn) k0 = Some k" and "img_filename k = Some img" and "fs img = None"
    and "layout_ok fs k" and "length b = 1024" and "parts k = x # xs" and "p_name x \<noteq> cstr ''SWAP''" and "length (parts k) \<le> 16"
  shows "\<exists>f s. create_disk fs b (Some tn) k0 = Some (Some (k, f, 0)) \<and>
    read_partition_table (lod_start\<lparr>swapfd := \<lparr>cbytes = f, cpos = 0\<rparr>\<rparr>) = Some (s, 0) \<and> lod_partoff (set_swap s) = 0x154"
proof -
  have good: "good_pack k" using assms(4) by (simp add: layout_ok_def)
  obtain w where w: "labl_words k = Some w" and c: "Some (w 0) = str4 (cstr ''LABL'')" "w 1 = 1" "w 0x80 = of_nat (length (parts k))"
      "\<forall>j < length (parts k). \<forall>i < 7. w (0x82 + 7 * j + i) = part_words (parts k ! j) ! i"
    using labl_words_ok [OF good] by blast
  obtain f rest where f: "make_partitions fs b (parts k) (page_bytes w) = Some f" "f = page_bytes w @ rest"
    using create_image [OF assms(4,5) w] by blast
  have made: "create_disk fs b (Some tn) k0 = Some (Some (k, f, 0))"
    using assms(1-3) f(1) by (simp add: create_disk_def make_labl_def w file_write_def)
  define B where "B = overlay (take 1024 f) (\<lambda>i. 0)"
  have B: "B i = w i" if "i < 256" for i
    using overlay_page [of 0 f i] that by (simp add: B_def f(2) buffer_of_page_bytes)
  have name: "strdup (word_bytes (B 0x82)) = p_name x"
  proof -
    have "w 0x82 = bytes_word (p_name x)"
      using c(4) [rule_format, of 0 0] assms(6) by (simp add: part_words_def)
    moreover have "good_part x" using good assms(6) by (simp add: good_pack_def)
    ultimately show ?thesis
      by (simp add: B good_part_def word_bytes_bytes_word strdup_ascii)
  qed
  define e where "e = \<lparr>lp_name = p_name x, lp_start = B 0x83, lp_size = B 0x84\<rparr>"
  have "nat (sint (B 0x80)) = length (parts k)"
    using count_entries(2) [of "parts k"] assms(8) c(3) by (simp add: B signed_count_def)
  then have tab: "read_table (nat (sint (B 0x80))) B [] = Some (replicate (length (parts k)) e)"
    using read_table_same [of "[]" "length (parts k)" B] assms(8) by (simp add: name e_def)
  define s where "s = lod_start\<lparr>swapfd := \<lparr>cbytes = f, cpos = 1024\<rparr>, lod_buf := B, lod_parts := replicate (length (parts k)) e\<rparr>"
  have "read_buf \<lparr>cbytes = f, cpos = 0\<rparr> (\<lambda>i. 0) = (\<lparr>cbytes = f, cpos = 1024\<rparr>, B, 1024)"
    by (simp add: read_buf_def B_def f(2) Let_def)
  moreover have "Some (B 0) = str4 (cstr ''LABL'')" "B 1 = 1" using c(1,2) B [of 0] B [of 1] by (simp_all del: cstr_simps)
  ultimately have "read_partition_table (lod_start\<lparr>swapfd := \<lparr>cbytes = f, cpos = 0\<rparr>\<rparr>) = Some (s, 0)"
    using tab by (simp add: read_partition_table_def lod_start_def s_def Let_def del: cstr_simps)
  moreover have "lod_partoff (set_swap s) = 0x154"
    using assms(7) find_replicate [of "\<lambda>p. lp_name p = cstr ''SWAP''" e "length (parts k)"]
    by (simp add: set_swap_def put_def start_of_def s_def e_def del: cstr_simps)
  ultimately show ?thesis using made by blast
qed


lemma swap_partition_not_found_witness:
  "\<exists>f s. create_disk ((\<lambda>n. None)(cstr ''f'' := Some (replicate 1024 7))) (replicate 1024 0) (Some (cstr ''t''))
       (example_pack\<lparr>parts := [example_part, example_part\<lparr>p_name := cstr ''SWAP'', p_start := 3\<rparr>]\<rparr>)
      = Some (Some (example_pack\<lparr>parts := [example_part, example_part\<lparr>p_name := cstr ''SWAP'', p_start := 3\<rparr>]\<rparr>, f, 0)) \<and>
    read_partition_table (lod_start\<lparr>swapfd := \<lparr>cbytes = f, cpos = 0\<rparr>\<rparr>) = Some (s, 0) \<and> lod_partoff (set_swap s) = 0x154"
proof -
  let ?fs = "(\<lambda>n. None)(cstr ''f'' := Some (replicate 1024 7)) :: cstring \<Rightarrow> u8 list option"
  let ?y = "example_part\<lparr>p_name := cstr ''SWAP'', p_start := 3\<rparr>"
  let ?k = "example_pack\<lparr>parts := [example_part, ?y]\<rparr>"
  have "fits ?fs example_part" "fits ?fs ?y"
    by (auto simp: fits_def example_part_def intro!: exI [of _ 1])
  moreover have "good_pack ?k"
    by (simp add: good_pack_def good_part_def example_pack_def example_part_def ascii_def c_mul_def c_int_def)
  ultimately have "layout_ok ?fs ?k"
    by (simp add: layout_ok_def apart_def region_def) (simp add: example_part_def pairwise_insert)
  then show ?thesis
    using swap_partition_not_found [of ?fs "cstr ''t''" ?k ?k "cstr ''d''" "replicate 1024 0" example_part "[?y]"]
    by (auto simp: parse_template_def example_pack_def example_part_def)
qed

end
