(* ===== verification/Usim_Lmfs.thy ===== *)
theory Usim_Lmfs
  imports Usim_Image "HOL-Library.Signed_Division"
begin

section \<open>Extracting files from an LMFS partition (lmfs.c)\<close>

text \<open>
  A record is four blocks, each with 1008 bytes of data between 8 bytes in front and 8 behind;
  \<open>baccess\<close> walks through the data of a record by an offset that leaves the gaps out. The
  model keeps what the program reads and the files it writes under \<open>tmp/\<close>; the listing it
  prints on the way is left out. \<open>None\<close> inside the option is \<open>exit(1)\<close>; a pointer is an index into
  the buffer.
\<close>

definition and_then :: "'a option option \<Rightarrow> ('a \<Rightarrow> 'b option option) \<Rightarrow> 'b option option" where
  "and_then x g = (case x of None \<Rightarrow> None | Some None \<Rightarrow> Some None | Some (Some a) \<Rightarrow> g a)"

lemma and_then_simps [simp]:
  "and_then None g = None" "and_then (Some None) g = Some None" "and_then (Some (Some a)) g = g a"
  by (simp_all add: and_then_def)

record baccess =
  abuffer :: "u8 list"
  aoffset :: int

subsection \<open>Walking through a record\<close>

definition ensure_access :: "int \<Rightarrow> int \<Rightarrow> baccess \<Rightarrow> (baccess \<times> int) option" where
  "ensure_access offset sz pb =
    (let blknum = offset sdiv 1008; boff = offset smod 1008; left = 1008 - boff in
     if 3 < blknum then None
     else Some (pb\<lparr>aoffset := offset\<rparr>,
                if left < sz then 1024 * (blknum + 1) + 8 else 1024 * blknum + 8 + boff))"

text \<open>The null pointer is \<open>None\<close>.\<close>

definition advance_access :: "int \<Rightarrow> baccess \<Rightarrow> baccess \<times> int option" where
  "advance_access sz pb =
    (let offset = aoffset pb + sz; blknum = offset sdiv 1008; boff = offset smod 1008; left = 1008 - boff in
     if 3 < blknum then (pb\<lparr>aoffset := offset\<rparr>, None)
     else if left < sz then
       (pb\<lparr>aoffset := (blknum + 1) * 1008\<rparr>, if blknum + 1 = 4 then None else Some (1024 * (blknum + 1) + 8))
     else (pb\<lparr>aoffset := offset\<rparr>, Some (1024 * blknum + 8 + boff)))"

definition remaining_access :: "baccess \<Rightarrow> int" where
  "remaining_access pb = 1008 - aoffset pb smod 1008"

definition remaining_buffer :: "baccess \<Rightarrow> int" where
  "remaining_buffer pb = 1008 * 4 - aoffset pb"

text \<open>Four blocks into the buffer; what cannot be read stays as it was.\<close>

primrec read_blocks :: "nat \<Rightarrow> nat \<Rightarrow> u32 \<Rightarrow> u8 list \<Rightarrow> u8 list \<Rightarrow> u8 list option" where
  "read_blocks 0 i block_no f buf = Some buf"
| "read_blocks (Suc n) i block_no f buf = do {
     (b, _) \<leftarrow> read_block f block_no (take 1024 (drop (1024 * i) buf));
     next \<leftarrow> c_add block_no 1;
     read_blocks n (i + 1) next f (take (1024 * i) buf @ b @ drop (1024 * (i + 1)) buf)
   }"

definition read_record :: "u8 list \<Rightarrow> u32 \<Rightarrow> baccess \<Rightarrow> baccess option" where
  "read_record f record_no pb = do {
     block_no \<leftarrow> c_mul record_no 4;
     buf \<leftarrow> read_blocks 4 0 block_no f (abuffer pb);
     Some (pb\<lparr>abuffer := buf, aoffset := 0\<rparr>)
   }"

subsection \<open>Fields of the structures in the buffer\<close>

definition get_bytes :: "nat \<Rightarrow> int \<Rightarrow> baccess \<Rightarrow> u8 list option" where
  "get_bytes n p pb =
    (if 0 \<le> p \<and> nat p + n \<le> length (abuffer pb) then Some (take n (drop (nat p) (abuffer pb))) else None)"

definition get_fixnum :: "int \<Rightarrow> baccess \<Rightarrow> u32 option" where
  "get_fixnum p pb = map_option bytes_word (get_bytes 4 p pb)"

definition get_short :: "int \<Rightarrow> baccess \<Rightarrow> int option" where
  "get_short p pb = do {
     bs \<leftarrow> get_bytes 2 p pb;
     Some (sint (ucast (bs ! 0) OR push_bit 8 (ucast (bs ! 1)) :: u16))
   }"

text \<open>A string field; the string may run on into the fields behind, up to the end of the buffer.\<close>

definition get_string :: "int \<Rightarrow> baccess \<Rightarrow> cstring option" where
  "get_string p pb =
    (if 0 \<le> p \<and> 0 \<in> set (drop (nat p) (abuffer pb)) then Some (takeWhile (\<lambda>c. c \<noteq> 0) (drop (nat p) (abuffer pb)))
     else None)"

text \<open>
  The file header: eight elements of a name, a location in words and a length, from byte
  20 on. The data of a file starts at the location of the last element.
\<close>

definition element_name :: "int \<Rightarrow> nat \<Rightarrow> baccess \<Rightarrow> u8 list option" where
  "element_name fh i pb = get_bytes 4 (fh + 20 + 8 * int i) pb"

definition element_location :: "int \<Rightarrow> nat \<Rightarrow> baccess \<Rightarrow> int option" where
  "element_location fh i pb = get_short (fh + 24 + 8 * int i) pb"

text \<open>The blocks of a file map; the array has 64 entries, those not set are \<open>None\<close>.\<close>

type_synonym blocks = "nat \<Rightarrow> u32 option"

primrec copy_elements :: "nat \<Rightarrow> nat \<Rightarrow> int \<Rightarrow> baccess \<Rightarrow> blocks \<Rightarrow> blocks option" where
  "copy_elements 0 j fm pb bs = Some bs"
| "copy_elements (Suc n) j fm pb bs = do {
     v \<leftarrow> get_fixnum (fm + 8 + 4 * int j) pb;
     if j < 64 then copy_elements n (j + 1) fm pb (bs(j := Some v)) else None
   }"

text \<open>
  What the program prints of a directory entry (140 bytes): the strings in it must end
  inside the buffer.
\<close>

definition print_entry :: "int \<Rightarrow> baccess \<Rightarrow> unit option" where
  "print_entry de pb = do {
     _ \<leftarrow> get_string (de + 2) pb;
     _ \<leftarrow> get_string (de + 34) pb;
     _ \<leftarrow> get_string (de + 54) pb;
     _ \<leftarrow> get_fixnum (de + 108) pb;
     Some ()
   }"

text \<open>
  The loop over the elements that collects the file map, from element \<open>i\<close> on; \<open>dire\<close> says that
  the directory entries among them are printed too.
\<close>

primrec read_elements :: "bool \<Rightarrow> nat \<Rightarrow> nat \<Rightarrow> int \<Rightarrow> baccess \<Rightarrow> blocks \<Rightarrow> (baccess \<times> blocks) option option" where
  "read_elements dire 0 i fh pb bs = Some (Some (pb, bs))"
| "read_elements dire (Suc n) i fh pb bs = do {
     woffset \<leftarrow> element_location fh i pb;
     name \<leftarrow> element_name fh i pb;
     if name = cstr ''fmap'' then
       and_then (Some (ensure_access (woffset * 4) 12 pb)) (\<lambda>(pb1, fm). do {
         valid_length \<leftarrow> get_short (fm + 4) pb1;
         bs1 \<leftarrow> copy_elements (nat valid_length) 0 fm pb1 bs;
         read_elements dire n (i + 1) fh pb1 bs1
       })
     else if dire \<and> name = cstr ''dire'' then
       and_then (Some (ensure_access (woffset * 4) 140 pb)) (\<lambda>(pb1, de). do {
         _ \<leftarrow> print_entry de pb1;
         read_elements dire n (i + 1) fh pb1 bs
       })
     else read_elements dire n (i + 1) fh pb bs
   }"

subsection \<open>Copying a file\<close>

lemma smod_1008: "x smod 1008 < (1008 :: int)"
  using smod_int_range [of 1008 x] by simp

text \<open>One trip: what is left to copy, the next block of the map, the pointer, the buffer and the output.\<close>

definition copy_chunk ::
  "u8 list \<Rightarrow> blocks \<Rightarrow> int \<Rightarrow> nat \<Rightarrow> int option \<Rightarrow> baccess \<Rightarrow> u8 list
     \<Rightarrow> (int \<times> nat \<times> int option \<times> baccess \<times> u8 list) option" where
  "copy_chunk f blocks bl n p pb out =
    (let use = min bl (remaining_access pb) in do {
       bs \<leftarrow> (if use < 0 then None else if use = 0 then Some []
              else do { q \<leftarrow> p; get_bytes (nat use) q pb });
       let (pb1, p1) = advance_access use pb;
       (n1, p2, pb2) \<leftarrow> (if remaining_buffer pb1 = 0 then do {
             b \<leftarrow> (if n < 64 then blocks n else None);
             pb2 \<leftarrow> read_record f b pb1;
             Some (n + 1, Some 8, pb2)
           }
           else Some (n, p1, pb1));
       Some (bl - use, n1, p2, pb2, out @ bs)
     })"

lemma copy_chunk_less: "copy_chunk f blocks bl n p pb out = Some (bl1, x) \<Longrightarrow> 0 < bl1 \<Longrightarrow> nat bl1 < nat bl"
  using smod_1008 [of "aoffset pb"]
  by (auto simp: copy_chunk_def Let_def remaining_access_def min_def split: if_splits bind_splits prod.splits)

function copy_file ::
  "u8 list \<Rightarrow> blocks \<Rightarrow> int \<Rightarrow> nat \<Rightarrow> int option \<Rightarrow> baccess \<Rightarrow> u8 list \<Rightarrow> u8 list option" where
  "copy_file f blocks bl n p pb out = do {
     (bl1, n1, p1, pb1, out1) \<leftarrow> copy_chunk f blocks bl n p pb out;
     if bl1 \<le> 0 then Some out1 else copy_file f blocks bl1 n1 p1 pb1 out1
   }"
  by pat_completeness auto
termination
  by (relation "measure (\<lambda>(f, blocks, bl, n, p, pb, out). nat bl)") (auto dest: copy_chunk_less)

declare copy_file.simps [simp del]

text \<open>
  \<open>show_file\<close>: the directory entry is at \<open>de\<close> in the buffer of the caller; \<open>g\<close> is what a fresh
  buffer on the stack holds. The result is the file written, by name and contents.
\<close>

definition show_file :: "u8 list \<Rightarrow> u8 list \<Rightarrow> baccess \<Rightarrow> int \<Rightarrow> u32 \<Rightarrow> (cstring \<times> u8 list) option option" where
  "show_file f g caller de record_no = do {
     pb \<leftarrow> read_record f record_no \<lparr>abuffer = g, aoffset = 0\<rparr>;
     and_then (Some (ensure_access 0 84 pb)) (\<lambda>(pb0, fh).
     and_then (read_elements False 8 0 fh pb0 (\<lambda>j. None)) (\<lambda>(pb1, blocks). do {
       wlast \<leftarrow> element_location fh 7 pb1;
       bl \<leftarrow> get_fixnum (de + 100) caller;
       and_then (Some (ensure_access (wlast * 4) 0 pb1)) (\<lambda>(pb2, p). do {
         name \<leftarrow> get_string (de + 2) caller;
         if 1024 \<le> length name + 5 then None
         else do {
           out \<leftarrow> copy_file f blocks (sint bl) 0 (Some p) pb2 [];
           Some (Some (cstr ''tmp/'' @ name, out))
         }
       })
     }))
   }"

subsection \<open>Directories\<close>

primrec show_entries ::
  "nat \<Rightarrow> u8 list \<Rightarrow> u8 list \<Rightarrow> blocks \<Rightarrow> nat \<Rightarrow> baccess \<Rightarrow> (cstring \<times> u8 list) list
     \<Rightarrow> (cstring \<times> u8 list) list option option" where
  "show_entries 0 f g blocks n pb files = Some (Some files)"
| "show_entries (Suc k) f g blocks n pb files = do {
     let (pb1, p) = advance_access 140 pb;
     (pb2, n1, de) \<leftarrow> (case p of
         Some p \<Rightarrow> Some (pb1, n, p)
       | None \<Rightarrow> do {
           b \<leftarrow> (if n < 64 then blocks n else None);
           pb2 \<leftarrow> read_record f b pb1;
           Some (pb2, n + 1, 8)
         });
     _ \<leftarrow> get_bytes 16 de pb2;
     _ \<leftarrow> print_entry de pb2;
     record_0_address \<leftarrow> get_fixnum (de + 108) pb2;
     and_then (show_file f g pb2 de record_0_address) (\<lambda>file.
       show_entries k f g blocks n1 pb2 (files @ [file]))
   }"

definition show_de :: "u8 list \<Rightarrow> u8 list \<Rightarrow> u32 \<Rightarrow> (cstring \<times> u8 list) list option option" where
  "show_de f g record_no = do {
     pb \<leftarrow> read_record f record_no \<lparr>abuffer = g, aoffset = 0\<rparr>;
     and_then (Some (ensure_access 0 84 pb)) (\<lambda>(pb0, fh).
     and_then (read_elements True 8 0 fh pb0 (\<lambda>j. None)) (\<lambda>(pb1, blocks). do {
       wlast \<leftarrow> element_location fh 7 pb1;
       and_then (Some (ensure_access (wlast * 4) 88 pb1)) (\<lambda>(pb2, dh). do {
         _ \<leftarrow> get_string (dh + 6) pb2;
         numentries \<leftarrow> get_short (dh + 36) pb2;
         show_entries (nat numentries) f g blocks 0 pb2 []
       })
     }))
   }"

text \<open>
  The root directory: here the null pointer that \<open>advance_access\<close> returns at the end of the record
  is not checked.
\<close>

primrec root_entries ::
  "nat \<Rightarrow> u8 list \<Rightarrow> u8 list \<Rightarrow> baccess \<Rightarrow> (cstring \<times> u8 list) list \<Rightarrow> (baccess \<times> (cstring \<times> u8 list) list) option option" where
  "root_entries 0 f g pb files = Some (Some (pb, files))"
| "root_entries (Suc k) f g pb files = do {
     let (pb1, p) = advance_access 140 pb;
     de \<leftarrow> p;
     _ \<leftarrow> print_entry de pb1;
     record_0_address \<leftarrow> get_fixnum (de + 108) pb1;
     and_then (show_de f g record_0_address) (\<lambda>fs. root_entries k f g pb1 (files @ fs))
   }"

primrec root_elements ::
  "nat \<Rightarrow> nat \<Rightarrow> int \<Rightarrow> int \<Rightarrow> u8 list \<Rightarrow> u8 list \<Rightarrow> baccess \<Rightarrow> (cstring \<times> u8 list) list
     \<Rightarrow> (cstring \<times> u8 list) list option option" where
  "root_elements 0 i fh wlast f g pb files = Some (Some files)"
| "root_elements (Suc k) i fh wlast f g pb files = do {
     woffset \<leftarrow> element_location fh i pb;
     name \<leftarrow> element_name fh i pb;
     if name = cstr ''dire'' then
       and_then (Some (ensure_access (woffset * 4) 140 pb)) (\<lambda>(pb1, de). do {
         _ \<leftarrow> print_entry de pb1;
         and_then (Some (ensure_access (wlast * 4) 88 pb1)) (\<lambda>(pb2, dh). do {
           _ \<leftarrow> get_string (dh + 6) pb2;
           n \<leftarrow> get_short (dh + 36) pb2;
           and_then (root_entries (nat n) f g pb2 files) (\<lambda>(pb3, files1).
             root_elements k (i + 1) fh wlast f g pb3 files1)
         })
       })
     else root_elements k (i + 1) fh wlast f g pb files
   }"

text \<open>The file maps of the root are only printed: their first entry must lie inside the buffer.\<close>

primrec root_maps :: "nat \<Rightarrow> nat \<Rightarrow> int \<Rightarrow> baccess \<Rightarrow> baccess option option" where
  "root_maps 0 i fh pb = Some (Some pb)"
| "root_maps (Suc k) i fh pb = do {
     woffset \<leftarrow> element_location fh i pb;
     name \<leftarrow> element_name fh i pb;
     if name = cstr ''fmap'' then
       and_then (Some (ensure_access (woffset * 4) 12 pb)) (\<lambda>(pb1, fm). do {
         _ \<leftarrow> get_bytes 12 fm pb1;
         root_maps k (i + 1) fh pb1
       })
     else root_maps k (i + 1) fh pb
   }"

text \<open>The value of \<open>lmfs_open\<close> is -1 when the image cannot be opened or its first block not read.\<close>

definition lmfs_open :: "u8 list option \<Rightarrow> u8 list \<Rightarrow> ((cstring \<times> u8 list) list \<times> int) option option" where
  "lmfs_open img g =
    (case img of
       None \<Rightarrow> Some (Some ([], -1))
     | Some f \<Rightarrow>
        if length f < 1024 then Some (Some ([], -1))
        else do {
          let pl = \<lparr>abuffer = take 1024 f, aoffset = 0\<rparr>;
          _ \<leftarrow> get_string 6 pl;
          primary_root \<leftarrow> get_fixnum 44 pl;
          pb \<leftarrow> read_record f primary_root \<lparr>abuffer = g, aoffset = 0\<rparr>;
          and_then (Some (ensure_access 0 84 pb)) (\<lambda>(pb0, fh). do {
            wlast \<leftarrow> element_location fh 7 pb0;
            and_then (root_maps 8 0 fh pb0) (\<lambda>pb1.
            and_then (root_elements 8 0 fh wlast f g pb1 []) (\<lambda>files. Some (Some (files, 0))))
          })
        })"

subsection \<open>A file is extracted\<close>

text \<open>The data of a record, without the bytes around each block.\<close>

definition payload :: "u8 list \<Rightarrow> u8 list" where
  "payload buf = map (\<lambda>i. buf ! (1024 * (i div 1008) + 8 + i mod 1008)) [0..<4032]"

definition record_data :: "u8 list \<Rightarrow> u32 \<Rightarrow> u8 list" where
  "record_data f r = file_bytes f (4096 * unat r) 4096"

definition record_ok :: "u8 list \<Rightarrow> u32 \<Rightarrow> bool" where
  "record_ok f r \<longleftrightarrow> unat r + 1 < 2 ^ 19 \<and> 4096 * (unat r + 1) \<le> length f"

lemma length_payload [simp]: "length (payload b) = 4032"
  by (simp add: payload_def)

lemma payload_append: "length b = 4096 \<Longrightarrow> payload (b @ rest) = payload b"
  unfolding payload_def
proof (rule map_cong [OF refl])
  fix i assume "length b = 4096" "i \<in> set [0..<4032]"
  moreover from this have "i div 1008 \<le> 3" "i mod 1008 < 1008" by auto
  ultimately have "1024 * (i div 1008) + 8 + i mod 1008 < length b" by simp
  then show "(b @ rest) ! (1024 * (i div 1008) + 8 + i mod 1008) = b ! (1024 * (i div 1008) + 8 + i mod 1008)"
    by (simp only: nth_append if_True)
qed

lemma nth_payload: "i < 4032 \<Longrightarrow> payload b ! i = b ! (1024 * (i div 1008) + 8 + i mod 1008)"
  by (simp add: payload_def)

lemma length_record_data [simp]: "length (record_data f r) = 4096"
  by (simp add: record_data_def)

lemma signed_1008: "int x sdiv 1008 = int (x div 1008)" "int x smod 1008 = int (x mod 1008)"
  by (simp_all add: signed_divide_int_def sgn_if zdiv_int smod_mod_positive zmod_int)

lemma file_bytes_append: "file_bytes f a m @ file_bytes f (a + m) n = file_bytes f a (m + n)"
proof (rule nth_equalityI)
  fix i assume "i < length (file_bytes f a m @ file_bytes f (a + m) n)"
  then show "(file_bytes f a m @ file_bytes f (a + m) n) ! i = file_bytes f a (m + n) ! i"
    by (auto simp: file_bytes_def nth_append)
qed simp

lemma read_blocks_ok:
  assumes "B + i + n < 2 ^ 21" and "1024 * (B + i + n) \<le> length f" and "1024 * (i + n) \<le> length buf"
  shows "read_blocks n i (of_nat (B + i)) f buf
    = Some (take (1024 * i) buf @ file_bytes f (1024 * (B + i)) (1024 * n) @ drop (1024 * (i + n)) buf)"
  using assms
proof (induction n arbitrary: i buf)
  case 0
  then show ?case by (simp add: file_bytes_def)
next
  case (Suc n)
  let ?b = "file_bytes f (1024 * (B + i)) 1024"
  let ?buf = "take (1024 * i) buf @ ?b @ drop (1024 * (i + 1)) buf"
  have "read_block f (of_nat (B + i)) (take 1024 (drop (1024 * i) buf)) = Some (?b, 0)"
    using Suc.prems by (intro read_block_ok) auto
  moreover have "c_add (of_nat (B + i)) 1 = Some (of_nat (B + (i + 1)))"
    using block_number [of "B + i" 1] Suc.prems by simp
  moreover have e: "?b @ file_bytes f (1024 * (B + (i + 1))) (1024 * n) = file_bytes f (1024 * (B + i)) (1024 * Suc n)"
    using file_bytes_append [of f "1024 * (B + i)" 1024 "1024 * n"] by (simp add: algebra_simps)
  ultimately have "read_blocks (Suc n) i (of_nat (B + i)) f buf = read_blocks n (i + 1) (of_nat (B + (i + 1))) f ?buf"
    by simp
  also have "\<dots> = Some (take (1024 * (i + 1)) ?buf @ file_bytes f (1024 * (B + (i + 1))) (1024 * n) @ drop (1024 * (i + 1 + n)) ?buf)"
    using Suc.prems by (intro Suc.IH) auto
  also have "take (1024 * (i + 1)) ?buf = take (1024 * i) buf @ ?b"
    using Suc.prems by simp
  also have "drop (1024 * (i + 1 + n)) ?buf = drop (1024 * (i + Suc n)) buf"
    using Suc.prems by (simp add: min_def algebra_simps)
  also have "(take (1024 * i) buf @ ?b) @ file_bytes f (1024 * (B + (i + 1))) (1024 * n) @ drop (1024 * (i + Suc n)) buf
      = take (1024 * i) buf @ file_bytes f (1024 * (B + i)) (1024 * Suc n) @ drop (1024 * (i + Suc n)) buf"
    by (simp only: e [symmetric] append_assoc)
  finally show ?case .
qed

lemma read_record_ok:
  assumes "record_ok f r" and "4096 \<le> length (abuffer pb)"
  shows "read_record f r pb = Some (pb\<lparr>abuffer := record_data f r @ drop 4096 (abuffer pb), aoffset := 0\<rparr>)"
proof -
  have r: "unat r + 1 < 2 ^ 19" "4096 * unat r + 4096 \<le> length f" using assms(1) by (simp_all add: record_ok_def)
  have m: "c_mul r 4 = Some (of_nat (unat r * 4 + 0))"
    using c_mul_nat [of r 4] r(1) by simp
  have "read_blocks 4 0 (of_nat (unat r * 4 + 0)) f (abuffer pb)
      = Some (take (1024 * 0) (abuffer pb) @ file_bytes f (1024 * (unat r * 4 + 0)) (1024 * 4) @ drop (1024 * (0 + 4)) (abuffer pb))"
    using r assms(2) by (intro read_blocks_ok) simp_all
  then show ?thesis using assms(2) by (simp add: read_record_def m record_data_def mult.commute del: read_blocks.simps)
qed

lemma get_bytes_payload:
  assumes "4096 \<le> length (abuffer pb)" and "off < 4032" and "u \<le> 1008 - off mod 1008"
  shows "get_bytes u (1024 * int (off div 1008) + 8 + int (off mod 1008)) pb = Some (take u (drop off (payload (abuffer pb))))"
proof -
  define P where "P = 1024 * (off div 1008) + 8 + off mod 1008"
  have p: "1024 * int (off div 1008) + 8 + int (off mod 1008) = int P" by (simp add: P_def)
  have "off div 1008 \<le> 3" using assms(2) by linarith
  moreover have "off mod 1008 < 1008" by simp
  ultimately have fit: "P + u \<le> 4096" using assms(3) by (simp add: P_def)
  have off: "off = 1008 * (off div 1008) + off mod 1008" by simp
  have ou: "off + u \<le> 4032" using off \<open>off div 1008 \<le> 3\<close> \<open>off mod 1008 < 1008\<close> assms(3) by linarith
  have "take u (drop P (abuffer pb)) = take u (drop off (payload (abuffer pb)))"
  proof (rule nth_equalityI)
    show "length (take u (drop P (abuffer pb))) = length (take u (drop off (payload (abuffer pb))))"
      using assms(1,2) fit ou by simp
    fix i assume "i < length (take u (drop P (abuffer pb)))"
    then have i: "i < u" by simp
    have m: "off mod 1008 + i < 1008" using i assms(3) by simp
    have g: "(x + 1008 * q) div 1008 = q \<and> (x + 1008 * q) mod 1008 = x" if "x < 1008" for x q :: nat
      using that by simp
    have "off + i = off mod 1008 + i + 1008 * (off div 1008)" using off by linarith
    then have "(off + i) div 1008 = off div 1008" "(off + i) mod 1008 = off mod 1008 + i"
      using g [OF m, of "off div 1008"] by (simp_all only:)
    then show "take u (drop P (abuffer pb)) ! i = take u (drop off (payload (abuffer pb))) ! i"
      using i fit ou assms(1,2) nth_payload [of "off + i" "abuffer pb"] by (simp add: P_def add.assoc)
  qed
  then show ?thesis using fit assms(1) by (simp add: get_bytes_def p)
qed


lemma advance_access_int:
  assumes "aoffset pb = int off"
  shows "advance_access (int u) pb =
    (let e = off + u in
     if 3 < e div 1008 then (pb\<lparr>aoffset := int e\<rparr>, None)
     else if 1008 - e mod 1008 < u
     then (pb\<lparr>aoffset := int ((e div 1008 + 1) * 1008)\<rparr>,
           if e div 1008 = 3 then None else Some (1024 * (int (e div 1008) + 1) + 8))
     else (pb\<lparr>aoffset := int e\<rparr>, Some (1024 * int (e div 1008) + 8 + int (e mod 1008))))"
proof -
  have e: "aoffset pb + int u = int (off + u)" using assms by simp
  have "(1008 - int ((off + u) mod 1008) < int u) = (1008 - (off + u) mod 1008 < u)"
    using mod_less_divisor [of 1008 "off + u"] by linarith
  moreover have "(3 < int ((off + u) div 1008)) = (3 < (off + u) div 1008)" by linarith
  moreover have "(int ((off + u) div 1008) + 1 = 4) = ((off + u) div 1008 = 3)" by linarith
  ultimately show ?thesis
    unfolding advance_access_def e signed_1008 Let_def by simp
qed

lemma copy_file_ok:
  assumes "4096 \<le> length (abuffer pb)" and "aoffset pb = int off" and "off < 4032"
    and "p = Some (1024 * int (off div 1008) + 8 + int (off mod 1008))"
    and "\<And>i. i \<le> k \<Longrightarrow> \<exists>r. blocks (n + i) = Some r \<and> record_ok f r" and "n + k < 64"
    and "L \<le> length (drop off (payload (abuffer pb)) @ concat (map (\<lambda>i. payload (record_data f (the (blocks i)))) [n..<n + k]))"
  shows "copy_file f blocks (int L) n p pb out = Some (out @ take L
      (drop off (payload (abuffer pb)) @ concat (map (\<lambda>i. payload (record_data f (the (blocks i)))) [n..<n + k])))"
  using assms
proof (induction L arbitrary: off n k p pb out rule: less_induct)
  case (less L)
  define left where "left = 1008 - off mod 1008"
  define u where "u = min L left"
  have rem: "remaining_access pb = int left"
    using less.prems(2) mod_less_divisor [of 1008 off] by (simp add: remaining_access_def signed_1008 left_def of_nat_diff)
  have use: "min (int L) (remaining_access pb) = int u" by (simp add: rem u_def min_def)
  define B where "B = take u (drop off (payload (abuffer pb)))"
  define R where "R = concat (map (\<lambda>i. payload (record_data f (the (blocks i)))) [n..<n + k])"
  have bs: "(if int u < 0 then None else if int u = 0 then Some [] else do { q \<leftarrow> p; get_bytes (nat (int u)) q pb }) = Some B"
    using get_bytes_payload [OF less.prems(1,3), of u] less.prems(4) by (simp add: u_def left_def B_def)
  define pb1 p1 where "pb1 = fst (advance_access (int u) pb)" and "p1 = snd (advance_access (int u) pb)"
  define nx where "nx = (if remaining_buffer pb1 = 0 then do {
           b \<leftarrow> (if n < 64 then blocks n else None);
           pb2 \<leftarrow> read_record f b pb1;
           Some (n + 1, Some 8, pb2)
         }
         else Some (n, p1, pb1))"
  have chunk: "copy_chunk f blocks (int L) n p pb out
      = do { (n1, p2, pb2) \<leftarrow> nx; Some (int L - int u, n1, p2, pb2, out @ B) }"
    by (simp only: copy_chunk_def Let_def use bs bind.bind_lunit nx_def pb1_def p1_def case_prod_beta)
  have unf: "copy_file f blocks (int L) n p pb out = do {
      (n1, p2, pb2) \<leftarrow> nx;
      if int L - int u \<le> 0 then Some (out @ B) else copy_file f blocks (int L - int u) n1 p2 pb2 (out @ B) }"
    by (cases nx) (simp_all only: copy_file.simps [of f blocks "int L"] chunk bind.bind_lunit bind.bind_lzero case_prod_beta fst_conv snd_conv)
  obtain r where r: "blocks n = Some r" "record_ok f r" using less.prems(5) [of 0] by auto
  have n: "n < 64" using less.prems(6) by simp
  have len1: "4096 \<le> length (abuffer pb1)"
    using less.prems(1) by (simp add: pb1_def advance_access_int [OF less.prems(2)] Let_def)
  note rd = read_record_ok [OF r(2) len1]
  define d where "d = off div 1008"
  have d: "d \<le> 3" "off = 1008 * d + off mod 1008" "off mod 1008 < 1008" using less.prems(3) by (simp_all add: d_def)
  have fit: "left \<le> 4032 - off" using d by (simp add: left_def)
  show ?case
  proof (cases "L \<le> left")
    case True
    have "\<exists>x. nx = Some x" using r(1) n rd by (simp add: nx_def)
    moreover have "take L (drop off (payload (abuffer pb)) @ R) = B"
      using True fit by (simp add: B_def u_def)
    ultimately show ?thesis using True by (auto simp: unf u_def simp flip: R_def)
  next
    case False
    then have u: "u = left" "u < L" "0 < u" using d(3) by (simp_all add: u_def left_def)
    have e: "off + u = 1008 * (d + 1)" using d by (simp add: u(1) left_def)
    have ediv: "(off + u) div 1008 = d + 1" "(off + u) mod 1008 = 0" unfolding e by simp_all
    have adv: "advance_access (int u) pb = (if d = 3 then (pb\<lparr>aoffset := 4032\<rparr>, None)
        else (pb\<lparr>aoffset := int (off + u)\<rparr>, Some (1024 * int (d + 1) + 8)))"
      using d(1) u(1) unfolding advance_access_int [OF less.prems(2)] Let_def ediv e by (auto simp: left_def)
    have LL: "int L - int u = int (L - u)" "\<not> int L - int u \<le> 0" using u by simp_all
    have split_S: "take L (drop off (payload (abuffer pb)) @ R) = B @ take (L - u) (drop (off + u) (payload (abuffer pb)) @ R)"
    proof -
      have "drop off (payload (abuffer pb)) = B @ drop (off + u) (payload (abuffer pb))"
        using append_take_drop_id [of u "drop off (payload (abuffer pb))", symmetric]
        by (simp only: B_def drop_drop add.commute [of u off])
      moreover have "length B = u" using fit u(1) by (simp add: B_def)
      ultimately show ?thesis using u(2) by simp
    qed
    show ?thesis
    proof (cases "d = 3")
      case True
      have off: "off + u = 4032" using e True by simp
      have k: "0 < k"
      proof (rule ccontr)
        assume "\<not> 0 < k"
        then show False using less.prems(7) off u(2) by simp
      qed
      define pb2 where "pb2 = pb1\<lparr>abuffer := record_data f r @ drop 4096 (abuffer pb1), aoffset := 0\<rparr>"
      have nx: "nx = Some (n + 1, Some 8, pb2)"
        using adv True r(1) n rd by (simp add: nx_def pb1_def remaining_buffer_def pb2_def)
      define T where "T = concat (map (\<lambda>i. payload (record_data f (the (blocks i)))) [n + 1..<n + 1 + (k - 1)])"
      have R: "R = payload (record_data f r) @ T"
        using k r(1) by (simp add: R_def T_def upt_conv_Cons)
      have lenL: "L - u \<le> length (payload (record_data f r) @ T)"
        using less.prems(7) off u(2) unfolding R_def [symmetric] R by simp
      have "copy_file f blocks (int (L - u)) (n + 1) (Some 8) pb2 (out @ B) = Some ((out @ B) @ take (L - u)
          (drop 0 (payload (abuffer pb2)) @ T))"
        unfolding T_def
      proof (rule less.IH)
        show "\<exists>r. blocks (n + 1 + i) = Some r \<and> record_ok f r" if "i \<le> k - 1" for i
          using less.prems(5) [of "Suc i"] that k by simp
        show "L - u \<le> length (drop 0 (payload (abuffer pb2)) @ concat (map (\<lambda>i. payload (record_data f (the (blocks i)))) [n + 1..<n + 1 + (k - 1)]))"
          using lenL unfolding T_def pb2_def by (simp add: payload_append)
      qed (use u k less.prems(6) in \<open>simp_all add: pb2_def\<close>)
      then have "copy_file f blocks (int L) n p pb out = Some (out @ B @ take (L - u) R)"
        by (simp only: unf nx LL R pb2_def bind.bind_lunit case_prod_conv if_False append_assoc drop_0) (simp add: payload_append)
      moreover have "drop (off + u) (payload (abuffer pb)) = []" by (rule drop_all) (simp add: off)
      ultimately show ?thesis
        unfolding R_def [symmetric] by (simp only: split_S append_Nil)
    next
      case False
      have lt: "off + u < 4032" using False d(1) e by simp
      have "pb1 = pb\<lparr>aoffset := int (off + u)\<rparr>" "p1 = Some (1024 * int (d + 1) + 8)"
        using adv False by (simp_all add: pb1_def p1_def)
      then have nx: "nx = Some (n, Some (1024 * int (d + 1) + 8), pb\<lparr>aoffset := int (off + u)\<rparr>)"
        using lt by (simp add: nx_def remaining_buffer_def)
      have "copy_file f blocks (int (L - u)) n (Some (1024 * int (d + 1) + 8)) (pb\<lparr>aoffset := int (off + u)\<rparr>) (out @ B)
          = Some ((out @ B) @ take (L - u) (drop (off + u) (payload (abuffer (pb\<lparr>aoffset := int (off + u)\<rparr>))) @ R))"
        unfolding R_def
      proof (rule less.IH)
        show "Some (1024 * int (d + 1) + 8) = Some (1024 * int ((off + u) div 1008) + 8 + int ((off + u) mod 1008))"
          by (simp only: ediv) simp
        show "L - u \<le> length (drop (off + u) (payload (abuffer (pb\<lparr>aoffset := int (off + u)\<rparr>))) @
            concat (map (\<lambda>i. payload (record_data f (the (blocks i)))) [n..<n + k]))"
          using less.prems(7) u(2) fit u(1) lt by simp
      qed (use u lt less.prems in \<open>simp_all\<close>)
      then have "copy_file f blocks (int L) n p pb out = Some (out @ B @ take (L - u) (drop (off + u) (payload (abuffer pb)) @ R))"
        by (simp only: unf nx LL bind.bind_lunit case_prod_conv if_False append_assoc) simp
      then show ?thesis
        unfolding R_def [symmetric] by (simp only: split_S)
    qed
  qed
qed

lemma read_elements_buffer:
  "read_elements dire n i fh pb bs = Some (Some (pb1, bs1)) \<Longrightarrow> abuffer pb1 = abuffer pb"
proof (induction n arbitrary: dire i pb bs)
  case (Suc n)
  have ensure: "abuffer (fst x) = abuffer pb" if "ensure_access off sz pb = Some x" for off sz x
    using that by (auto simp: ensure_access_def Let_def split: if_splits)
  show ?case
    using Suc.prems by (auto simp: and_then_def split: if_splits bind_splits option.splits dest!: Suc.IH ensure)
qed simp

text \<open>
  C13. \<open>show_file\<close> writes the file: its first \<open>byte_length\<close> bytes of the data of its first record from the
  location of the last element on, followed by the data of the records that its map lists, the eight bytes before
  and after each block left out. It needs the map to list one more record than the data fills, because
  the loop reads ahead.
\<close>

theorem show_file_extracts:
  assumes "record_ok f r" and "length g = 8192"
    and "read_elements False 8 0 8 \<lparr>abuffer = record_data f r @ drop 4096 g, aoffset = 0\<rparr> (\<lambda>j. None) = Some (Some (pb, blocks))"
    and "element_location 8 7 pb = Some (int loc)" and "4 * loc < 4032"
    and "get_fixnum (de + 100) caller = Some len" and "0 \<le> sint len" and "get_string (de + 2) caller = Some name" and "length name \<le> 1000"
    and "\<forall>i \<le> k. \<exists>s. blocks i = Some s \<and> record_ok f s" and "k < 64" and "unat len \<le> 4032 - 4 * loc + 4032 * k"
  shows "show_file f g caller de r = Some (Some (cstr ''tmp/'' @ name, take (unat len)
    (drop (4 * loc) (payload (record_data f r)) @ concat (map (\<lambda>i. payload (record_data f (the (blocks i)))) [0..<k]))))"
proof -
  define pb2 where "pb2 = pb\<lparr>aoffset := int (4 * loc)\<rparr>"
  have buffer: "abuffer pb = record_data f r @ drop 4096 g" using read_elements_buffer [OF assms(3)] by simp
  have ac: "ensure_access (int loc * 4) 0 pb
      = Some (pb2, 1024 * int (4 * loc div 1008) + 8 + int (4 * loc mod 1008))"
  proof -
    have i: "int loc * 4 = int (4 * loc)" by simp
    have "\<not> 3 < int (4 * loc div 1008)" using assms(5) by linarith
    moreover have "\<not> 1008 - int (4 * loc mod 1008) < 0" using mod_less_divisor [of 1008 "4 * loc"] by linarith
    ultimately show ?thesis by (simp only: ensure_access_def i signed_1008 Let_def if_False pb2_def)
  qed
  have "concat (map (\<lambda>i. payload (record_data f (the (blocks i)))) [0..<k]) = concat (map (\<lambda>i. payload (record_data f (the (blocks i)))) [0..<0 + k])"
    by simp
  have len: "length (concat (map (\<lambda>i. payload (record_data f (the (blocks i)))) [0..<k])) = 4032 * k"
    by (simp add: length_concat comp_def sum_list_triv)
  have copy: "copy_file f blocks (int (unat len)) 0 (Some (1024 * int (4 * loc div 1008) + 8 + int (4 * loc mod 1008))) pb2 []
    = Some ([] @ take (unat len) (drop (4 * loc) (payload (abuffer pb2)) @ concat (map (\<lambda>i. payload (record_data f (the (blocks i)))) [0..<0 + k])))"
    using buffer assms(5,10-12) len by (intro copy_file_ok) (simp_all add: pb2_def payload_append)
  have "sint len = int (unat len)"
    using assms(7) by (intro sint_eq_unat sint_nonneg_small)
  moreover have "ensure_access 0 84 \<lparr>abuffer = b, aoffset = 0\<rparr> = Some (\<lparr>abuffer = b, aoffset = 0\<rparr>, 8)" for b
    by (simp add: ensure_access_def)
  ultimately show ?thesis
    using assms(1-4,6,8,9) buffer ac copy
    by (simp add: show_file_def read_record_ok pb2_def payload_append del: read_elements.simps)
qed

text \<open>A file of five characters, in the record after its header.\<close>

definition sample_header :: "u8 list" where
  "sample_header = [0, 0, 0, 0, 0, 0, 0, 0, 0, 0, 0, 0, 0, 0, 0, 0, 0, 0, 0, 0, 0, 0, 0, 0, 0, 0, 0, 0, 102, 109, 97, 112, 21, 0, 0, 0, 0, 0, 0, 0, 0, 0, 0, 0, 0, 0, 0, 0, 0, 0, 0, 0, 0, 0, 0, 0, 0, 0, 0, 0, 0, 0, 0, 0, 0, 0, 0, 0, 0, 0, 0, 0, 0, 0, 0, 0, 0, 0, 0, 0, 0, 0, 0, 0, 0, 0, 0, 0, 24, 0, 0, 0, 0, 0, 0, 0, 1, 0, 0, 0, 1, 0, 0, 0, 72, 69, 76, 76, 79]"

definition sample_image :: "u8 list" where
  "sample_image = sample_header @ replicate 8083 0"

definition sample_entry :: baccess where
  "sample_entry = \<lparr>abuffer = replicate 2 0 @ cstr ''login'' @ replicate 93 0 @ [5, 0, 0, 0], aoffset = 0\<rparr>"

lemma record_0: "4096 \<le> length f \<Longrightarrow> record_data f 0 = take 4096 f"
  by (rule nth_equalityI) (simp_all add: record_data_def file_bytes_def file_byte_def)

lemma read_elements_8: "read_elements d 8 = read_elements d (Suc (Suc (Suc (Suc (Suc (Suc (Suc (Suc 0))))))))"
  by (simp add: numeral_eq_Suc)

lemma header_bytes:
  "0 \<le> p \<Longrightarrow> nat p + n \<le> 109 \<Longrightarrow>
    get_bytes n p \<lparr>abuffer = sample_header @ replicate 8083 0, aoffset = a\<rparr> = Some (take n (drop (nat p) sample_header))"
  by (simp add: get_bytes_def) (simp add: sample_header_def)

lemma header_elements:
  "element_name 8 0 \<lparr>abuffer = sample_header @ replicate 8083 0, aoffset = a\<rparr> = Some [102, 109, 97, 112]"
  "i \<in> {1, 2, 3, 4, 5, 6, 7} \<Longrightarrow> element_name 8 i \<lparr>abuffer = sample_header @ replicate 8083 0, aoffset = a\<rparr> = Some [0, 0, 0, 0]"
  "element_location 8 0 \<lparr>abuffer = sample_header @ replicate 8083 0, aoffset = a\<rparr> = Some 21"
  "i \<in> {1, 2, 3, 4, 5, 6} \<Longrightarrow> element_location 8 i \<lparr>abuffer = sample_header @ replicate 8083 0, aoffset = a\<rparr> = Some 0"
  "element_location 8 7 \<lparr>abuffer = sample_header @ replicate 8083 0, aoffset = a\<rparr> = Some 24"
proof -
  have "take 4 (drop 28 sample_header) = [102, 109, 97, 112]" "take 2 (drop 32 sample_header) = [21, 0]" "take 2 (drop 88 sample_header) = [24, 0]"
    by (simp_all add: sample_header_def)
  then show "element_name 8 0 \<lparr>abuffer = sample_header @ replicate 8083 0, aoffset = a\<rparr> = Some [102, 109, 97, 112]"
    "element_location 8 0 \<lparr>abuffer = sample_header @ replicate 8083 0, aoffset = a\<rparr> = Some 21"
    "element_location 8 7 \<lparr>abuffer = sample_header @ replicate 8083 0, aoffset = a\<rparr> = Some 24"
    by (simp_all add: element_name_def element_location_def get_short_def header_bytes)
  show "i \<in> {1, 2, 3, 4, 5, 6, 7} \<Longrightarrow> element_name 8 i \<lparr>abuffer = sample_header @ replicate 8083 0, aoffset = a\<rparr> = Some [0, 0, 0, 0]"
    by (auto simp: element_name_def header_bytes) (simp_all add: sample_header_def)
  show "i \<in> {1, 2, 3, 4, 5, 6} \<Longrightarrow> element_location 8 i \<lparr>abuffer = sample_header @ replicate 8083 0, aoffset = a\<rparr> = Some 0"
    by (auto simp: element_location_def get_short_def header_bytes) (simp_all add: sample_header_def)
qed

lemma show_file_extracts_witness:
  "show_file sample_image (replicate 8192 0) sample_entry 0 0 = Some (Some (cstr ''tmp/login'', cstr ''HELLO''))"
proof -
  let ?bs = "(\<lambda>j. None)(0 := Some 1) :: blocks"
  let ?buf = "record_data sample_image 0 @ drop 4096 (replicate 8192 0)"
  let ?pb = "\<lparr>abuffer = ?buf, aoffset = 84\<rparr>"
  have len: "length sample_image = 8192" by (simp add: sample_image_def sample_header_def)
  have hd0: "record_data sample_image 0 = sample_header @ replicate 3987 0"
    using len by (simp add: record_0) (simp add: sample_image_def sample_header_def)
  have hd: "?buf = sample_header @ replicate 8083 0"
    by (simp add: hd0 flip: replicate_add)
  have fm: "get_short 96 ?pb = Some 1" "get_fixnum 100 ?pb = Some 1"
    unfolding hd by (simp_all add: get_short_def get_fixnum_def header_bytes) (simp_all add: sample_header_def bytes_word_def)
  have m: "cstr ''fmap'' = [102, 109, 97, 112]" by (simp add: cstr_def)
  have acc: "ensure_access 84 12 \<lparr>abuffer = b, aoffset = 0\<rparr> = Some (\<lparr>abuffer = b, aoffset = 84\<rparr>, 92)" for b
    using signed_1008 [of 84] by (simp add: ensure_access_def)
  have seven: "(7 :: nat) = Suc (Suc (Suc (Suc (Suc (Suc (Suc 0))))))" by simp
  have el: "read_elements False 8 0 8 \<lparr>abuffer = ?buf, aoffset = 0\<rparr> (\<lambda>j. None) = Some (Some (?pb, ?bs))"
    using fm unfolding hd by (simp add: read_elements_8 header_elements header_elements(5) [unfolded seven] m acc del: cstr_simps)
  have "show_file sample_image (replicate 8192 0) sample_entry 0 0 = Some (Some (cstr ''tmp/'' @ cstr ''login'', take (unat (5 :: u32))
    (drop (4 * 24) (payload (record_data sample_image 0)) @ concat (map (\<lambda>i. payload (record_data sample_image (the (?bs i)))) [0..<0]))))"
  proof (rule show_file_extracts [OF _ _ el])
    show "element_location 8 7 ?pb = Some (int 24)" unfolding hd by (simp add: header_elements)
    show "get_fixnum (0 + 100) sample_entry = Some 5"
      by (simp add: sample_entry_def get_fixnum_def get_bytes_def cstr_def bytes_word_def)
    show "get_string (0 + 2) sample_entry = Some (cstr ''login'')"
      by (simp add: sample_entry_def get_string_def cstr_def)
    show "\<forall>i \<le> 0. \<exists>s. ?bs i = Some s \<and> record_ok sample_image s"
      using len by (simp add: record_ok_def)
  qed (use len in \<open>simp_all add: record_ok_def cstr_def\<close>)
  moreover have "take 5 (drop 96 (payload (record_data sample_image 0))) = cstr ''HELLO''"
  proof (rule nth_equalityI)
    fix i assume "i < length (take 5 (drop 96 (payload (record_data sample_image 0))))"
    then have "i = 0 \<or> i = 1 \<or> i = 2 \<or> i = 3 \<or> i = 4" by auto
    then show "take 5 (drop 96 (payload (record_data sample_image 0))) ! i = cstr ''HELLO'' ! i"
      by (elim disjE) (simp_all add: nth_payload hd0 cstr_def nth_append, simp_all add: sample_header_def)
  qed (simp add: cstr_def)
  ultimately show ?thesis by (simp add: cstr_def)
qed

end
