(* ===== verification/Usim_Options.thy ===== *)
theory Usim_Options
  imports Usim_Boot Usim_Lod Usim_Lmfs
begin

section \<open>Command lines\<close>

text \<open>
  The loops over \<open>getopt\<close> at the start of the programs. \<open>getopt\<close> of the C library takes options and
  operands in any order (as glibc does, unless POSIXLY_CORRECT is set), several option letters in a word, and an argument in
  the word of its option or in the next; what it reports as \<open>?\<close> is an unknown letter or a missing argument. Words are
  those after the name of the program.
\<close>

subsection \<open>\<open>getopt\<close>\<close>

text \<open>Whether a letter is an option, and whether it has an argument.\<close>

fun opt_kind :: "cstring \<Rightarrow> u8 \<Rightarrow> bool option" where
  "opt_kind [] c = None"
| "opt_kind (x # xs) c = (if x = c \<and> c \<noteq> 58 then Some (xs \<noteq> [] \<and> hd xs = 58) else opt_kind xs c)"

text \<open>An option as the loop sees it: the letter and \<open>optarg\<close> (empty for an option without argument).\<close>

type_synonym found = "u8 \<times> cstring"

text \<open>The letters of one word, and the words left after it.\<close>

fun getopt_word :: "cstring \<Rightarrow> cstring \<Rightarrow> cstring list \<Rightarrow> found list \<times> cstring list" where
  "getopt_word os [] rest = ([], rest)"
| "getopt_word os (c # cs) rest =
    (case opt_kind os c of
       None \<Rightarrow> apfst (Cons (63, [])) (getopt_word os cs rest)
     | Some False \<Rightarrow> apfst (Cons (c, [])) (getopt_word os cs rest)
     | Some True \<Rightarrow>
        if cs \<noteq> [] then ([(c, cs)], rest)
        else (case rest of [] \<Rightarrow> ([(63, [])], []) | a # as \<Rightarrow> ([(c, a)], as)))"

lemma getopt_word_rest: "length (snd (getopt_word os cs rest)) \<le> length rest"
  by (induction os cs rest rule: getopt_word.induct) (auto split: option.splits bool.splits list.splits)

text \<open>All options in order, and the operands.\<close>

function getopt :: "cstring \<Rightarrow> cstring list \<Rightarrow> found list \<times> cstring list" where
  "getopt os [] = ([], [])"
| "getopt os (a # as) =
    (if a = cstr ''--'' then ([], as)
     else if length a < 2 \<or> hd a \<noteq> 45 then apsnd (Cons a) (getopt os as)
     else (let (found, rest) = getopt_word os (tl a) as in apfst (append found) (getopt os rest)))"
  by pat_completeness auto

termination
proof (relation "measure (\<lambda>(os, as). length as)")
  fix os a as found rest x
  assume "x = getopt_word os (tl a) as" "(found, rest) = x"
  then show "((os, rest), (os, a # as)) \<in> measure (\<lambda>(os, as). length as)"
    using getopt_word_rest [of os "tl a" as] by (metis case_prod_conv in_measure le_imp_less_Suc length_Cons snd_conv)
qed simp_all

declare getopt.simps(2) [simp del]

text \<open>A loop that may end the program: the first option that does decides.\<close>

primrec each_option :: "(found \<Rightarrow> 'o \<Rightarrow> 'e + 'o) \<Rightarrow> found list \<Rightarrow> 'o \<Rightarrow> 'e + 'o" where
  "each_option g [] opt = Inr opt"
| "each_option g (x # xs) opt = (case g x opt of Inl e \<Rightarrow> Inl e | Inr opt1 \<Rightarrow> each_option g xs opt1)"

text \<open>
  Options as they may be written: letters in a word, a letter and its argument in one word or in two. They are found
  as they were written.
\<close>

datatype written = Letters cstring | Glued u8 cstring | Apart u8 cstring

primrec words_of :: "written \<Rightarrow> cstring list" where
  "words_of (Letters cs) = [45 # cs]"
| "words_of (Glued c a) = [45 # c # a]"
| "words_of (Apart c a) = [[45, c], a]"

primrec found_of :: "written \<Rightarrow> found list" where
  "found_of (Letters cs) = map (\<lambda>c. (c, [])) cs"
| "found_of (Glued c a) = [(c, a)]"
| "found_of (Apart c a) = [(c, a)]"

primrec allowed :: "cstring \<Rightarrow> written \<Rightarrow> bool" where
  "allowed os (Letters cs) \<longleftrightarrow> cs \<noteq> [] \<and> (\<forall>c \<in> set cs. c \<noteq> 45 \<and> opt_kind os c = Some False)"
| "allowed os (Glued c a) \<longleftrightarrow> c \<noteq> 45 \<and> opt_kind os c = Some True \<and> a \<noteq> []"
| "allowed os (Apart c a) \<longleftrightarrow> c \<noteq> 45 \<and> opt_kind os c = Some True"

lemma getopt_word_letters:
  "\<forall>c \<in> set cs. opt_kind os c = Some False \<Longrightarrow> getopt_word os cs rest = (map (\<lambda>c. (c, [])) cs, rest)"
  by (induction cs) simp_all

lemma getopt_words:
  "list_all (allowed os) xs \<Longrightarrow>
    getopt os (concat (map words_of xs) @ rest) = apfst (append (concat (map found_of xs))) (getopt os rest)"
proof (induction xs)
  case Nil
  then show ?case by (cases "getopt os rest") simp
next
  case (Cons x xs)
  have "cs \<noteq> [] \<Longrightarrow> \<exists>c cs'. cs = c # cs'" for cs :: cstring by (cases cs) simp_all
  then show ?case
    using Cons by (cases x; cases "getopt os rest") (auto simp: getopt.simps(2) getopt_word_letters)
qed

lemma each_option_append:
  "each_option g (xs @ ys) opt = (case each_option g xs opt of Inl e \<Rightarrow> Inl e | Inr opt1 \<Rightarrow> each_option g ys opt1)"
  by (induction xs arbitrary: opt) (simp_all split: sum.splits)

subsection \<open>usim\<close>

record usim_flags = start_options +
  stop_after_prom :: bool
  lashup :: bool

text \<open>The body of the \<open>switch\<close>; an exit code on the left.\<close>

definition usim_option :: "found \<Rightarrow> usim_flags \<Rightarrow> int + usim_flags" where
  "usim_option x opt =
    (let (c, arg) = x in
     if c = of_char CHR ''i'' then Inr (opt\<lparr>disk_filename := arg\<rparr>)
     else if c = of_char CHR ''S'' then Inr (opt\<lparr>save_state_opt := True\<rparr>)
     else if c = of_char CHR ''s'' then Inr (opt\<lparr>stop_after_prom := True\<rparr>)
     else if c = of_char CHR ''w'' then Inr (opt\<lparr>warm_boot_opt := True\<rparr>)
     else if c = of_char CHR ''l'' then Inr (opt\<lparr>lashup := True\<rparr>)
     else if c = of_char CHR ''h'' then Inl 0
     else Inl 1)"

definition usim_defaults :: usim_flags where
  "usim_defaults = \<lparr>disk_filename = cstr ''disk.img'', save_state_opt = False, warm_boot_opt = False,
     stop_after_prom = False, lashup = False\<rparr>"

definition usim_options :: "cstring list \<Rightarrow> int + usim_flags" where
  "usim_options argv =
    (let (found, operands) = getopt (cstr ''i:Sswl'') argv in
     case each_option usim_option found usim_defaults of
       Inl e \<Rightarrow> Inl e
     | Inr opt \<Rightarrow> if operands \<noteq> [] then Inl 1 else Inr opt)"

text \<open>The names of images in a list of written options.\<close>

primrec images :: "written \<Rightarrow> cstring list" where
  "images (Letters cs) = []"
| "images (Glued c a) = [a]"
| "images (Apart c a) = [a]"

primrec letters :: "written \<Rightarrow> cstring" where
  "letters (Letters cs) = cs"
| "letters (Glued c a) = []"
| "letters (Apart c a) = []"

lemma usim_kinds:
  "opt_kind (cstr ''i:Sswl'') c = Some True \<longleftrightarrow> c = of_char CHR ''i''"
  "opt_kind (cstr ''i:Sswl'') c = Some False \<longleftrightarrow> c \<in> set (cstr ''Sswl'')"
  by auto

definition usim_set :: "cstring list \<Rightarrow> cstring \<Rightarrow> usim_flags \<Rightarrow> usim_flags" where
  "usim_set names cs opt = opt\<lparr>disk_filename := last (disk_filename opt # names),
     save_state_opt := save_state_opt opt \<or> of_char CHR ''S'' \<in> set cs,
     warm_boot_opt := warm_boot_opt opt \<or> of_char CHR ''w'' \<in> set cs,
     stop_after_prom := stop_after_prom opt \<or> of_char CHR ''s'' \<in> set cs,
     lashup := lashup opt \<or> of_char CHR ''l'' \<in> set cs\<rparr>"

lemma usim_set_append: "usim_set (ns @ ns') (cs @ cs') opt = usim_set ns' cs' (usim_set ns cs opt)"
  by (cases ns'; cases ns) (auto simp: usim_set_def)

lemma usim_letters:
  "\<forall>c \<in> set cs. c \<in> set (cstr ''Sswl'') \<Longrightarrow> each_option usim_option (map (\<lambda>c. (c, [])) cs) opt = Inr (usim_set [] cs opt)"
proof (induction cs arbitrary: opt)
  case (Cons c cs)
  have "usim_option (c, []) opt = Inr (usim_set [] [c] opt)"
    using Cons.prems by (auto simp: usim_option_def usim_set_def)
  then show ?case
    using Cons usim_set_append [of "[]" "[]" "[c]" cs opt] by simp
qed (simp add: usim_set_def)

lemma usim_written:
  "list_all (allowed (cstr ''i:Sswl'')) xs \<Longrightarrow>
    each_option usim_option (concat (map found_of xs)) opt = Inr (usim_set (concat (map images xs)) (concat (map letters xs)) opt)"
proof (induction xs arbitrary: opt)
  case Nil
  then show ?case by (simp add: usim_set_def)
next
  case (Cons x xs)
  have "each_option usim_option (found_of x) opt = Inr (usim_set (images x) (letters x) opt)"
    using Cons.prems usim_kinds
    by (cases x) (simp_all add: usim_letters del: opt_kind.simps cstr_simps, simp_all add: usim_option_def usim_set_def)
  then show ?case
    using Cons by (simp add: each_option_append usim_set_append)
qed

lemma getopt_operand: "w = [] \<or> hd w \<noteq> 45 \<Longrightarrow> getopt os [w] = ([], [w])"
  by (cases w) (auto simp: getopt.simps(2))

lemma usim_options_written:
  "list_all (allowed (cstr ''i:Sswl'')) xs \<Longrightarrow>
    usim_options (concat (map words_of xs)) = Inr (usim_set (concat (map images xs)) (concat (map letters xs)) usim_defaults)"
  using getopt_words [of "cstr ''i:Sswl''" xs "[]"] usim_written [of xs]
  by (simp add: usim_options_def del: cstr_simps)

text \<open>
  C38. The command line of the simulator: in whatever order the options are written, letters joined in a word or
  not, arguments in the same word or the next, the loop over \<open>getopt\<close> sets the flags of the letters that occur and takes the last
  image named; a word that is no option ends the program with 1.
\<close>

theorem command_line_read:
  assumes "list_all (allowed (cstr ''i:Sswl'')) xs"
  shows "usim_options (concat (map words_of xs)) = Inr (usim_set (concat (map images xs)) (concat (map letters xs)) usim_defaults) \<and>
    (w = [] \<or> hd w \<noteq> 45 \<longrightarrow> usim_options (concat (map words_of xs) @ [w]) = Inl 1)"
  using usim_options_written [OF assms] getopt_words [OF assms, of "[w]"] usim_written [OF assms] getopt_operand [of w]
  by (simp add: usim_options_def del: cstr_simps)

lemma command_line_read_witness:
  "usim_options [cstr ''-iA'', cstr ''-wS'', cstr ''-i'', cstr ''B''] =
     Inr (usim_defaults\<lparr>disk_filename := cstr ''B'', save_state_opt := True, warm_boot_opt := True\<rparr>)"
  using command_line_read [of "[Glued (of_char CHR ''i'') (cstr ''A''), Letters (cstr ''wS''), Apart (of_char CHR ''i'') (cstr ''B'')]"]
  by (simp add: usim_set_def usim_defaults_def)

text \<open>The usage message offers \<open>-h\<close>, but the letter is not in the string given to \<open>getopt\<close>: it ends the program with 1, not 0.\<close>

lemma help_is_an_error: "usim_options [cstr ''-h''] = Inl 1"
  by (simp add: usim_options_def getopt.simps(2) usim_option_def)

subsection \<open>diskmaker\<close>

definition diskmaker_option :: "found \<Rightarrow> options \<Rightarrow> int + options" where
  "diskmaker_option x opt =
    (let (c, arg) = x in
     if c = of_char CHR ''b'' then Inr (opt\<lparr>boot_name := Some arg\<rparr>)
     else if c = of_char CHR ''B'' then Inr (opt\<lparr>boot_mcr_name := Some arg\<rparr>)
     else if c = of_char CHR ''c'' then Inr (opt\<lparr>create_flag := True\<rparr>)
     else if c = of_char CHR ''d'' then Inr opt
     else if c = of_char CHR ''f'' then Inr (opt\<lparr>opt_img := Some arg\<rparr>)
     else if c = of_char CHR ''p'' then Inr (opt\<lparr>show_flag := True\<rparr>)
     else if c = of_char CHR ''t'' then Inr (opt\<lparr>template_filename := Some arg\<rparr>)
     else if c = of_char CHR ''m'' then Inr (opt\<lparr>part_name := Some arg, modify_flag := True\<rparr>)
     else if c = of_char CHR ''l'' then Inr (opt\<lparr>label_flag := True\<rparr>)
     else if c = of_char CHR ''x'' then Inr (opt\<lparr>part_name := Some arg, extract_flag := True\<rparr>)
     else Inl 1)"

definition diskmaker_defaults :: options where
  "diskmaker_defaults = \<lparr>boot_name = None, boot_mcr_name = None, template_filename = None, opt_img = None, part_name = None,
     show_flag = False, create_flag = False, modify_flag = False, extract_flag = False, label_flag = False\<rparr>"

definition diskmaker_options :: "cstring list \<Rightarrow> int + options" where
  "diskmaker_options argv =
     each_option diskmaker_option (fst (getopt (cstr ''b:B:cdlt:f:pm:x:'') argv)) (diskmaker_defaults\<lparr>show_flag := argv = []\<rparr>)"

definition diskmaker_main :: "cstring list \<Rightarrow> u8 list \<Rightarrow> fs \<Rightarrow> (fs \<times> cstring) option" where
  "diskmaker_main argv b files =
    (case diskmaker_options argv of Inl _ \<Rightarrow> Some (files, []) | Inr opt \<Rightarrow> diskmaker opt b files)"

lemma diskmaker_create_line:
  "diskmaker_options [cstr ''-c'', cstr ''-t'', tn] = Inr (diskmaker_defaults\<lparr>create_flag := True, template_filename := Some tn\<rparr>)"
  by (simp add: diskmaker_options_def getopt.simps(2) diskmaker_option_def diskmaker_defaults_def)

lemma diskmaker_extract_line:
  "diskmaker_options [cstr ''-x'', name, cstr ''-f'', img] =
     Inr (diskmaker_defaults\<lparr>extract_flag := True, part_name := Some name, opt_img := Some img\<rparr>)"
  by (simp add: diskmaker_options_def getopt.simps(2) diskmaker_option_def diskmaker_defaults_def)

lemma add_partition_img: "img_filename (fst (add_partition n s z t l f k)) = img_filename k"
  by (simp add: add_partition_def)

lemma default_template_img: "img_filename (default_template k) = (case img_filename k of None \<Rightarrow> Some (cstr ''disk.img'') | Some s \<Rightarrow> Some s)"
  by (simp add: default_template_def Let_def add_partition_img del: cstr_simps)

text \<open>
  C11. The image tool from its command line: \<open>diskmaker -c -t TEMPLATE\<close> makes the image that the template names, with
  all partitions, and \<open>diskmaker -x PART -f IMAGE\<close> then writes a file with the name of the partition that holds
  what went into it: the file the template names for it (with the halves of its words exchanged when the name begins with
  MCR), then zeros up to the size of the partition. No other file changes.
\<close>

theorem made_then_extracted:
  assumes "parse_template (files tn) (default_template no_pack) = Some k" and "img_filename k = Some img" and "files img = None"
    and "layout_ok files k" and "x \<in> set (parts k)" and "files (p_name x) = None" and "p_name x \<noteq> img"
    and "length b = 1024" and "length b' = 1024"
  shows "\<exists>f. diskmaker_main [cstr ''-c'', cstr ''-t'', tn] b files = Some (files(img := Some f), []) \<and>
    diskmaker_main [cstr ''-x'', p_name x, cstr ''-f'', img] b' (files(img := Some f)) =
      Some (files(img := Some f, p_name x := Some (map (partition_byte files x) [0..<1024 * unat (p_size x)])), [])"
proof -
  let ?k1 = "default_template (no_pack\<lparr>img_filename := Some img\<rparr>)"
  obtain f k' where f: "create_disk files b (Some tn) (default_template no_pack) = Some (Some (k, f, 0))"
    and e: "extract_partition (Some f) (p_name x) b' [] ?k1
      = Some (k', Some (map (partition_byte files x) [0..<1024 * unat (p_size x)]), -1)" "img_filename k' = img_filename ?k1"
    using create_then_extract [OF assms(1-5,8,9), of ?k1] by blast
  have n: "no_pack\<lparr>img_filename := None\<rparr> = no_pack" by (simp add: no_pack_def)
  have "diskmaker_main [cstr ''-c'', cstr ''-t'', tn] b files = Some (files(img := Some f), [])"
    using f assms(2) default_template_img [of no_pack]
    by (simp add: diskmaker_main_def diskmaker_create_line diskmaker_def diskmaker_defaults_def n del: cstr_simps)
      (simp add: no_pack_def)
  moreover have "diskmaker_main [cstr ''-x'', p_name x, cstr ''-f'', img] b' (files(img := Some f)) =
      Some (files(img := Some f, p_name x := Some (map (partition_byte files x) [0..<1024 * unat (p_size x)])), [])"
    using e assms(6,7) default_template_img [of "no_pack\<lparr>img_filename := Some img\<rparr>"]
    by (simp add: diskmaker_main_def diskmaker_extract_line diskmaker_def diskmaker_defaults_def del: cstr_simps)
  ultimately show ?thesis by blast
qed

lemma made_then_extracted_witness:
  "\<exists>files f x. diskmaker_main [cstr ''-c'', cstr ''-t'', cstr ''t''] (replicate 1024 0) files = Some (files(cstr ''disk.img'' := Some f), []) \<and>
    diskmaker_main [cstr ''-x'', cstr ''MCR1'', cstr ''-f'', cstr ''disk.img''] (replicate 1024 0) (files(cstr ''disk.img'' := Some f)) =
      Some (files(cstr ''disk.img'' := Some f, cstr ''MCR1'' := Some (map (partition_byte files x) [0..<151552])), [])"
proof -
  define files where "files = (\<lambda>n. None)(cstr ''../bands/ucadr.mcr.841'' := Some (replicate 1024 (7 :: u8)),
    cstr ''../bands/system-78-48.LOD'' := Some (replicate 2048 9))"
  let ?k = "default_template no_pack"
  have fits: "\<forall>x \<in> set (parts ?k). fits files x \<and> 0 < unat (p_start x) \<and> 0 < unat (p_size x)"
  proof -
    have "\<exists>n :: nat. 1024 = 1024 * n \<and> n \<le> 0x94" by (rule exI [of _ 1]) simp
    moreover have "\<exists>n :: nat. 2048 = 1024 * n \<and> n \<le> 0x5EA1" by (rule exI [of _ 2]) simp
    ultimately show ?thesis
      unfolding default_parts by (simp add: fits_def files_def del: cstr_simps)
  qed
  then have lay: "layout_ok files ?k" using default_layout [of no_pack] by (simp add: layout_ok_def)
  obtain x where x: "x \<in> set (parts ?k)" "p_name x = cstr ''MCR1''" "p_size x = 0x94"
    unfolding default_parts by fastforce
  have img: "img_filename ?k = Some (cstr ''disk.img'')"
    using default_template_img [of no_pack] by (simp add: no_pack_def)
  have free: "files (cstr ''t'') = None" "files (cstr ''disk.img'') = None" "files (p_name x) = None" "p_name x \<noteq> cstr ''disk.img''"
    unfolding x(2) by (simp_all add: files_def)
  have t: "parse_template (files (cstr ''t'')) ?k = Some ?k" unfolding free(1) by (simp add: parse_template_def)
  obtain f where f: "diskmaker_main [cstr ''-c'', cstr ''-t'', cstr ''t''] (replicate 1024 0) files = Some (files(cstr ''disk.img'' := Some f), [])"
    "diskmaker_main [cstr ''-x'', p_name x, cstr ''-f'', cstr ''disk.img''] (replicate 1024 0) (files(cstr ''disk.img'' := Some f)) =
      Some (files(cstr ''disk.img'' := Some f, p_name x := Some (map (partition_byte files x) [0..<1024 * unat (p_size x)])), [])"
    using made_then_extracted [OF t img free(2) lay x(1) free(3,4) length_replicate length_replicate] by blast
  moreover have "1024 * unat (p_size x) = 151552" unfolding x(3) by simp
  ultimately show ?thesis unfolding x(2) by metis
qed

subsection \<open>lod\<close>

text \<open>A number that \<open>sscanf\<close> does not find leaves the variable as it was; unknown options are passed over.\<close>

definition scan_into :: "cstring \<Rightarrow> u32 \<Rightarrow> u32" where
  "scan_into arg v = (case scan_octal arg of None \<Rightarrow> v | Some (n, _) \<Rightarrow> n)"

definition lod_option :: "found \<Rightarrow> lod_options \<Rightarrow> int + lod_options" where
  "lod_option x opt =
    (let (c, arg) = x in
     Inr (if c = of_char CHR ''l'' then opt\<lparr>loadband_filename := Some arg\<rparr>
          else if c = of_char CHR ''i'' then opt\<lparr>lod_disk_filename := Some arg\<rparr>
          else if c = of_char CHR ''c'' then opt\<lparr>show_comm := True\<rparr>
          else if c = of_char CHR ''s'' then opt\<lparr>show_scratch := True\<rparr>
          else if c = of_char CHR ''f'' then opt\<lparr>show_initial_fef := True\<rparr>
          else if c = of_char CHR ''g'' then opt\<lparr>show_initial_sg := True\<rparr>
          else if c = of_char CHR ''p'' then opt\<lparr>lod_pc := scan_into arg (lod_pc opt), show_fef := True\<rparr>
          else if c = of_char CHR ''a'' then
            (let a = scan_into arg (lod_addr opt) in opt\<lparr>lod_addr := a, lod_pc := a * 4, show_fef := True\<rparr>)
          else if c = of_char CHR ''m'' then opt\<lparr>lod_addr := scan_into arg (lod_addr opt), show_memory := True\<rparr>
          else if c = of_char CHR ''w'' then opt\<lparr>set_wide := True\<rparr>
          else opt))"

definition lod_defaults :: lod_options where
  "lod_defaults = \<lparr>loadband_filename = None, lod_disk_filename = None, show_comm = False, show_scratch = False,
     show_initial_fef = False, show_fef = False, show_initial_sg = False, show_memory = False, set_wide = False,
     lod_pc = 0, lod_addr = 0\<rparr>"

definition lod_options_of :: "cstring list \<Rightarrow> int + lod_options" where
  "lod_options_of argv =
    (let (found, operands) = getopt (cstr ''l:i:csfgp:a:m:w'') argv in
     case each_option lod_option found lod_defaults of
       Inl e \<Rightarrow> Inl e
     | Inr opt \<Rightarrow> if operands \<noteq> [] \<or> argv = [] then Inl 1 else Inr opt)"

definition lod_program :: "cstring list \<Rightarrow> fs \<Rightarrow> u16 \<Rightarrow> (lod \<times> int) option" where
  "lod_program argv files g =
    (case lod_options_of argv of Inl e \<Rightarrow> Some (lod_start, e) | Inr opt \<Rightarrow> lod_main files opt g)"

subsection \<open>readmcr\<close>

text \<open>\<open>needswap\<close>, \<open>showmcr\<close> and \<open>skip\<close>. A file that cannot be opened gives end of file at the first read.\<close>

definition readmcr_option :: "found \<Rightarrow> bool \<times> bool \<times> u32 \<Rightarrow> int + bool \<times> bool \<times> u32" where
  "readmcr_option x opt =
    (let (c, arg) = x; (needswap, showmcr, skip) = opt in
     Inr (if c = of_char CHR ''b'' then (False, showmcr, skip)
          else if c = of_char CHR ''d'' then opt
          else if c = of_char CHR ''s'' then (needswap, showmcr, atoi arg)
          else if c = of_char CHR ''m'' then (needswap, True, skip)
          else opt))"

definition readmcr_main :: "cstring list \<Rightarrow> fs \<Rightarrow> (dump \<times> bool) option option" where
  "readmcr_main argv files =
    (let (found, operands) = getopt (cstr ''mbds:'') argv in
     case each_option readmcr_option found (True, False, 0) of
       Inl e \<Rightarrow> Some None
     | Inr (needswap, showmcr, skip) \<Rightarrow>
        (case operands of
           [] \<Rightarrow> Some None
         | n # _ \<Rightarrow> readmcr needswap showmcr skip (case files n of None \<Rightarrow> [] | Some f \<Rightarrow> f)))"

subsection \<open>lmfs\<close>

text \<open>
  The directory to show and the files to read or write are options too, but what they would do is empty; only
  \<open>-f\<close> matters. The value is the files written under \<open>tmp/\<close>.
\<close>

definition lmfs_option :: "found \<Rightarrow> cstring option \<Rightarrow> int + cstring option" where
  "lmfs_option x img =
    (let (c, arg) = x in
     if c = of_char CHR ''d'' then Inr img
     else if c = of_char CHR ''f'' then Inr (Some arg)
     else if c = of_char CHR ''r'' then Inr img
     else if c = of_char CHR ''w'' then Inr img
     else Inl 1)"

definition lmfs_main :: "cstring list \<Rightarrow> fs \<Rightarrow> u8 list \<Rightarrow> ((cstring \<times> u8 list) list \<times> int) option option" where
  "lmfs_main argv files g =
    (if argv = [] then Some None
     else case each_option lmfs_option (fst (getopt (cstr ''d:f:r:w:'') argv)) None of
       Inl e \<Rightarrow> Some None
     | Inr img \<Rightarrow> lmfs_open (files (case img of None \<Rightarrow> cstr ''FILE'' | Some n \<Rightarrow> n)) g)"

end
