(* ===== verification/Usim_Records.thy ===== *)
theory Usim_Records
  imports Usim_Lmfs Usim_Lod
begin

section \<open>Structures of the file system in memory (lmfs.c)\<close>

text \<open>
  The structures that lmfs.c lays over the buffer, with the offsets that Usim_Lmfs uses computed from their declarations,
  and the dump of a directory entry.
\<close>

subsection \<open>The structures of the file system\<close>

text \<open>
  The declarations of the structures, and where the compiler puts their fields: each at the next multiple of its alignment.
  The numbers that the functions above add to a pointer are these.
\<close>

datatype ctype =
  Prim nat
| Arr ctype nat
| Struct "(string \<times> ctype) list"

type_synonym fields = "(string \<times> ctype) list"

definition round_up :: "nat \<Rightarrow> nat \<Rightarrow> nat" where
  "round_up n a = (n + a - 1) div a * a"

fun align_of :: "ctype \<Rightarrow> nat" and align_fields :: "fields \<Rightarrow> nat" where
  "align_of (Prim n) = n"
| "align_of (Arr t n) = align_of t"
| "align_of (Struct fs) = align_fields fs"
| "align_fields [] = 1"
| "align_fields ((x, t) # fs) = max (align_of t) (align_fields fs)"

fun size_of :: "ctype \<Rightarrow> nat" and end_of :: "nat \<Rightarrow> fields \<Rightarrow> nat" where
  "size_of (Prim n) = n"
| "size_of (Arr t n) = n * size_of t"
| "size_of (Struct fs) = round_up (end_of 0 fs) (align_fields fs)"
| "end_of k [] = k"
| "end_of k ((x, t) # fs) = end_of (round_up k (align_of t) + size_of t) fs"

fun offset_from :: "nat \<Rightarrow> fields \<Rightarrow> string \<Rightarrow> nat option" where
  "offset_from k [] y = None"
| "offset_from k ((x, t) # fs) y =
    (if x = y then Some (round_up k (align_of t)) else offset_from (round_up k (align_of t) + size_of t) fs y)"

definition offset_of :: "fields \<Rightarrow> string \<Rightarrow> nat option" where
  "offset_of = offset_from 0"

definition fixnum :: ctype where "fixnum = Prim 4"
definition short :: ctype where "short = Prim 2"
definition char1 :: ctype where "char1 = Prim 1"

definition fh_element :: fields where
  "fh_element = [(''name'', Arr char1 4), (''location'', short), (''length'', short)]"

definition disk_address :: fields where
  "disk_address = [(''primary_root'', fixnum), (''free_store_info'', fixnum), (''bad_track_info'', fixnum),
     (''volume_table'', fixnum), (''aspare'', Arr fixnum 4)]"

definition update_times :: fields where
  "update_times = [(''label_accepted'', fixnum), (''shut_down'', fixnum), (''free_map_reconstructed'', fixnum),
     (''structure_salvaged'', fixnum), (''scavenged'', fixnum), (''tspare'', Arr fixnum 4)]"

definition partition_label_s :: fields where
  "partition_label_s = [(''version'', fixnum), (''name_len'', short), (''name'', Arr char1 30), (''label_size'', fixnum),
     (''partition_id'', fixnum), (''disk_address'', Struct disk_address), (''update_times'', Struct update_times),
     (''uid_generator'', fixnum), (''monotone_generator'', fixnum), (''root_list'', Struct fh_element)]"

definition link_transparencies :: fields where
  "link_transparencies = [(''attributes'', Struct [(''read_thru'', char1), (''write_thru'', char1), (''create_thru'', char1),
     (''rename_thru'', char1), (''delete_thru'', char1), (''lpad'', Arr char1 6), (''ignore'', fixnum)])]"

definition file_map_s :: fields where
  "file_map_s = [(''allocated_length'', fixnum), (''valid_length'', short), (''link'', short), (''element'', Arr fixnum 1)]"

definition dir_header_s :: fields where
  "dir_header_s = [(''version'', short), (''size'', short), (''name_len'', short), (''name'', Arr char1 30),
     (''number_of_entries'', short), (''free_entry_list'', short), (''entries_index_offset'', short), (''direntry_size'', short),
     (''entries_per_block'', short), (''default_generation_retention_count'', short), (''uid_path_offset'', short),
     (''uid_path_length'', short), (''hierarch_depth'', short), (''default_volid'', fixnum), (''auto_expunge_p'', char1),
     (''auto_expunge_interval'', fixnum), (''auto_expunge_last_time'', fixnum),
     (''default_link_transparencies'', Struct link_transparencies)]"

definition tapeinfo :: fields where
  "tapeinfo = [(''date'', fixnum), (''tapename'', Arr char1 8)]"

definition dates :: fields where
  "dates = [(''date_time_created'', fixnum), (''date_time_deleted'', fixnum), (''date_time_reconstructed'', fixnum),
     (''date_time_modified'', fixnum), (''date_time_used'', fixnum)]"

definition directory_entry_s :: fields where
  "directory_entry_s = [(''file_name_len'', short), (''file_name'', Arr char1 30), (''file_type_len'', short),
     (''file_type'', Arr char1 14), (''file_version'', Arr char1 3), (''bytesize'', char1), (''author_len'', short),
     (''author'', Arr char1 14), (''file_name_true_length'', short), (''number_of_records'', fixnum), (''dates'', Struct dates),
     (''unique_ID'', fixnum), (''byte_length'', fixnum), (''generation_retention_count'', char1), (''partition_index'', Arr char1 3),
     (''record_0_address'', fixnum), (''archive_a'', Struct tapeinfo), (''archive_b'', Struct tapeinfo), (''ignore_mode_word'', short)]"

definition file_header_s :: fields where
  "file_header_s = [(''version'', fixnum), (''logical_size'', fixnum), (''bootload_generation'', fixnum),
     (''version_in_bootload'', fixnum), (''number_of_elements'', short), (''ignore_mode_word'', short),
     (''parts_array'', Arr (Struct fh_element) 8)]"

lemmas structures = fixnum_def short_def char1_def fh_element_def disk_address_def update_times_def partition_label_s_def
  link_transparencies_def file_map_s_def dir_header_s_def tapeinfo_def dates_def directory_entry_s_def file_header_s_def

lemma label_layout:
  "offset_of partition_label_s ''name'' = Some 6" "offset_of partition_label_s ''disk_address'' = Some 44"
  "offset_of disk_address ''primary_root'' = Some 0" "size_of (Struct partition_label_s) = 128"
  by (simp_all add: structures offset_of_def round_up_def numeral_2_eq_2 [symmetric])

lemma header_layout:
  "size_of (Struct file_header_s) = 84" "offset_of file_header_s ''parts_array'' = Some 20"
  "size_of (Struct fh_element) = 8" "offset_of fh_element ''location'' = Some 4"
  by (simp_all add: structures offset_of_def round_up_def numeral_2_eq_2 [symmetric])

lemma map_layout:
  "size_of (Struct file_map_s) = 12" "offset_of file_map_s ''valid_length'' = Some 4" "offset_of file_map_s ''element'' = Some 8"
  by (simp_all add: structures offset_of_def round_up_def numeral_2_eq_2 [symmetric])

lemma directory_layout:
  "size_of (Struct dir_header_s) = 88" "offset_of dir_header_s ''name'' = Some 6" "offset_of dir_header_s ''number_of_entries'' = Some 36"
  by (simp_all add: structures offset_of_def round_up_def numeral_2_eq_2 [symmetric])

lemma entry_layout:
  "size_of (Struct directory_entry_s) = 140" "offset_of directory_entry_s ''file_name'' = Some 2"
  "offset_of directory_entry_s ''file_type'' = Some 34" "offset_of directory_entry_s ''author'' = Some 54"
  "offset_of directory_entry_s ''byte_length'' = Some 100" "offset_of directory_entry_s ''record_0_address'' = Some 108"
  by (simp_all add: structures offset_of_def round_up_def numeral_2_eq_2 [symmetric])

subsection \<open>The dump of a directory entry\<close>

text \<open>The sign of \<open>char\<close> makes no difference: only the low four bits are kept.\<close>

definition tohex :: "u8 \<Rightarrow> u8" where
  "tohex b = (let d = b AND 0xF in if d < 10 then 48 + d else 97 + (d - 10))"

definition dump_line :: "nat \<Rightarrow> u8 list \<Rightarrow> cstring" where
  "dump_line offset bs = pad_hex 4 offset @ cstr '' '' @
     32 # concat (map (\<lambda>j. if j < length bs then [tohex (drop_bit 4 (bs ! j)), tohex (bs ! j), 32] else cstr ''xx '') [0..<16]) @
     cstr '' '' @ map (\<lambda>j. if j < length bs then (if 32 \<le> bs ! j \<and> bs ! j \<le> 126 then bs ! j else 46) else 120) [0..<16] @ [10]"

function dump_from :: "nat \<Rightarrow> u8 list \<Rightarrow> cstring" where
  "dump_from offset bs = (if bs = [] then [] else dump_line offset (take 16 bs) @ dump_from (offset + 16) (drop 16 bs))"
  by auto
termination by (relation "measure (\<lambda>(offset, bs). length bs)") auto

declare dump_from.simps [simp del]

definition dumpmem :: "u8 list \<Rightarrow> cstring" where
  "dumpmem = dump_from 0"

text \<open>The digits are those of the bytes.\<close>

definition hex_value :: "u8 \<Rightarrow> u8" where
  "hex_value c = (if c < 58 then c - 48 else c - 87)"

lemma hex_value_tohex: "hex_value (tohex b) = b AND 0xF"
proof -
  have "unat (b AND 0xF) < 16"
    using word_and_le1 [of b "0xF"] by (simp add: word_le_nat_alt)
  then have "unat (b AND 0xF) \<in> set [0..<16]" by simp
  moreover have "b AND 0xF = of_nat (unat (b AND 0xF))" by simp
  ultimately have "\<exists>k \<in> set [0..<16]. b AND 0xF = of_nat k" by blast
  then show ?thesis
    unfolding tohex_def Let_def by (auto simp: hex_value_def upt_rec)
qed

lemma dump_digits: "push_bit 4 (hex_value (tohex (drop_bit 4 b))) OR hex_value (tohex b) = b"
proof -
  have m: "(0xF :: u8) = mask 4" by (simp add: mask_eq_exp_minus_1)
  show ?thesis
    unfolding hex_value_tohex m by (rule bit_word_eqI) (auto simp: bit_simps)
qed

lemma dump_length: "length (dump_line offset bs) = length (pad_hex 4 offset) + 68"
  by (simp add: dump_line_def upt_rec)

end
