(* ===== verification/Usim_Cc.thy ===== *)
theory Usim_Cc
  imports Usim_Disasm "HOL-Library.Multiset"
begin

section \<open>The CADR debugger (cc.c, lcadmc.h)\<close>

text \<open>
  The debugger talks to the spy registers of a real CADR over a serial line: a request is
  one byte, a reply four bytes with a digit of the value each. The line, and the machine behind it, are
  a parameter (\<open>port\<close>) with a state of its own: what sending a byte does to it, and what one call of \<open>read\<close>
  for at most so many bytes returns (\<open>Again\<close> is errno 11, \<open>Fail\<close> any other error). The model keeps
  that state and the text printed (debug output, the option \<open>-d\<close>, is left out). A function that may wait
  for ever yields \<open>None\<close> if it does.
\<close>

datatype answer = Data "u8 list" | Again | Fail

record 'h port =
  psend :: "u8 \<Rightarrow> 'h \<Rightarrow> 'h"
  precv :: "nat \<Rightarrow> 'h \<Rightarrow> answer \<times> 'h"
  left_first :: bool \<comment> \<open>does the compiler evaluate the arguments of \<open>printf\<close> from left to right\<close>

record 'h cc =
  hw :: 'h
  said :: cstring
  verbose :: bool
  vv :: u32

definition say :: "cstring \<Rightarrow> 'h cc \<Rightarrow> 'h cc" where
  "say t s = s\<lparr>said := said s @ t\<rparr>"

definition sayln :: "cstring \<Rightarrow> 'h cc \<Rightarrow> 'h cc" where
  "sayln t s = say (t @ [10]) s"

primrec each :: "('a \<Rightarrow> 's \<Rightarrow> 's option) \<Rightarrow> 'a list \<Rightarrow> 's \<Rightarrow> 's option" where
  "each g [] s = Some s"
| "each g (x # xs) s = do { s1 \<leftarrow> g x s; each g xs s1 }"

subsection \<open>Spy registers\<close>

definition cc_send :: "'h port \<Rightarrow> u8 list \<Rightarrow> 'h \<Rightarrow> 'h" where
  "cc_send p bs h = fold (psend p) bs h"

text \<open>
  Reading the reply: the request is sent again after six reads with \<open>EAGAIN\<close>. The result is what
  has arrived and how much of it the last \<open>read\<close> returned.
\<close>

partial_function (option) reg_read :: "'h port \<Rightarrow> u8 \<Rightarrow> nat \<Rightarrow> u8 list \<Rightarrow> 'h \<Rightarrow> (u8 list \<times> nat \<times> 'h) option" where
  "reg_read p req loops got h =
    (case precv p (64 - length got) h of
       (Data bs, h1) \<Rightarrow>
         let bs1 = take (64 - length got) bs in
         if length got + length bs1 = 4 then Some (got @ bs1, length bs1, h1)
         else reg_read p req loops (got @ bs1) h1
     | (Again, h1) \<Rightarrow>
         if 5 < loops + 1 then reg_read p req 0 [] (cc_send p [req] h1)
         else reg_read p req (loops + 1) got h1
     | (Fail, h1) \<Rightarrow> reg_read p req loops got h1)"

type_synonym nibs = "u8 option \<times> u8 option \<times> u8 option \<times> u8 option"

definition reply_byte :: "u8 \<Rightarrow> nibs \<Rightarrow> nibs" where
  "reply_byte b ns =
    (let (n0, n1, n2, n3) = ns; nib = drop_bit 4 (b AND 0xF0) in
     if nib = 3 then (Some b, n1, n2, n3) else if nib = 4 then (n0, Some b, n2, n3)
     else if nib = 5 then (n0, n1, Some b, n3) else if nib = 6 then (n0, n1, n2, Some b) else ns)"

definition reply_value :: "u8 list \<Rightarrow> u16" where
  "reply_value bs =
    (case fold reply_byte bs (None, None, None, None) of
       (Some n0, Some n1, Some n2, Some n3) \<Rightarrow>
         push_bit 12 (ucast (n0 AND 0xF)) OR push_bit 8 (ucast (n1 AND 0xF)) OR push_bit 4 (ucast (n2 AND 0xF)) OR ucast (n3 AND 0xF)
     | _ \<Rightarrow> 0)"

definition reg_get :: "'h port \<Rightarrow> u8 \<Rightarrow> u8 \<Rightarrow> 'h cc \<Rightarrow> (u16 \<times> 'h cc) option" where
  "reg_get p base reg s = do {
     let req = base OR (reg AND 0x1F);
     (buffer, ret, h) \<leftarrow> reg_read p req 0 [] (cc_send p [req] (hw s));
     Some (reply_value (take ret buffer), s\<lparr>hw := h\<rparr>)
   }"

text \<open>Only the low sixteen bits of the value are sent.\<close>

definition reg_bytes :: "u8 \<Rightarrow> u8 \<Rightarrow> u16 \<Rightarrow> u8 list" where
  "reg_bytes base reg v =
    [0x30 OR (ucast (drop_bit 12 v) AND 0xF), 0x40 OR (ucast (drop_bit 8 v) AND 0xF),
     0x50 OR (ucast (drop_bit 4 v) AND 0xF), 0x60 OR (ucast v AND 0xF), base OR (reg AND 0x1F)]"

definition reg_set :: "'h port \<Rightarrow> u8 \<Rightarrow> u8 \<Rightarrow> u16 \<Rightarrow> 'h cc \<Rightarrow> 'h cc" where
  "reg_set p base reg v s = s\<lparr>hw := cc_send p (reg_bytes base reg v) (hw s)\<rparr>"

definition cc_get :: "'h port \<Rightarrow> u8 \<Rightarrow> 'h cc \<Rightarrow> (u16 \<times> 'h cc) option" where
  "cc_get p reg s = reg_get p 0x80 reg s"

definition cc_set :: "'h port \<Rightarrow> u8 \<Rightarrow> u16 \<Rightarrow> 'h cc \<Rightarrow> 'h cc" where
  "cc_set p reg v s = reg_set p 0xA0 reg v s"

definition mmc_get :: "'h port \<Rightarrow> u8 \<Rightarrow> 'h cc \<Rightarrow> (u16 \<times> 'h cc) option" where
  "mmc_get p reg s = reg_get p 0xC0 reg s"

definition mmc_set :: "'h port \<Rightarrow> u8 \<Rightarrow> u16 \<Rightarrow> 'h cc \<Rightarrow> 'h cc" where
  "mmc_set p reg v s = reg_set p 0xD0 reg v s"

definition cc_stop :: "'h port \<Rightarrow> 'h cc \<Rightarrow> 'h cc" where
  "cc_stop p s = cc_set p 3 0 s"

definition cc_go :: "'h port \<Rightarrow> 'h cc \<Rightarrow> 'h cc" where
  "cc_go p s = cc_set p 3 1 s"

definition cc_read_pair :: "'h port \<Rightarrow> u8 \<Rightarrow> u8 \<Rightarrow> 'h cc \<Rightarrow> (u32 \<times> 'h cc) option" where
  "cc_read_pair p r1 r2 s = do {
     (v1, s1) \<leftarrow> cc_get p r1 s;
     (v2, s2) \<leftarrow> cc_get p r2 s1;
     Some (push_bit 16 (ucast v1) OR ucast v2, s2)
   }"

definition cc_read_triple :: "'h port \<Rightarrow> u8 \<Rightarrow> u8 \<Rightarrow> u8 \<Rightarrow> 'h cc \<Rightarrow> (u64 \<times> 'h cc) option" where
  "cc_read_triple p r1 r2 r3 s = do {
     (v1, s1) \<leftarrow> cc_get p r1 s;
     (v2, s2) \<leftarrow> cc_get p r2 s1;
     (v3, s3) \<leftarrow> cc_get p r3 s2;
     Some (push_bit 32 (ucast v1) OR ucast (push_bit 16 (ucast v2 :: u32)) OR ucast v3, s3)
   }"

definition cc_read_obus :: "'h port \<Rightarrow> 'h cc \<Rightarrow> (u32 \<times> 'h cc) option" where
  "cc_read_obus p s = cc_read_pair p 7 6 s"

definition cc_read_obus2 :: "'h port \<Rightarrow> 'h cc \<Rightarrow> (u32 \<times> 'h cc) option" where
  "cc_read_obus2 p s = cc_read_pair p 0x15 0x14 s"

definition cc_read_a_bus :: "'h port \<Rightarrow> 'h cc \<Rightarrow> (u32 \<times> 'h cc) option" where
  "cc_read_a_bus p s = cc_read_pair p 0xD 0xC s"

definition cc_read_m_bus :: "'h port \<Rightarrow> 'h cc \<Rightarrow> (u32 \<times> 'h cc) option" where
  "cc_read_m_bus p s = cc_read_pair p 0xB 0xA s"

definition cc_read_ir :: "'h port \<Rightarrow> 'h cc \<Rightarrow> (u64 \<times> 'h cc) option" where
  "cc_read_ir p s = cc_read_triple p 2 1 0 s"

definition cc_read_pc :: "'h port \<Rightarrow> 'h cc \<Rightarrow> (u16 \<times> 'h cc) option" where
  "cc_read_pc p s = cc_get p 5 s"

definition cc_read_scratch :: "'h port \<Rightarrow> 'h cc \<Rightarrow> (u16 \<times> 'h cc) option" where
  "cc_read_scratch p s = cc_get p 3 s"

definition cc_read_status :: "'h port \<Rightarrow> 'h cc \<Rightarrow> (u32 \<times> 'h cc) option" where
  "cc_read_status p s = do {
     (v1, s1) \<leftarrow> cc_get p 8 s;
     (v2, s2) \<leftarrow> cc_get p 9 s1;
     (v3, s3) \<leftarrow> cc_get p 0 s2;
     let v2' = (if v3 AND 0x40 \<noteq> 0 then v2 XOR 4 else v2);
     Some (push_bit 16 (ucast v1) OR ucast v2', s3)
   }"

subsection \<open>Clocks\<close>

definition pulse :: "'h port \<Rightarrow> u16 \<Rightarrow> 'h cc \<Rightarrow> 'h cc" where
  "pulse p v s = cc_set p 3 0 (cc_set p 3 v s)"

definition cc_debug_clock :: "'h port \<Rightarrow> 'h cc \<Rightarrow> 'h cc" where
  "cc_debug_clock p s = pulse p 0xA s"

definition cc_noop_debug_clock :: "'h port \<Rightarrow> 'h cc \<Rightarrow> 'h cc" where
  "cc_noop_debug_clock p s = pulse p 0xE s"

definition cc_clock :: "'h port \<Rightarrow> 'h cc \<Rightarrow> 'h cc" where
  "cc_clock p s = pulse p 2 s"

definition cc_noop_clock :: "'h port \<Rightarrow> 'h cc \<Rightarrow> 'h cc" where
  "cc_noop_clock p s = pulse p 6 s"

definition cc_single_step :: "'h port \<Rightarrow> 'h cc \<Rightarrow> 'h cc" where
  "cc_single_step p s = pulse p 6 s"

subsection \<open>Executing an instruction\<close>

definition set_ir :: "'h port \<Rightarrow> u64 \<Rightarrow> 'h cc \<Rightarrow> 'h cc" where
  "set_ir p ir s = cc_set p 0 (ucast ir) (cc_set p 1 (ucast (drop_bit 16 ir)) (cc_set p 2 (ucast (drop_bit 32 ir)) s))"

definition cc_write_diag_ir :: "'h port \<Rightarrow> u64 \<Rightarrow> 'h cc \<Rightarrow> 'h cc" where
  "cc_write_diag_ir p ir s = set_ir p ir (set_ir p ir (if verbose s then say (disassemble_ucode_loc ir) s else s))"

definition say_ir :: "u64 \<Rightarrow> 'h cc \<Rightarrow> 'h cc" where
  "say_ir ir s =
    (if verbose s then sayln (cstr ''ir '' @ dec (unat ir) @ cstr '' (0x'' @ pad_hex 16 (unat ir) @ cstr '')'') s else s)"

definition cc_write_ir :: "'h port \<Rightarrow> u64 \<Rightarrow> 'h cc \<Rightarrow> 'h cc" where
  "cc_write_ir p ir s = cc_noop_debug_clock p (cc_write_diag_ir p ir (say_ir ir s))"

text \<open>The instruction register is loaded until it reads back.\<close>

partial_function (option) load_ir :: "'h port \<Rightarrow> u64 \<Rightarrow> 'h cc \<Rightarrow> 'h cc option" where
  "load_ir p ir s = do {
     (v, s1) \<leftarrow> cc_read_ir p (cc_noop_debug_clock p (cc_write_diag_ir p ir s));
     if v \<noteq> ir then load_ir p ir (sayln (cstr ''ir reread failed; retry'') s1) else Some s1
   }"

definition cc_execute_r :: "'h port \<Rightarrow> u64 \<Rightarrow> 'h cc \<Rightarrow> 'h cc option" where
  "cc_execute_r p ir s = do {
     s1 \<leftarrow> load_ir p ir (say_ir ir s);
     Some (cc_debug_clock p s1)
   }"

definition cc_execute_w :: "'h port \<Rightarrow> u64 \<Rightarrow> 'h cc \<Rightarrow> 'h cc option" where
  "cc_execute_w p ir s = do {
     s1 \<leftarrow> load_ir p ir (say_ir ir s);
     Some (cc_noop_clock p (cc_clock p s1))
   }"

definition cc_execute :: "'h port \<Rightarrow> bool \<Rightarrow> u64 \<Rightarrow> 'h cc \<Rightarrow> 'h cc option" where
  "cc_execute p wr ir s = (if wr then cc_execute_w p ir s else cc_execute_r p ir s)"

primrec bitmask :: "nat \<Rightarrow> u32" where
  "bitmask 0 = 0"
| "bitmask (Suc wid) = push_bit 1 (bitmask wid) OR 1"

text \<open>A field is 0100 times its shift plus its width, in the constants of lcadmc.h.\<close>

definition ir_pair :: "nat \<Rightarrow> u32 \<Rightarrow> u64" where
  "ir_pair field val =
    (let shift = drop_bit 6 field; width = field AND 0x3F; mask = bitmask width in
     push_bit shift (ucast (val AND mask)))"

definition CONS_IR_A_SRC :: nat where "CONS_IR_A_SRC = 0x80A"
definition CONS_IR_M_SRC :: nat where "CONS_IR_M_SRC = 0x686"
definition CONS_M_SRC_MD :: u32 where "CONS_M_SRC_MD = 0x2A"
definition CONS_IR_A_MEM_DEST :: nat where "CONS_IR_A_MEM_DEST = 0x38C"
definition CONS_A_MEM_DEST_INDICATOR :: u32 where "CONS_A_MEM_DEST_INDICATOR = 0x800"
definition CONS_IR_M_MEM_DEST :: nat where "CONS_IR_M_MEM_DEST = 0x385"
definition CONS_IR_OB :: nat where "CONS_IR_OB = 0x302"
definition CONS_OB_ALU :: u32 where "CONS_OB_ALU = 1"
definition CONS_IR_ALUF :: nat where "CONS_IR_ALUF = 0x87"
definition CONS_ALU_SETM :: u32 where "CONS_ALU_SETM = push_bit 1 3"
definition CONS_ALU_SETA :: u32 where "CONS_ALU_SETA = push_bit 1 5"

subsection \<open>Memory data, memory address, A and M memory\<close>

definition cc_read_md :: "'h port \<Rightarrow> 'h cc \<Rightarrow> (u32 \<times> 'h cc) option" where
  "cc_read_md p s = cc_read_pair p 0x11 0x10 s"

definition set_pair :: "'h port \<Rightarrow> u8 \<Rightarrow> u8 \<Rightarrow> u32 \<Rightarrow> 'h cc \<Rightarrow> 'h cc" where
  "set_pair p r1 r2 v s = cc_set p r2 (ucast v) (cc_set p r1 (ucast (drop_bit 16 v)) s)"

partial_function (option) md_settles :: "'h port \<Rightarrow> u32 \<Rightarrow> 'h cc \<Rightarrow> 'h cc option" where
  "md_settles p w s = do {
     (v, s1) \<leftarrow> cc_read_md p s;
     if v = w then Some s1
     else md_settles p w (set_pair p 9 8 w
            (sayln (cstr ''md readback failed, retry got '' @ pad_hex 0 (unat v) @ cstr '' want '' @ pad_hex 0 (unat w)) s1))
   }"

definition cc_write_md :: "'h port \<Rightarrow> u32 \<Rightarrow> 'h cc \<Rightarrow> 'h cc option" where
  "cc_write_md p w s = md_settles p w (set_pair p 9 8 w s)"

definition cc_read_vma :: "'h port \<Rightarrow> 'h cc \<Rightarrow> (u32 \<times> 'h cc) option" where
  "cc_read_vma p s = cc_read_pair p 0x13 0x12 s"

partial_function (option) vma_settles :: "'h port \<Rightarrow> u32 \<Rightarrow> 'h cc \<Rightarrow> 'h cc option" where
  "vma_settles p w s = do {
     (v, s1) \<leftarrow> cc_read_vma p s;
     if v \<noteq> w then vma_settles p w (set_pair p 0xB 0xA w (sayln (cstr ''vma readback failed, retry'') s1))
     else Some s1
   }"

definition cc_write_vma :: "'h port \<Rightarrow> u32 \<Rightarrow> 'h cc \<Rightarrow> 'h cc option" where
  "cc_write_vma p w s = vma_settles p w (set_pair p 0xB 0xA w s)"

definition cc_write_md_1s :: "'h port \<Rightarrow> 'h cc \<Rightarrow> 'h cc option" where
  "cc_write_md_1s p s = cc_write_md p 0xFFFFFFFF s"

definition cc_write_md_0s :: "'h port \<Rightarrow> 'h cc \<Rightarrow> 'h cc option" where
  "cc_write_md_0s p s = cc_write_md p 0 s"

definition read_a_inst :: "u32 \<Rightarrow> u64" where
  "read_a_inst adr = ir_pair CONS_IR_A_SRC adr OR ir_pair CONS_IR_ALUF CONS_ALU_SETA OR ir_pair CONS_IR_OB CONS_OB_ALU"

definition cc_read_a_mem :: "'h port \<Rightarrow> u32 \<Rightarrow> 'h cc \<Rightarrow> (u32 \<times> 'h cc) option" where
  "cc_read_a_mem p adr s = do {
     s1 \<leftarrow> cc_execute p False (read_a_inst adr) s;
     cc_read_obus p s1
   }"

definition write_a_inst :: "u32 \<Rightarrow> u64" where
  "write_a_inst loc = ir_pair CONS_IR_M_SRC CONS_M_SRC_MD OR ir_pair CONS_IR_ALUF CONS_ALU_SETM OR ir_pair CONS_IR_OB CONS_OB_ALU
     OR ir_pair CONS_IR_A_MEM_DEST (CONS_A_MEM_DEST_INDICATOR + loc)"

definition cc_write_a_mem :: "'h port \<Rightarrow> u32 \<Rightarrow> u32 \<Rightarrow> 'h cc \<Rightarrow> 'h cc option" where
  "cc_write_a_mem p loc val s = do {
     s1 \<leftarrow> cc_write_md p val s;
     (v2, s2) \<leftarrow> cc_read_md p s1;
     cc_execute p True (write_a_inst loc)
       (if v2 \<noteq> val
        then sayln (cstr ''cc_write_a_mem; md readback error (got='' @ print_octal v2 @ cstr '' wanted='' @ print_octal val @ cstr '')'') s2
        else s2)
   }"

definition read_m_inst :: "u32 \<Rightarrow> u64" where
  "read_m_inst adr = ir_pair CONS_IR_M_SRC adr OR ir_pair CONS_IR_ALUF CONS_ALU_SETM OR ir_pair CONS_IR_OB CONS_OB_ALU"

definition cc_read_m_mem :: "'h port \<Rightarrow> u32 \<Rightarrow> 'h cc \<Rightarrow> (u32 \<times> 'h cc) option" where
  "cc_read_m_mem p adr s = do {
     s1 \<leftarrow> cc_execute p False (read_m_inst adr) s;
     cc_read_obus p s1
   }"

subsection \<open>Reports\<close>

definition word_line :: "string \<Rightarrow> u32 \<Rightarrow> cstring" where
  "word_line name v = cstr name @ pad_octal 11 (unat v) @ cstr '' ('' @ pad_hex 8 (unat v) @ cstr '')''"

definition state_line :: "string \<Rightarrow> nat \<Rightarrow> cstring" where
  "state_line name v = cstr name @ dec v @ cstr '' (0x'' @ pad_hex 4 v @ cstr '')''"

definition cc_report_basic_regs :: "'h port \<Rightarrow> 'h cc \<Rightarrow> 'h cc option" where
  "cc_report_basic_regs p s = do {
     (a, s1) \<leftarrow> cc_read_a_bus p s;
     (m, s2) \<leftarrow> cc_read_m_bus p (sayln (word_line ''A = '' a) s1);
     (pc, s3) \<leftarrow> cc_read_pc p (sayln (word_line ''M = '' m) s2);
     (d, s4) \<leftarrow> cc_read_md p (sayln (word_line ''PC = '' (ucast pc)) s3);
     (v, s5) \<leftarrow> cc_read_vma p (sayln (word_line ''MD = '' d) s4);
     (disk, s6) \<leftarrow> cc_get p 0x16 (sayln (word_line ''VMA= '' v) s5);
     (bd, s7) \<leftarrow> cc_get p 0x17 s6;
     Some (sayln (state_line ''mmc-state '' (unat (drop_bit 6 bd)))
            (sayln (state_line ''bd-state '' (unat (bd AND 0x3F)))
              (sayln (state_line ''disk-state '' (unat disk)) s7)))
   }"

definition cc_report_pc :: "'h port \<Rightarrow> 'h cc \<Rightarrow> (u32 \<times> 'h cc) option" where
  "cc_report_pc p s = do {
     (pc, s1) \<leftarrow> cc_read_pc p s;
     Some (ucast pc, sayln (word_line ''PC = '' (ucast pc)) s1)
   }"

definition cc_report_pc_and_ir :: "'h port \<Rightarrow> 'h cc \<Rightarrow> (u32 \<times> 'h cc) option" where
  "cc_report_pc_and_ir p s = do {
     (pc, s1) \<leftarrow> cc_read_pc p s;
     (ir, s2) \<leftarrow> cc_read_ir p s1;
     Some (ucast pc, say (word_line ''PC='' (ucast pc) @ cstr '' ir='' @ dec (unat ir) @ [32] @ disassemble_ucode_loc ir) s2)
   }"

definition cc_report_pc_md_ir :: "'h port \<Rightarrow> 'h cc \<Rightarrow> (u32 \<times> 'h cc) option" where
  "cc_report_pc_md_ir p s = do {
     (pc, s1) \<leftarrow> cc_read_pc p s;
     (d, s2) \<leftarrow> cc_read_md p s1;
     (ir, s3) \<leftarrow> cc_read_ir p s2;
     Some (ucast pc, say (cstr ''PC='' @ pad_octal 11 (unat pc) @ word_line '' MD='' d @ cstr '' ir='' @ dec (unat ir) @ [32]
       @ disassemble_ucode_loc ir) s3)
   }"

definition cc_report_status :: "'h port \<Rightarrow> 'h cc \<Rightarrow> 'h cc option" where
  "cc_report_status p s = do {
     (v, s1) \<leftarrow> cc_read_status p s;
     let f1 = drop_bit 16 v;
     let f2 = v AND 0xFFFF;
     Some (say (cstr ''flags1: '' @ pad_hex 4 (unat f1) @ cstr '' (''
       @ (if bit f1 15 then cstr ''waiting '' else []) @ (if bit f1 12 then cstr ''promdisable '' else [])
       @ (if bit f1 11 then cstr ''stathalt '' else []) @ (if bit f1 10 then cstr ''err '' else [])
       @ (if bit f1 9 then cstr ''ssdone '' else []) @ (if bit f1 8 then cstr ''srun '' else [])
       @ cstr '') flags2: '' @ pad_hex 4 (unat f2) @ cstr '' (''
       @ (if bit f2 2 then cstr ''jcond '' else []) @ (if bit f2 3 then cstr ''vmaok '' else [])
       @ (if bit f2 4 then cstr ''nop '' else []) @ cstr '') '') s1)
   }"

text \<open>The three reads that are arguments of one \<open>printf\<close>.\<close>

definition say_buses :: "'h port \<Rightarrow> string \<Rightarrow> 'h cc \<Rightarrow> 'h cc option" where
  "say_buses p name s = do {
     (o1, o2, m, s3) \<leftarrow>
       (if left_first p then do {
          (o1, s1) \<leftarrow> cc_read_obus p s;
          (o2, s2) \<leftarrow> cc_read_obus2 p s1;
          (m, s3) \<leftarrow> cc_read_m_bus p s2;
          Some (o1, o2, m, s3)
        }
        else do {
          (m, s1) \<leftarrow> cc_read_m_bus p s;
          (o2, s2) \<leftarrow> cc_read_obus2 p s1;
          (o1, s3) \<leftarrow> cc_read_obus p s2;
          Some (o1, o2, m, s3)
        });
     Some (sayln (cstr name @ print_octal o1 @ [32] @ print_octal o2 @ [32] @ print_octal m) s3)
   }"

definition cc_pipe :: "'h port \<Rightarrow> 'h cc \<Rightarrow> 'h cc option" where
  "cc_pipe p s = each (\<lambda>i s. do {
     let isn = read_m_inst i;
     let s0 = say (dec (unat isn) @ [32] @ disassemble_ucode_loc isn) (sayln (cstr ''addr '' @ print_octal i @ cstr '':'') s);
     s1 \<leftarrow> say_buses p '' obus1 '' (cc_noop_debug_clock p (cc_write_diag_ir p isn s0));
     s2 \<leftarrow> say_buses p '' obus2 '' (cc_debug_clock p s1);
     s3 \<leftarrow> say_buses p '' obus3 '' (cc_debug_clock p s2);
     s4 \<leftarrow> say_buses p '' obus4 '' (cc_clock p s3);
     say_buses p '' obus5 '' (cc_clock p s4)
   }) [0, 1, 2, 3, 4, 5, 6, 7] s"

definition md_to_m_inst :: "u32 \<Rightarrow> u64" where
  "md_to_m_inst i = ir_pair CONS_IR_M_SRC CONS_M_SRC_MD OR ir_pair CONS_IR_ALUF CONS_ALU_SETM OR ir_pair CONS_IR_OB CONS_OB_ALU
     OR ir_pair CONS_IR_M_MEM_DEST i"

definition cc_pipe2 :: "'h port \<Rightarrow> 'h cc \<Rightarrow> 'h cc option" where
  "cc_pipe2 p s = each (\<lambda>i s. do {
     sa \<leftarrow> cc_write_md p i (sayln (cstr ''val '' @ print_octal i @ cstr '':'') s);
     (v2, sb) \<leftarrow> cc_read_md p sa;
     let sc = (if v2 \<noteq> i
               then sayln (cstr ''cc_pipe2; md readback error (got='' @ print_octal v2 @ cstr '' wanted='' @ print_octal i @ cstr '')'') sb
               else sb);
     let isn = md_to_m_inst i;
     let s0 = say (dec (unat isn) @ [32] @ disassemble_ucode_loc isn) sc;
     s1 \<leftarrow> say_buses p '' obus1 '' (cc_noop_debug_clock p (cc_write_diag_ir p isn s0));
     s2 \<leftarrow> say_buses p '' obus2 '' (cc_debug_clock p s1);
     s3 \<leftarrow> say_buses p '' obus3 '' (cc_debug_clock p s2);
     s4 \<leftarrow> say_buses p '' obus4 '' (cc_debug_clock p s3);
     say_buses p '' obus5 '' (cc_debug_clock p s4)
   }) [0, 1, 2, 3, 4, 5, 6, 7] s"

definition setup_map_inst :: "u64 list" where
  "setup_map_inst =
    [0x800000009003, 0xD07B, 0x18020E09F008, 0x98020C993076, 0x98040C017100, 0x2700C01028,
     0x18050C98306A, 0x27A8C010C8, 0x18040C017021, 0x98050C983124, 0x27A8C010C8, 0x98040C983000]"

definition cc_setup_map :: "'h port \<Rightarrow> 'h cc \<Rightarrow> 'h cc option" where
  "cc_setup_map p s = each (\<lambda>i s. cc_execute_r p (setup_map_inst ! i) (say (dec i @ [32]) s)) [0..<length setup_map_inst] s"

definition say_a_mem :: "'h port \<Rightarrow> u32 \<Rightarrow> 'h cc \<Rightarrow> 'h cc option" where
  "say_a_mem p adr s = do {
     (v, s1) \<leftarrow> cc_read_a_mem p adr s;
     Some (sayln (cstr ''a['' @ print_octal adr @ cstr '']='' @ print_octal v) s1)
   }"

definition cc_report_ide_regs :: "'h port \<Rightarrow> 'h cc \<Rightarrow> 'h cc option" where
  "cc_report_ide_regs p s = do {
     s1 \<leftarrow> cc_setup_map p (sayln (cstr ''setting up map...'') s);
     s2 \<leftarrow> cc_write_a_mem p 2 0x2DB (sayln (cstr ''read ide...'') s1);
     s3 \<leftarrow> cc_write_a_mem p 3 0x1FB s2;
     s4 \<leftarrow> cc_write_a_mem p 4 0x1FC s3;
     s5 \<leftarrow> cc_write_a_mem p 5 0x1FF s4;
     s6 \<leftarrow> each (\<lambda>i s. do {
       t1 \<leftarrow> cc_write_a_mem p 1 (i OR 0x10) s;
       t2 \<leftarrow> cc_execute_r p 0x100C01028 t1;
       t3 \<leftarrow> cc_execute_r p 0x300901028 t2;
       t4 \<leftarrow> cc_execute_w p 0x200C01028 t3;
       t5 \<leftarrow> cc_execute_w p 0x400901028 t4;
       t6 \<leftarrow> cc_execute_w p 0x500901028 t5;
       t7 \<leftarrow> cc_execute_w p 0x300881028 t6;
       (v, t8) \<leftarrow> cc_read_md p t7;
       Some (sayln (cstr ''ide['' @ dec (unat i) @ cstr ''] = 0x'' @ pad_hex 8 (unat v) @ cstr '' 0x'' @ pad_hex 2 (unat (v AND 0xFF))) t8)
     }) [0, 1, 2, 3, 4, 5, 6, 7] s5;
     each (say_a_mem p) [1, 2, 3, 4, 5, 6] s6
   }"

subsection \<open>Tests\<close>

definition say_scratch :: "u16 \<Rightarrow> u16 \<Rightarrow> cstring" where
  "say_scratch s1 s2 = cstr ''; scratch '' @ print_octal (ucast s1) @ cstr '' -> '' @ print_octal (ucast s2)
     @ cstr '' (0x'' @ pad_hex 0 (unat s2) @ cstr '') ''"

text \<open>The result is what the function returns: 0, or -1 when the third attempt fails too.\<close>

definition test_scratch :: "'h port \<Rightarrow> u16 \<Rightarrow> 'h cc \<Rightarrow> (int \<times> 'h cc) option" where
  "test_scratch p v s = do {
     (a1, s1) \<leftarrow> cc_read_scratch p s;
     (b1, s2) \<leftarrow> cc_read_scratch p (cc_set p 7 v s1);
     let s3 = say (cstr ''write 0'' @ print_octal (ucast v) @ say_scratch a1 b1) s2;
     if b1 = v then Some (0, sayln (cstr ''ok'') s3)
     else do {
       (b2, s4) \<leftarrow> cc_read_scratch p (sayln (cstr ''BAD'') s3);
       let s5 = say (cstr '' reread'' @ say_scratch a1 b2) s4;
       if b2 = v then Some (0, sayln (cstr ''ok'') s5)
       else do {
         (a3, s6) \<leftarrow> cc_read_scratch p (sayln (cstr ''BAD'') s5);
         (b3, s7) \<leftarrow> cc_read_scratch p (cc_set p 7 v s6);
         let s8 = say (cstr '' rewrite 0'' @ print_octal (ucast v) @ say_scratch a3 b3) s7;
         if b3 = v then Some (0, sayln (cstr ''ok'') s8) else Some (-1, sayln (cstr ''BAD'') s8)
       }
     }
   }"

definition cc_test_scratch :: "'h port \<Rightarrow> 'h cc \<Rightarrow> 'h cc option" where
  "cc_test_scratch p s = do {
     s1 \<leftarrow> each (\<lambda>v s. map_option snd (test_scratch p v s)) [0x29C, 0x8D1, 0, 0xFFF, 0xA72E, 0x2222] s;
     n \<leftarrow> c_add (vv s1) 1;
     map_option snd (test_scratch p (ucast n) (s1\<lparr>vv := n\<rparr>))
   }"

definition test_ir :: "'h port \<Rightarrow> u64 \<Rightarrow> 'h cc \<Rightarrow> (int \<times> 'h cc) option" where
  "test_ir p isn s = do {
     (v1, s1) \<leftarrow> cc_read_ir p (cc_write_ir p isn (say (cstr ''test ir '' @ dec (unat isn) @ [32]) s));
     if v1 = isn then Some (0, sayln (cstr ''ok'') s1)
     else do {
       (v2, s2) \<leftarrow> cc_read_ir p (say (cstr ''bad (want 0x'' @ pad_hex 0 (unat isn) @ cstr '' got 0x'' @ pad_hex 0 (unat v1) @ cstr '')''
                       @ [10] @ cstr '' reread; '') s1);
       if v2 = isn then Some (0, sayln (cstr ''ok'') s2)
       else do {
         (v3, s3) \<leftarrow> cc_read_ir p (cc_write_ir p isn (say (cstr ''bad'' @ [10] @ cstr '' rewrite; '') s2));
         if v3 = isn then Some (0, sayln (cstr ''ok'') s3) else Some (-1, sayln (cstr ''bad'') s3)
       }
     }
   }"

definition cc_test_ir :: "'h port \<Rightarrow> 'h cc \<Rightarrow> 'h cc option" where
  "cc_test_ir p s = each (\<lambda>isn s. map_option snd (test_ir p isn s))
     [0, 1, 0x000022220000, 0x011133332222, 2, 0x011155552222] s"


subsection \<open>The command loop\<close>

definition say_md :: "'h port \<Rightarrow> string \<Rightarrow> 'h cc \<Rightarrow> 'h cc option" where
  "say_md p name s = do {
     (v, s1) \<leftarrow> cc_read_md p s;
     Some (sayln (cstr name @ pad_octal 11 (unat v)) s1)
   }"

definition say_vma :: "'h port \<Rightarrow> string \<Rightarrow> 'h cc \<Rightarrow> 'h cc option" where
  "say_vma p name s = do {
     (v, s1) \<leftarrow> cc_read_vma p s;
     Some (sayln (cstr name @ pad_octal 11 (unat v)) s1)
   }"

definition say_mmc :: "'h port \<Rightarrow> u8 \<Rightarrow> 'h cc \<Rightarrow> 'h cc option" where
  "say_mmc p reg s = do {
     (v, s1) \<leftarrow> mmc_get p reg s;
     Some (sayln (pad_hex 4 (unat v)) s1)
   }"

definition cmd_step :: "'h port \<Rightarrow> 'h cc \<Rightarrow> 'h cc option" where
  "cmd_step p s = do {
     s1 \<leftarrow> cc_report_status p (cc_clock p s);
     map_option snd (cc_report_pc p s1)
   }"

partial_function (option) step_until :: "'h port \<Rightarrow> u32 \<Rightarrow> 'h cc \<Rightarrow> 'h cc option" where
  "step_until p arg s = do {
     (pc, s1) \<leftarrow> cc_report_pc_md_ir p (cc_clock p s);
     if pc = arg then Some s1 else step_until p arg s1
   }"

definition cmd_spy :: "'h port \<Rightarrow> u8 \<Rightarrow> 'h cc \<Rightarrow> 'h cc option" where
  "cmd_spy p r s = do {
     (v, s1) \<leftarrow> cc_get p r s;
     Some (sayln (cstr ''spy reg '' @ print_octal (ucast r) @ cstr '' = '' @ pad_octal 6 (unat v)
       @ cstr '' (0x'' @ pad_hex 0 (unat v) @ cstr '')'') s1)
   }"

text \<open>Read a word of virtual memory into MD by an instruction; \<open>v\<close> is the setting of \<open>verbose\<close> while it is executed.\<close>

definition cmd_fetch :: "'h port \<Rightarrow> (u32 \<Rightarrow> cstring) \<Rightarrow> bool option \<Rightarrow> u32 \<Rightarrow> 'h cc \<Rightarrow> 'h cc option" where
  "cmd_fetch p name v i s = do {
     s1 \<leftarrow> cc_write_a_mem p 2 i s;
     s2 \<leftarrow> (case v of
              None \<Rightarrow> cc_execute_r p 0x800200899028 s1
            | Some b \<Rightarrow> map_option (\<lambda>s. s\<lparr>verbose := False\<rparr>) (cc_execute_r p 0x800200899028 (s1\<lparr>verbose := b\<rparr>)));
     (d, s3) \<leftarrow> cc_read_md p s2;
     Some (sayln (name i @ cstr '' MD='' @ pad_octal 11 (unat d) @ cstr '' (0x'' @ pad_hex 0 (unat d) @ cstr '')'') s3)
   }"

definition at_octal :: "u32 \<Rightarrow> cstring" where
  "at_octal i = cstr ''@'' @ print_octal i"

definition cmd_write_tests :: "'h port \<Rightarrow> 'h cc \<Rightarrow> 'h cc option" where
  "cmd_write_tests p s = do {
     s1 \<leftarrow> cc_write_md_1s p s;
     s2 \<leftarrow> say_md p ''write md ones MD='' s1;
     s3 \<leftarrow> cc_write_md_0s p s2;
     s4 \<leftarrow> say_md p ''write md zeros MD='' s3;
     s5 \<leftarrow> cc_write_md p 0x53977 s4;
     s6 \<leftarrow> say_md p ''write md 01234567 MD='' s5;
     s7 \<leftarrow> cc_write_md p 0x1F58D1 s6;
     s8 \<leftarrow> say_md p ''write md 07654321 MD='' s7;
     s9 \<leftarrow> cc_write_vma p 0 s8;
     s10 \<leftarrow> say_vma p ''write vma 0 VMA='' s9;
     s11 \<leftarrow> cc_write_vma p 0x53977 s10;
     say_vma p ''write vma 01234567 VMA='' s11
   }"

definition cmd_address_tests :: "'h port \<Rightarrow> 'h cc \<Rightarrow> 'h cc option" where
  "cmd_address_tests p s = do {
     s1 \<leftarrow> cc_execute_w p 0x98020C89B007 s;
     s2 \<leftarrow> say_md p ''@200 MD='' s1;
     s3 \<leftarrow> cc_execute_w p 0x20188990C8 s2;
     s4 \<leftarrow> say_md p ''@201 MD='' s3;
     s5 \<leftarrow> cc_execute_r p 0x20180190C8 s4;
     s6 \<leftarrow> cc_execute_w p 0x18881018 s5;
     s7 \<leftarrow> say_md p ''@202 MD='' s6;
     say_vma p ''VMA= '' s7
   }"

definition say_memory :: "string \<Rightarrow> ('h port \<Rightarrow> u32 \<Rightarrow> 'h cc \<Rightarrow> (u32 \<times> 'h cc) option) \<Rightarrow> 'h port \<Rightarrow> u32 \<Rightarrow> 'h cc \<Rightarrow> 'h cc option" where
  "say_memory name get p r s = do {
     (v, s1) \<leftarrow> get p r s;
     Some (sayln (cstr name @ print_octal r @ cstr ''] = '' @ pad_octal 11 (unat v) @ cstr '' (0x'' @ pad_hex 0 (unat v) @ cstr '')'') s1)
   }"

definition say_a_word :: "'h port \<Rightarrow> u32 \<Rightarrow> 'h cc \<Rightarrow> 'h cc option" where
  "say_a_word p r s = do {
     (v, s1) \<leftarrow> cc_read_a_mem p r s;
     Some (sayln (cstr ''A['' @ print_octal r @ cstr ''] = '' @ pad_octal 11 (unat v)) s1)
   }"

definition cmd_a_tests :: "'h port \<Rightarrow> 'h cc \<Rightarrow> 'h cc option" where
  "cmd_a_tests p s = do {
     s1 \<leftarrow> cc_write_a_mem p 1 0x53977 s;
     s2 \<leftarrow> cc_write_a_mem p 2 0x1F58D1 s1;
     each (say_a_word p) [0, 1, 2, 3] s2
   }"

text \<open>The commands of the disk board, by the character after the slash.\<close>

definition cmd_mmc :: "'h port \<Rightarrow> u8 \<Rightarrow> 'h cc \<Rightarrow> 'h cc option" where
  "cmd_mmc p c s =
    (if c = of_char (CHR ''r'') then each (say_mmc p) [0, 1] s
     else if c = of_char (CHR ''i'') then Some (mmc_set p 0 (0 OR push_bit 2 1) s)
     else if c = of_char (CHR ''b'') then each (say_mmc p) [0, 0, 0, 0, 0] (mmc_set p 0 (1 OR push_bit 2 1) s)
     else if c = of_char (CHR ''d'') then each (say_mmc p) [0, 0, 0] (mmc_set p 0 (push_bit 3 1) s)
     else Some s)"

definition char_at :: "cstring \<Rightarrow> nat \<Rightarrow> u8" where
  "char_at line i = (if i < length line then line ! i else 0)"

definition command_arg :: "cstring \<Rightarrow> u32" where
  "command_arg line =
    (if char_at line 1 = of_char (CHR '' '') then
       (if char_at line 2 = of_char (CHR ''0'') then (case scan_octal (drop 2 line) of None \<Rightarrow> atoi (drop 2 line) | Some (v, _) \<Rightarrow> v)
        else atoi (drop 2 line))
     else 1)"

definition cc_command :: "'h port \<Rightarrow> cstring \<Rightarrow> 'h cc \<Rightarrow> 'h cc option" where
  "cc_command p line s =
    (let c = char_at line 0; arg = command_arg line in
     if c = of_char (CHR ''p'') then cc_pipe p s
     else if c = of_char (CHR ''q'') then cc_pipe2 p s
     else if c = of_char (CHR ''g'') then Some (cc_go p s)
     else if c = of_char (CHR ''c'') then do {
       s1 \<leftarrow> cc_report_status p (cc_single_step p s);
       map_option snd (cc_report_pc_and_ir p s1)
     }
     else if c = of_char (CHR ''s'') then each (\<lambda>i. cmd_step p) [0..<nat (sint arg)] s
     else if c = of_char (CHR ''u'') then step_until p arg (sayln (cstr ''run until PC='' @ print_octal arg) s)
     else if c = of_char (CHR ''h'') then do {
       s1 \<leftarrow> cc_report_status p (cc_stop p s);
       cc_report_basic_regs p (say [10] s1)
     }
     else if c = of_char (CHR ''S'') then cc_test_scratch p s
     else if c = of_char (CHR ''r'') then cc_report_basic_regs p s
     else if c = of_char (CHR ''I'') then cc_report_ide_regs p s
     else if c = of_char (CHR ''R'') then each (cmd_spy p) (map of_nat [0..<23]) s
     else if c = of_char (CHR ''n'') then Some (pulse p 2 s)
     else if c = of_char (CHR ''x'') then Some (cc_set p 5 1 (cc_set p 5 0xC1 (cc_set p 5 0 s)))
     else if c = of_char (CHR ''i'') then cc_test_ir p s
     else if c = of_char (CHR ''v'') then do { s1 \<leftarrow> cc_write_vma p 0xA72E s; say_vma p ''vma='' s1 }
     else if c = of_char (CHR ''d'') then cmd_write_tests p s
     else if c = of_char (CHR ''m'') then cmd_fetch p (\<lambda>i. cstr ''@0'') None 0 s
     else if c = of_char (CHR ''G'') then do {
       s1 \<leftarrow> each (cmd_fetch p at_octal (Some True)) [0, 1, 2, 3] s;
       each (cmd_fetch p at_octal None) [0x1FE, 0x1FF] s1
     }
     else if c = of_char (CHR ''a'') then cmd_address_tests p s
     else if c = of_char (CHR ''A'') then each (say_memory ''A['' cc_read_a_mem p) [0, 1, 2, 3, 4, 5, 6, 7] s
     else if c = of_char (CHR ''M'') then each (say_memory ''M['' cc_read_m_mem p) [0, 1, 2, 3, 4, 5, 6, 7] s
     else if c = of_char (CHR ''t'') then cmd_a_tests p s
     else if c = of_char (CHR ''/'') then cmd_mmc p (char_at line 1) s
     else Some s)"

text \<open>\<open>main\<close> after the line is set up, for the text of the standard input. It ends when the input does.\<close>

definition cc_main :: "'h port \<Rightarrow> u8 list \<Rightarrow> 'h cc \<Rightarrow> 'h cc option" where
  "cc_main p stdin s = do {
     s1 \<leftarrow> each (\<lambda>line s. cc_command p line (say (cstr ''> '') s)) (fgets_lines 256 stdin) (sayln (cstr ''ready'') s);
     Some (say (cstr ''> '') s1)
   }"

lemma less_8_cases: "n < (8 :: nat) \<Longrightarrow> n = 0 \<or> n = 1 \<or> n = 2 \<or> n = 3 \<or> n = 4 \<or> n = 5 \<or> n = 6 \<or> n = 7"
  by auto

definition nib :: "u8 \<Rightarrow> u8" where
  "nib b = drop_bit 4 (b AND 0xF0)"

lemma nib_digit:
  "nib (0x30 OR (x AND 0xF)) = 3" "nib (0x40 OR (x AND 0xF)) = 4" "nib (0x50 OR (x AND 0xF)) = 5" "nib (0x60 OR (x AND 0xF)) = 6"
  "(0x30 OR (x AND 0xF)) AND 0xF = x AND (0xF :: u8)" "(0x40 OR (x AND 0xF)) AND 0xF = x AND (0xF :: u8)"
  "(0x50 OR (x AND 0xF)) AND 0xF = x AND (0xF :: u8)" "(0x60 OR (x AND 0xF)) AND 0xF = x AND (0xF :: u8)"
  unfolding nib_def by (simp_all add: bit.conj_disj_distrib2 and.assoc drop_bit_and drop_bit_or)

lemma reply_byte_commute: "nib b \<noteq> nib c \<or> b = c \<Longrightarrow> reply_byte b \<circ> reply_byte c = reply_byte c \<circ> reply_byte b"
  by (rule ext) (auto simp: reply_byte_def nib_def Let_def split: prod.splits)

lemma digits_of_u16:
  "push_bit 12 (ucast (ucast (drop_bit 12 v) AND (0xF :: u8))) OR push_bit 8 (ucast (ucast (drop_bit 8 v) AND (0xF :: u8)))
     OR push_bit 4 (ucast (ucast (drop_bit 4 v) AND (0xF :: u8))) OR ucast (ucast v AND (0xF :: u8)) = (v :: u16)"
proof (rule bit_word_eqI)
  fix n assume "n < LENGTH(16)"
  then have n: "n < 16" by simp
  have m: "(0xF :: u8) = mask 4" by (simp add: mask_eq_exp_minus_1)
  consider "n < 4" | "4 \<le> n" "n < 8" | "8 \<le> n" "n < 12" | "12 \<le> n" using n by linarith
  then show "bit (push_bit 12 (ucast (ucast (drop_bit 12 v) AND (0xF :: u8))) OR push_bit 8 (ucast (ucast (drop_bit 8 v) AND (0xF :: u8)))
     OR push_bit 4 (ucast (ucast (drop_bit 4 v) AND (0xF :: u8))) OR ucast (ucast v AND (0xF :: u8)) :: u16) n = bit v n"
    using n unfolding m by cases (auto simp: bit_or_iff bit_push_bit_iff bit_ucast_iff bit_and_iff bit_drop_bit_eq bit_mask_iff)
qed

lemma reply_value_digits: "reply_value (take 4 (reg_bytes base reg v)) = v"
  using digits_of_u16 [of v] by (simp add: reply_value_def reg_bytes_def reply_byte_def Let_def nib_digit flip: nib_def)

lemma reply_value_permuted:
  assumes "mset bs = mset (take 4 (reg_bytes base reg v))"
  shows "reply_value bs = v"
proof -
  have s: "set bs = set (take 4 (reg_bytes base reg v))" using assms by (rule mset_eq_setD)
  have "fold reply_byte bs = fold reply_byte (take 4 (reg_bytes base reg v))"
  proof (rule fold_multiset_equiv [OF _ assms])
    fix b c assume "b \<in> set bs" "c \<in> set bs"
    then have "nib b \<noteq> nib c \<or> b = c" unfolding s by (auto simp: reg_bytes_def nib_digit)
    then show "reply_byte b \<circ> reply_byte c = reply_byte c \<circ> reply_byte b" by (rule reply_byte_commute)
  qed
  then show ?thesis using reply_value_digits [of base reg v] by (simp add: reply_value_def)
qed


subsection \<open>Replies\<close>

text \<open>\<open>n\<close> calls of \<open>read\<close> for \<open>k\<close> bytes that find nothing yet.\<close>

primrec quiet :: "'h port \<Rightarrow> nat \<Rightarrow> nat \<Rightarrow> 'h \<Rightarrow> 'h option" where
  "quiet p k 0 h = Some h"
| "quiet p k (Suc n) h = (case precv p k h of (Again, h1) \<Rightarrow> quiet p k n h1 | _ \<Rightarrow> None)"

lemma reg_read_quiet:
  "quiet p (64 - length got) n h = Some h1 \<Longrightarrow> loops + n \<le> 5 \<Longrightarrow> reg_read p req loops got h = reg_read p req (loops + n) got h1"
proof (induction n arbitrary: loops h)
  case (Suc n)
  obtain h2 where h2: "precv p (64 - length got) h = (Again, h2)" "quiet p (64 - length got) n h2 = Some h1"
    using Suc.prems(1) by (auto split: prod.splits answer.splits)
  have "reg_read p req loops got h = reg_read p req (loops + 1) got h2"
    using h2(1) Suc.prems(2) by (simp add: reg_read.simps [of p req loops got h])
  also have "\<dots> = reg_read p req (loops + 1 + n) got h1"
    using Suc.prems(2) by (intro Suc.IH h2(2)) simp
  finally show ?case by simp
qed simp

lemma reg_read_data:
  assumes "precv p (64 - length got) h = (Data bs, h1)" and "length got + length bs = 4"
  shows "reg_read p req loops got h = Some (got @ bs, length bs, h1)"
  using assms by (simp add: reg_read.simps [of p req loops got h] Let_def)

lemma reg_read_part:
  assumes "precv p (64 - length got) h = (Data bs, h1)" and "length got + length bs \<noteq> 4" and "length got + length bs \<le> 64"
  shows "reg_read p req loops got h = reg_read p req loops (got @ bs) h1"
  using assms by (simp add: reg_read.simps [of p req loops got h] Let_def)

lemma reg_read_again:
  assumes "quiet p (64 - length got) 6 h = Some h1"
  shows "reg_read p req 0 got h = reg_read p req 0 [] (cc_send p [req] h1)"
proof -
  obtain h2 where h2: "quiet p (64 - length got) 5 h = Some h2" "precv p (64 - length got) h2 = (Again, h1)"
  proof -
    have "\<exists>h2. quiet p k n h = Some h2 \<and> precv p k h2 = (Again, h1)" if "quiet p k (Suc n) h = Some h1" for k n h
      using that
    proof (induction n arbitrary: h)
      case (Suc n)
      then show ?case by (auto split: prod.splits answer.splits)
    qed (auto split: prod.splits answer.splits)
    from this [of "64 - length got" 5 h] show ?thesis using assms that by auto
  qed
  have "reg_read p req 0 got h = reg_read p req (0 + 5) got h2"
    using h2(1) by (intro reg_read_quiet) auto
  also have "\<dots> = reg_read p req 0 [] (cc_send p [req] h1)"
    using h2(2) by (simp add: reg_read.simps [of p req 5 got h2])
  finally show ?thesis .
qed

lemma reg_get_data:
  assumes "quiet p 64 n (cc_send p [base OR (reg AND 0x1F)] (hw s)) = Some h1" and "n \<le> 5"
    and "precv p 64 h1 = (Data bs, h2)" and "mset bs = mset (take 4 (reg_bytes base reg v))"
  shows "reg_get p base reg s = Some (v, s\<lparr>hw := h2\<rparr>)"
proof -
  have len: "length bs = 4" using mset_eq_length [OF assms(4)] by (simp add: reg_bytes_def)
  have "reg_read p (base OR (reg AND 0x1F)) 0 [] (cc_send p [base OR (reg AND 0x1F)] (hw s)) = Some (bs, 4, h2)"
    using reg_read_quiet [of p "[]" n _ h1 0] reg_read_data [of p "[]" h1 bs h2] assms(1-3) len by simp
  then show ?thesis
    using reply_value_permuted [OF assms(4)] len by (simp add: reg_get_def)
qed

text \<open>
  C24. A spy register is read correctly when its reply arrives in one piece: whatever the order of the
  four bytes, and after up to five reads that find nothing, the value returned is the one the bytes
  were made from.
\<close>

theorem reply_is_decoded:
  assumes "quiet p 64 n (cc_send p [base OR (reg AND 0x1F)] (hw s)) = Some h1" and "n \<le> 5"
    and "precv p 64 h1 = (Data bs, h2)" and "mset bs = mset (take 4 (reg_bytes base reg v))"
  shows "reg_get p base reg s = Some (v, s\<lparr>hw := h2\<rparr>)"
  using assms by (rule reg_get_data)

definition echo_port :: "(u8 list list) port" where
  "echo_port = \<lparr>psend = \<lambda>b h. h,
     precv = \<lambda>k h. (case h of [] \<Rightarrow> (Again, []) | bs # h1 \<Rightarrow> (if bs = [] then Again else Data bs, h1)), left_first = False\<rparr>"

definition session :: "'h \<Rightarrow> 'h cc" where
  "session h = \<lparr>hw = h, said = [], verbose = False, vv = 0\<rparr>"

lemma reply_is_decoded_witness:
  "reg_get echo_port 0x80 5 (session [[], [0x64, 0x31, 0x42, 0x53]]) = Some (0x1234, session [])"
  using reply_is_decoded [of echo_port 1 "0x80" 5 "session [[], [0x64, 0x31, 0x42, 0x53]]" "[[0x64, 0x31, 0x42, 0x53]]"
      "[0x64, 0x31, 0x42, 0x53]" "[]" "0x1234"]
  by (simp add: echo_port_def session_def cc_send_def reg_bytes_def)

text \<open>Each byte supplies at most one digit.\<close>

definition digits_got :: "nibs \<Rightarrow> nat" where
  "digits_got ns = (let (n0, n1, n2, n3) = ns in
     (if n0 = None then 0 else 1) + (if n1 = None then 0 else 1) + (if n2 = None then 0 else 1) + (if n3 = None then 0 else 1))"

lemma digits_got_fold: "digits_got (fold reply_byte bs ns) \<le> digits_got ns + length bs"
proof (induction bs arbitrary: ns)
  case (Cons b bs)
  have "digits_got (reply_byte b ns) \<le> digits_got ns + 1"
    by (auto simp: digits_got_def reply_byte_def Let_def split: prod.splits)
  then show ?case using Cons.IH [of "reply_byte b ns"] by simp
qed simp

lemma reply_value_short:
  assumes "length bs < 4"
  shows "reply_value bs = 0"
proof -
  have "digits_got (fold reply_byte bs (None, None, None, None)) < 4"
    using digits_got_fold [of bs "(None, None, None, None)"] assms by (simp add: digits_got_def)
  then show ?thesis by (auto simp: reply_value_def digits_got_def split: prod.splits option.splits)
qed

text \<open>
  A reply that arrives in two pieces is lost: the code then looks at as many bytes of the buffer as the
  last read returned, finds less than four digits, and returns 0 whatever the value was.
\<close>

theorem split_reply_is_lost:
  assumes "precv p 64 (cc_send p [base OR (reg AND 0x1F)] (hw s)) = (Data (take k bs), h1)"
    and "precv p (64 - k) h1 = (Data (drop k bs), h2)" and "0 < k" and "k < 4"
    and "mset bs = mset (take 4 (reg_bytes base reg v))"
  shows "reg_get p base reg s = Some (0, s\<lparr>hw := h2\<rparr>)"
proof -
  have len: "length bs = 4" using mset_eq_length [OF assms(5)] by (simp add: reg_bytes_def)
  have "reg_read p (base OR (reg AND 0x1F)) 0 [] (cc_send p [base OR (reg AND 0x1F)] (hw s)) = Some (bs, 4 - k, h2)"
    using reg_read_part [of p "[]" _ "take k bs" h1] reg_read_data [of p "take k bs" h1 "drop k bs" h2] assms(1-4) len by simp
  moreover have "reply_value (take (4 - k) bs) = 0"
    using len assms(3) by (intro reply_value_short) simp
  ultimately show ?thesis by (simp add: reg_get_def)
qed

lemma split_reply_is_lost_witness:
  "reg_get echo_port 0x80 5 (session [[0x31, 0x42, 0x53], [0x64]]) = Some (0, session [])"
  using split_reply_is_lost [of echo_port "0x80" 5 "session [[0x31, 0x42, 0x53], [0x64]]" 3 "[0x31, 0x42, 0x53, 0x64]" "[[0x64]]" "[]" "0x1234"]
  by (simp add: echo_port_def session_def cc_send_def reg_bytes_def)


subsection \<open>Writing a register\<close>

lemma halves_of_u32: "push_bit 16 (ucast (ucast (drop_bit 16 w) :: u16)) OR ucast (ucast w :: u16) = (w :: u32)"
proof (rule bit_word_eqI)
  fix n assume "n < LENGTH(32)"
  then have n: "n < 32" by simp
  consider "n < 16" | "16 \<le> n" by linarith
  then show "bit (push_bit 16 (ucast (ucast (drop_bit 16 w) :: u16)) OR ucast (ucast w :: u16) :: u32) n = bit w n"
    using n by cases (auto simp: bit_or_iff bit_push_bit_iff bit_ucast_iff bit_drop_bit_eq)
qed

text \<open>
  C14. With a machine that answers each request in one piece and keeps what is written to MD, \<open>cc_write_md\<close> ends
  at its first attempt, without a message, and MD then reads back as the word that was written.
\<close>

theorem debugger_writes_md:
  assumes "\<forall>h. \<forall>r < 0x20. \<exists>h1. precv p 64 (cc_send p [0x80 OR (r AND 0x1F)] h) = (Data (take 4 (reg_bytes 0x80 r (regs h r))), h1) \<and> regs h1 = regs h"
    and "\<forall>h v. regs (cc_send p (reg_bytes 0xA0 9 v) h) = (regs h)(0x11 := v)"
    and "\<forall>h v. regs (cc_send p (reg_bytes 0xA0 8 v) h) = (regs h)(0x10 := v)"
  shows "\<exists>s1 s2. cc_write_md p w s = Some s1 \<and> said s1 = said s \<and> cc_read_md p s1 = Some (w, s2)"
proof -
  have get: "r < 0x20 \<Longrightarrow> \<exists>h1. cc_get p r s = Some (regs (hw s) r, s\<lparr>hw := h1\<rparr>) \<and> regs h1 = regs (hw s)" for r and s :: "'a cc"
  proof -
    assume "r < 0x20"
    then obtain h1 where h1: "precv p 64 (cc_send p [0x80 OR (r AND 0x1F)] (hw s)) = (Data (take 4 (reg_bytes 0x80 r (regs (hw s) r))), h1)"
      "regs h1 = regs (hw s)"
      using assms(1) by blast
    then show ?thesis
      using reg_get_data [of p 0 "0x80" r s _ _ h1 "regs (hw s) r"] by (auto simp: cc_get_def)
  qed
  have md: "\<exists>h1. cc_read_md p s = Some (push_bit 16 (ucast (regs (hw s) 0x11)) OR ucast (regs (hw s) 0x10), s\<lparr>hw := h1\<rparr>) \<and> regs h1 = regs (hw s)"
    for s :: "'a cc"
  proof -
    obtain h1 where h1: "cc_get p 0x11 s = Some (regs (hw s) 0x11, s\<lparr>hw := h1\<rparr>)" "regs h1 = regs (hw s)" using get [of "0x11" s] by auto
    obtain h2 where h2: "cc_get p 0x10 (s\<lparr>hw := h1\<rparr>) = Some (regs h1 0x10, s\<lparr>hw := h2\<rparr>)" "regs h2 = regs h1"
      using get [of "0x10" "s\<lparr>hw := h1\<rparr>"] by auto
    show ?thesis using h1 h2 by (auto simp: cc_read_md_def cc_read_pair_def)
  qed
  define s0 where "s0 = set_pair p 9 8 w s"
  have s0: "regs (hw s0) 0x11 = ucast (drop_bit 16 w)" "regs (hw s0) 0x10 = ucast w" "said s0 = said s"
    using assms(2,3) by (simp_all add: s0_def set_pair_def cc_set_def reg_set_def)
  obtain h1 where h1: "cc_read_md p s0 = Some (w, s0\<lparr>hw := h1\<rparr>)" "regs h1 = regs (hw s0)"
    using md [of s0] halves_of_u32 [of w] s0 by auto
  obtain h2 where "cc_read_md p (s0\<lparr>hw := h1\<rparr>) = Some (w, s0\<lparr>hw := h2\<rparr>)"
    using md [of "s0\<lparr>hw := h1\<rparr>"] halves_of_u32 [of w] s0 h1(2) by auto
  moreover have "cc_write_md p w s = Some (s0\<lparr>hw := h1\<rparr>)"
    using h1(1) by (simp add: cc_write_md_def md_settles.simps flip: s0_def)
  ultimately show ?thesis using s0(3) by auto
qed


text \<open>A machine with registers only, for the witness: digits are collected, a command byte stores or fetches a value.\<close>

definition register_port :: "((u8 \<Rightarrow> u16) \<times> u8 list) port" where
  "register_port = \<lparr>psend = \<lambda>b (r, ds).
       if b AND 0xE0 = 0xA0 then (r((if b AND 0x1F = 9 then 0x11 else if b AND 0x1F = 8 then 0x10 else b AND 0x1F) := reply_value ds), [])
       else if b AND 0xE0 = 0x80 then (r, take 4 (reg_bytes 0x80 (b AND 0x1F) (r (b AND 0x1F))))
       else if nib b = 3 then (r, [b]) else (r, ds @ [b]),
     precv = \<lambda>k (r, ds). (Data ds, r, []), left_first = True\<rparr>"

lemma register_port_set:
  "cc_send register_port (reg_bytes 0xA0 9 v) h = ((fst h)(0x11 := v), [])"
  "cc_send register_port (reg_bytes 0xA0 8 v) h = ((fst h)(0x10 := v), [])"
proof -
  have d: "cc_send register_port (take 4 (reg_bytes 0xA0 reg v)) h = (fst h, take 4 (reg_bytes 0xA0 reg v))" for reg
    by (simp add: cc_send_def register_port_def reg_bytes_def nib_digit bit.conj_disj_distrib2 and.assoc split: prod.split)
  have "cc_send register_port (reg_bytes 0xA0 reg v) h
      = psend register_port (0xA0 OR (reg AND 0x1F)) (cc_send register_port (take 4 (reg_bytes 0xA0 reg v)) h)" for reg
    by (simp add: cc_send_def reg_bytes_def)
  then show "cc_send register_port (reg_bytes 0xA0 9 v) h = ((fst h)(0x11 := v), [])"
    "cc_send register_port (reg_bytes 0xA0 8 v) h = ((fst h)(0x10 := v), [])"
    using reply_value_digits [of "0xA0" _ v] by (simp_all add: d) (simp_all add: register_port_def)
qed

lemma debugger_writes_md_witness:
  "\<exists>s1 s2. cc_write_md register_port 0x12345678 (session (\<lambda>r. 0, [])) = Some s1 \<and> said s1 = [] \<and> cc_read_md register_port s1 = Some (0x12345678, s2)"
proof -
  have rd: "\<exists>h1. precv register_port 64 (cc_send register_port [0x80 OR (r AND 0x1F)] h)
      = (Data (take 4 (reg_bytes 0x80 r (fst h r))), h1) \<and> fst h1 = fst h" if "r < 0x20" for h r
  proof -
    have "unat r < 2 ^ 5" using that by (simp add: word_less_nat_alt)
    then have r: "r AND 0x1F = r" using unat_and_mask [of r 5] by (simp add: word_unat_eq_iff mask_eq_exp_minus_1)
    have "(0x80 OR (r AND 0x1F)) AND 0xE0 = 0x80" "(0x80 OR (r AND 0x1F)) AND 0x1F = r AND 0x1F"
      by (simp_all add: bit.conj_disj_distrib2 and.assoc)
    then show ?thesis by (cases h) (simp add: cc_send_def register_port_def r)
  qed
  have rd': "\<forall>h. \<forall>r < 0x20. \<exists>h1. precv register_port 64 (cc_send register_port [0x80 OR (r AND 0x1F)] h)
      = (Data (take 4 (reg_bytes 0x80 r (fst h r))), h1) \<and> fst h1 = fst h"
    using rd by blast
  show ?thesis
    using debugger_writes_md [of register_port fst "0x12345678" "session (\<lambda>r. 0, [])", OF rd']
    by (simp add: register_port_set) (simp add: session_def)
qed

end
