(* ===== verification/Usim_Start.thy ===== *)
theory Usim_Start
  imports Usim_Options Usim_Records Usim_Cc
begin

section \<open>The outside of the programs: serial ports, window, timer (lashup.c, x11.c, tv.c, usim.c, cc.c)\<close>

text \<open>
  What the system calls and the X server answer is a parameter; the functions of the program decide on it, and
  \<open>usim_main\<close> is \<open>main\<close> from the command line to the call of \<open>run\<close>.
\<close>

subsection \<open>The debug cable (lashup.c)\<close>

record serial =
  port_fd :: int \<comment> \<open>\<open>open\<close>: a descriptor, negative for an error\<close>
  old_modes :: "(u32 \<times> u32) option" \<comment> \<open>\<open>tcgetattr\<close>: input and control modes after \<open>cfmakeraw\<close>\<close>
  set_ok :: bool \<comment> \<open>\<open>tcsetattr\<close>\<close>

text \<open>The bits of the C library for \<open>IGNPAR\<close>, \<open>CS8\<close>, \<open>CREAD\<close> and \<open>CLOCAL\<close>.\<close>

definition IGNPAR :: u32 where "IGNPAR = 4"
definition CS8 :: u32 where "CS8 = 0x30"
definition CREAD :: u32 where "CREAD = 0x80"
definition CLOCAL :: u32 where "CLOCAL = 0x800"

text \<open>The descriptor and the modes set, or the exit code.\<close>

definition lashup_init :: "serial \<Rightarrow> int + int \<times> u32 \<times> u32" where
  "lashup_init p =
    (if port_fd p < 0 then Inl 1
     else case old_modes p of
       None \<Rightarrow> Inl 1
     | Some (iflag, cflag) \<Rightarrow>
        if \<not> set_ok p then Inl 1
        else Inr (port_fd p, iflag OR IGNPAR, cflag OR CS8 OR CLOCAL OR CREAD))"

text \<open>Accesses to the cable only print.\<close>

definition lashup_read_text :: "u32 \<Rightarrow> cstring" where
  "lashup_read_text offset =
    cstr (if offset = 0x40 then ''lashup: reading from debugee''
          else if offset = 0x4C then ''lashup: reading from write only address (debugee address)''
          else if offset = 0x48 then ''lashup: reading from write only address (modifier bits)''
          else if offset = 0x44 then ''lashup: bus cycle)''
          else ''lashup: read: unknown offset'') @ [10]"

definition lashup_write_text :: "u32 \<Rightarrow> u32 \<Rightarrow> cstring" where
  "lashup_write_text offset v =
    (if offset = 0x40 then cstr ''lashup: writing to debugee'' @ [10]
     else if offset = 0x4C then cstr ''lashup: unibus debugee 1-16 bits'' @ [10]
     else if offset = 0x48 then
       cstr ''lashup: writing modifier bits'' @ [10, 9] @
       (if v = 1 then cstr ''bit 17 of debugee unibus address''
        else if v = 2 then cstr ''reset debugee bus interface''
        else if v = 4 then cstr ''timeout inhibit''
        else cstr ''unknown modifier bit: '' @ print_octal v @ cstr ''; v '' @ print_octal v) @ [10]
     else if offset = 0x44 then cstr ''lashup: writing to read-only address (bus cycle)'' @ [10]
     else cstr ''lashup: write: unknown offset'' @ [10])"

subsection \<open>The window and the timer (x11.c, tv.c)\<close>

text \<open>
  The X server: whether there is a display and a window, its screen, the events that come, each with whether it is
  an Expose event and its count, and whether the image can be made.
\<close>

record xserver =
  display_opens :: bool
  screen_order :: u32
  screen_planes :: u32
  screen_black :: u64
  screen_white :: u64
  window_made :: bool
  first_events :: "(bool \<times> u32) list"
  image_made :: bool

record window =
  bitmap_order :: u32
  color_depth :: u32
  x_Black :: u64
  x_White :: u64
  win_width :: u32
  win_height :: u32
  title :: cstring

text \<open>The loop that waits for the last of a series of Expose events; \<open>None\<close> if it waits for ever.\<close>

fun wait_expose :: "(bool \<times> u32) list \<Rightarrow> (bool \<times> u32) list option" where
  "wait_expose [] = None"
| "wait_expose ((expose, n) # es) = (if \<not> expose \<or> n \<noteq> 0 then wait_expose es else Some es)"

text \<open>
  \<open>None\<close> if it waits for ever, or writes through a null pointer because there is no image; the events left over
  are those that \<open>x11_event\<close> finds.
\<close>

definition x11_init :: "xserver \<Rightarrow> (int + window \<times> (bool \<times> u32) list) option" where
  "x11_init x =
    (if \<not> display_opens x then Some (Inl (-1))
     else if \<not> window_made x then Some (Inl (-1))
     else do {
       es \<leftarrow> wait_expose (first_events x);
       if image_made x
       then Some (Inr (\<lparr>bitmap_order = screen_order x, color_depth = screen_planes x, x_Black = screen_black x,
              x_White = screen_white x, win_width = tv_width, win_height = tv_height, title = cstr ''CADR''\<rparr>, es))
       else None
     })"

text \<open>The window and the microseconds of processor time between two timer signals.\<close>

definition tv_init :: "xserver \<Rightarrow> (int + window \<times> nat) option" where
  "tv_init x = do {
     r \<leftarrow> x11_init x;
     Some (case r of Inl e \<Rightarrow> Inl e | Inr (win, _) \<Rightarrow> Inr (win, 16000))
   }"

subsection \<open>The serial line of the debugger (cc.c)\<close>

text \<open>
  The options and the operand of cc: \<open>usage\<close> is printed for \<open>-h\<close> only, other unknown letters are passed over, and operands
  after the first too. \<open>devices\<close> is what \<open>open\<close> answers for a name. Errors of \<open>tcgetattr\<close> and \<open>tcsetattr\<close> are only printed.
\<close>

definition cc_option :: "found \<Rightarrow> bool \<Rightarrow> int + bool" where
  "cc_option x debug =
    (if fst x = of_char CHR ''d'' then Inr True
     else if fst x = of_char CHR ''h'' then Inl 0
     else Inr debug)"

definition cc_device :: "cstring list \<Rightarrow> cstring" where
  "cc_device operands = (case operands of [] \<Rightarrow> cstr ''/dev/ttyUSB1'' | n # _ \<Rightarrow> n)"

definition cc_program ::
  "cstring list \<Rightarrow> (cstring \<Rightarrow> int) \<Rightarrow> 'h port \<Rightarrow> u8 list \<Rightarrow> 'h cc \<Rightarrow> (int + 'h cc) option" where
  "cc_program argv devices p stdin s =
    (let (found, operands) = getopt (cstr ''dh'') argv in
     case each_option cc_option found False of
       Inl e \<Rightarrow> Some (Inl e)
     | Inr debug \<Rightarrow> if devices (cc_device operands) < 0 then Some (Inl 1) else map_option Inr (cc_main p stdin s))"

lemma cc_program_device:
  "n = [] \<or> hd n \<noteq> 45 \<Longrightarrow> cc_program [n] devices p stdin s =
     (if devices n < 0 then Some (Inl 1) else map_option Inr (cc_main p stdin s))"
  using getopt_operand [of n] by (simp add: cc_program_def cc_device_def)

subsection \<open>\<open>main\<close>\<close>

definition usim_main ::
  "cstring list \<Rightarrow> serial \<Rightarrow> xserver \<Rightarrow> fs \<Rightarrow> u32 \<Rightarrow> (sym_s list \<Rightarrow> sym_s list) \<Rightarrow> bool \<Rightarrow> world
     \<Rightarrow> machine \<Rightarrow> (int + machine \<times> symbols) option" where
  "usim_main argv p x files fdes qsort char_signed w s0 =
    (case usim_options argv of
       Inl e \<Rightarrow> Some (Inl e)
     | Inr opt \<Rightarrow>
        if lashup opt \<and> isl (lashup_init p) then Some (Inl 1)
        else do {
          r \<leftarrow> tv_init x;
          (case r of
             Inl e \<Rightarrow> Some (Inl e)
           | Inr _ \<Rightarrow> do {
               t \<leftarrow> boot (start_options.truncate opt) files fdes qsort char_signed (w\<lparr>ximage := True\<rparr>) s0;
               Some (case t of None \<Rightarrow> Inl 1 | Some booted \<Rightarrow> Inr booted)
             })
        })"

lemma usim_main_boots:
  assumes "usim_main argv p x files fdes qsort char_signed w s0 = Some (Inr (s, t))"
  shows "\<exists>opt. boot opt files fdes qsort char_signed (w\<lparr>ximage := True\<rparr>) s0 = Some (Some (s, t))"
  using assms by (auto simp: usim_main_def split: sum.splits if_splits bind_splits option.splits)


definition example_screen :: xserver where
  "example_screen = \<lparr>display_opens = True, screen_order = 0, screen_planes = 24, screen_black = 0, screen_white = 0xFFFFFF,
     window_made = True, first_events = [(False, 0), (True, 1), (True, 0)], image_made = True\<rparr>"

lemma example_start:
  "\<exists>s t. usim_main [cstr ''-w''] p example_screen example_files 3 id False quiet_world (machine_start h) = Some (Inr (s, t))"
proof -
  have f: "example_files (cstr ''disk.img'') = Some (replicate 1024 0)" "example_files (cstr ''../bands/promh.sym.9'') = None"
    "example_files (cstr ''../bands/ucadr.sym.841'') = None"
    by (simp_all add: example_files_def)
  obtain d where d: "disk_init (Some (3, replicate 1024 0)) (disk (machine_start h)) = Some (Some (d, None, -1))"
    using example_disk [of "disk (machine_start h)"] by (auto simp: machine_start_def)
  obtain p where p: "read_prom_files example_files (prom_ucode (cpu (machine_start h))) = Some (Some p)"
    using example_prom by blast
  have "usim_options [cstr ''-w''] = Inr (usim_defaults\<lparr>warm_boot_opt := True\<rparr>)"
    using usim_options_written [of "[Letters (cstr ''w'')]"] by (simp add: usim_set_def usim_defaults_def)
  then show ?thesis
    by (auto simp: usim_main_def tv_init_def x11_init_def example_screen_def usim_defaults_def start_options.truncate_def
       boot_def tv_poll_def x11_event_def quiet_world_def f d p read_sym_files_def sym_read_file_def
       iob_init_def kbd_init_def okb_init_us_table Let_def simp del: cstr_simps split: prod.splits)
qed

definition no_port :: serial where
  "no_port = \<lparr>port_fd = -1, old_modes = None, set_ok = False\<rparr>"


end
