(* ===== verification/Usim_Planted.thy ===== *)
theory Usim_Planted
  imports Usim_Cc
begin

section \<open>The instructions that the debugger plants\<close>

text \<open>
  \<open>ir_pair\<close> builds an instruction out of fields and \<open>ir_field\<close>, with which ucode.c takes it apart, finds
  them again; so the processor of the model can be asked what the instructions that cc.c loads do.
\<close>


subsection \<open>Fields\<close>

lemma bitmask_mask: "w \<le> 32 \<Longrightarrow> bitmask w = mask w"
  by (induction w) (simp_all add: mask_Suc_double or.commute push_bit_eq_mult mult.commute)

lemma bit_ir_pair:
  assumes "width \<le> 32"
  shows "bit (push_bit shift (ucast (val AND bitmask width)) :: u64) i
    \<longleftrightarrow> shift \<le> i \<and> i < shift + width \<and> i < 64 \<and> bit (val :: u32) (i - shift)"
  using assms by (auto simp: bitmask_mask bit_simps dest: bit_imp_le_length)

lemma ir_field_or: "ir_field (u OR v) p m = ir_field u p m OR ir_field v p m"
  by (simp add: ir_field_def drop_bit_or unsigned_or_eq bit.conj_disj_distrib2)

lemma ir_field_pair:
  assumes "width \<le> 32" and "width \<le> w" and "shift + width \<le> 64"
  shows "ir_field (push_bit shift (ucast (val AND bitmask width))) shift (mask w) = val AND mask width"
proof (rule bit_word_eqI)
  fix i assume "i < LENGTH(32)"
  then show "bit (ir_field (push_bit shift (ucast (val AND bitmask width))) shift (mask w)) i = bit (val AND mask width) i"
    using assms by (auto simp: ir_field_def bitmask_mask bit_simps)
qed

lemma ir_field_pair_0:
  assumes "width \<le> 32" and "p + w \<le> shift \<or> shift + width \<le> p"
  shows "ir_field (push_bit shift (ucast (val AND bitmask width))) p (mask w) = 0"
proof (rule bit_word_eqI)
  fix i assume "i < LENGTH(32)"
  then show "bit (ir_field (push_bit shift (ucast (val AND bitmask width))) p (mask w)) i = bit (0 :: u32) i"
    using assms by (auto simp: ir_field_def bitmask_mask bit_simps)
qed


lemma masks:
  "mask 1 = (1 :: u32)" "mask 2 = (3 :: u32)" "mask 6 = (0x3F :: u32)" "mask 10 = (0x3FF :: u32)" "mask 12 = (0xFFF :: u32)"
  by (simp_all add: mask_eq_exp_minus_1)

lemma pair_constants:
  "ir_pair CONS_IR_A_SRC v = push_bit 32 (ucast (v AND bitmask 10))"
  "ir_pair CONS_IR_M_SRC v = push_bit 26 (ucast (v AND bitmask 6))"
  "ir_pair CONS_IR_A_MEM_DEST v = push_bit 14 (ucast (v AND bitmask 12))"
  "ir_pair CONS_IR_OB v = push_bit 12 (ucast (v AND bitmask 2))"
  "ir_pair CONS_IR_ALUF v = push_bit 2 (ucast (v AND bitmask 7))"
  by (simp_all add: ir_pair_def Let_def CONS_IR_A_SRC_def CONS_IR_M_SRC_def CONS_IR_A_MEM_DEST_def CONS_IR_OB_def CONS_IR_ALUF_def
      drop_bit_nat_def)

text \<open>The fields of the function field: a 7-bit field at bit 2 holds the carry and the operation.\<close>

lemma ir_field_aluf:
  "ir_field (push_bit 2 (ucast (v AND bitmask 7))) 3 (mask 6) = drop_bit 1 (v AND mask 7)"
  "ir_field (push_bit 2 (ucast (v AND bitmask 7))) 2 1 = v AND 1"
  by (rule bit_word_eqI, auto simp: ir_field_def bitmask_mask bit_simps)+

lemma and_mask_less: "unat v < 2 ^ n \<Longrightarrow> v AND mask n = (v :: u32)"
  by (simp add: word_unat_eq_iff unat_and_mask)

lemmas inst_fields = ir_field_or ir_field_pair ir_field_pair_0 ir_field_aluf pair_constants

lemma a_mem_dest:
  assumes "unat loc < 1024"
  shows "(0x800 + loc) AND mask 12 = 0x800 OR (loc :: u32)" "(0x800 OR loc) AND 0x800 = 0x800" "(0x800 OR loc) AND 0x7FF = loc"
proof -
  have m: "loc AND mask 10 = loc" using assms by (intro and_mask_less) simp
  have "0x800 AND loc = (0x800 AND mask 10) AND loc" by (simp only: and.assoc and.commute [of "mask 10"] m)
  then have z: "0x800 AND loc = 0" by (simp add: mask_eq_exp_minus_1)
  have "unat (0x800 + loc) < 2 ^ 12" using assms by (simp add: unat_word_ariths)
  then show "(0x800 + loc) AND mask 12 = 0x800 OR loc"
    using and_mask_less [of "0x800 + loc" 12] disjunctive_add_eq_or [OF z] by simp
  show "(0x800 OR loc) AND 0x800 = 0x800" using z by (simp add: bit.conj_disj_distrib2 and.commute)
  have "loc AND mask 11 = loc" using assms by (intro and_mask_less) simp
  then show "(0x800 OR loc) AND 0x7FF = loc" by (simp add: bit.conj_disj_distrib2 mask_eq_exp_minus_1)
qed

lemma write_a_fields:
  assumes "unat loc < 1024"
  shows "ir_field (write_a_inst loc) 43 (mask 2) = 0" "ir_field (write_a_inst loc) 32 (mask 10) = 0"
    "ir_field (write_a_inst loc) 26 (mask 6) = 0x2A" "ir_field (write_a_inst loc) 14 (mask 12) = 0x800 OR loc"
    "ir_field (write_a_inst loc) 12 (mask 2) = 1" "ir_field (write_a_inst loc) 3 (mask 6) = 3"
    "ir_field (write_a_inst loc) 2 1 = 0" "ir_field (write_a_inst loc) 0 (mask 2) = 0"
  unfolding write_a_inst_def pair_constants CONS_A_MEM_DEST_INDICATOR_def CONS_M_SRC_MD_def CONS_ALU_SETM_def CONS_OB_ALU_def ir_field_or
  using a_mem_dest(1) [OF assms]
  by (simp_all add: ir_field_pair ir_field_pair_0 ir_field_pair_0 [where w = 1, simplified] ir_field_aluf) (simp_all add: mask_eq_exp_minus_1)

lemma read_a_fields:
  assumes "unat adr < 1024"
  shows "ir_field (read_a_inst adr) 43 (mask 2) = 0" "ir_field (read_a_inst adr) 32 (mask 10) = adr"
    "ir_field (read_a_inst adr) 26 (mask 6) = 0" "ir_field (read_a_inst adr) 14 (mask 12) = 0"
    "ir_field (read_a_inst adr) 12 (mask 2) = 1" "ir_field (read_a_inst adr) 3 (mask 6) = 5"
    "ir_field (read_a_inst adr) 2 1 = 0" "ir_field (read_a_inst adr) 0 (mask 2) = 0"
  unfolding read_a_inst_def pair_constants CONS_ALU_SETA_def CONS_OB_ALU_def ir_field_or
  using and_mask_less [of adr 10] assms
  by (simp_all add: ir_field_pair ir_field_pair_0 ir_field_pair_0 [where w = 1, simplified] ir_field_aluf) (simp_all add: mask_eq_exp_minus_1)

text \<open>What the processor of the model does with an instruction, given the sources it selects.\<close>

definition run_planted :: "world \<Rightarrow> u64 \<Rightarrow> machine \<Rightarrow> machine option" where
  "run_planted w u s = do {
     a \<leftarrow> read_a_mem (ir_field u 32 0x3FF) s;
     (s1, m) \<leftarrow> m_source (ir_field u 26 0x3F) 0 s;
     r \<leftarrow> execute w u m a s1;
     Some (after r)
   }"

text \<open>
  C15. The instruction that \<open>cc_write_a_mem\<close> plants stores MD in the A memory location, and the one that
  \<open>cc_read_a_mem\<close> plants puts that location on the output of the ALU: what is written through MD is read back.
\<close>

theorem planted_a_mem_roundtrip:
  assumes "unat loc < 1024"
  shows "\<exists>s1 s2. run_planted w (write_a_inst loc) s = Some s1 \<and> a_memory (cpu s1) = (a_memory (cpu s))(unat loc := md (cpu s))
    \<and> run_planted w (read_a_inst loc) s1 = Some s2 \<and> alu_out (cpu s2) = md (cpu s)"
proof -
  note wf = write_a_fields [OF assms, unfolded masks] and rf = read_a_fields [OF assms, unfolded masks]
  note loc = a_mem_dest(2,3) [OF assms]
  define s1 where "s1 = s\<lparr>cpu := (cpu s)\<lparr>alu_out := md (cpu s), alu_carry := 0, a_memory := (a_memory (cpu s))(unat loc := md (cpu s))\<rparr>\<rparr>"
  have "run_planted w (write_a_inst loc) s = Some s1"
    using assms by (simp add: run_planted_def wf loc read_a_mem_def ld_def st_def m_source_def functional_source_def execute_def exec_alu_def
      alu_def alu_bool_def output_bus_def q_control_def write_dest_def write_a_mem_def plain_def s1_def)
  moreover have "\<exists>s2. run_planted w (read_a_inst loc) s1 = Some s2 \<and> alu_out (cpu s2) = md (cpu s)"
    using assms by (simp add: run_planted_def rf read_a_mem_def read_m_mem_def ld_def st_def m_source_def execute_def exec_alu_def
      alu_def alu_bool_def output_bus_def q_control_def write_dest_def write_functional_dest_def write_m_mem_def plain_def s1_def)
  ultimately show ?thesis by (simp add: s1_def)
qed

lemma planted_a_mem_roundtrip_witness:
  "\<forall>w s. \<exists>s1 s2. run_planted w (write_a_inst 0x155) s = Some s1 \<and> a_memory (cpu s1) = (a_memory (cpu s))(0x155 := md (cpu s))
    \<and> run_planted w (read_a_inst 0x155) s1 = Some s2 \<and> alu_out (cpu s2) = md (cpu s)"
  using planted_a_mem_roundtrip [of "0x155"] by simp


text \<open>The comments beside the instructions in \<open>setup_map_inst\<close>.\<close>

definition setup_map_comments :: "string list" where
  "setup_map_comments =
    [''(alu) SETZ a=0 m=0 m[0] C=0 alu-> Q-R -><none>,m[2] '',
     ''(alu) SETO a=0 m=0 m[0] C=0 alu-> Q-R -><none>,m[3] '',
     ''(byte) a=2 m=m[3] dpb pos=10, width=1 ->a_mem[47] '',
     ''(byte) a=2 m=m[3] dpb pos=26, width=4 ->VMA,write-map ,m[4] '',
     ''(byte) a=4 m=m[3] dpb pos=0, width=11 -><none>,m[5] '',
     ''(alu) SETA a=47 m=0 m[0] C=0 alu-> ->MD ,m[0] '',
     ''(byte) a=5 m=m[3] dpb pos=12, width=4 ->VMA,write-map ,m[0] '',
     ''(alu) M+A [ADD] a=47 m=52 MD C=0 alu-> ->MD ,m[0] '',
     ''(byte) a=4 m=m[3] dpb pos=1, width=2 -><none>,m[5] '',
     ''(byte) a=5 m=m[3] dpb pos=4, width=12 ->VMA,write-map ,m[0] '',
     ''(alu) M+A [ADD] a=47 m=52 MD C=0 alu-> ->MD ,m[0] '',
     ''(byte) a=4 m=m[3] dpb pos=0, width=1 ->VMA,write-map ,m[0] '']"


end
